theory Spec2Isabelle
  imports Complex_Main "HOL-Library.Log_Nat"
begin

section \<open>Binary floating-point arithmetic of the template parameter \<open>T\<close>\<close>

text \<open>
  The source is a template over a floating type \<open>T\<close> for which
  \<open>std::numeric_limits<T>::is_iec559\<close> holds and whose radix is 2.  Such a type is
  fixed by the three \<open>numeric_limits\<close> constants \<open>digits\<close>, \<open>min_exponent\<close>,
  \<open>max_exponent\<close>; the compile-time switch \<open>use_fma<T>::value\<close> is the fourth field.
  A value of \<open>T\<close> is a finite number, an infinity or a NaN.
  The sign of a zero is not represented: the source only looks at it in
  \<open>std::signbit\<close> at the top of \<open>adaptive::orient2d\<close>, where the next line returns the
  same value for a zero of either sign.
  A NaN carries its sign bit, which the same \<open>std::signbit\<close> reads.  IEEE 754 leaves the
  sign of a NaN result to the implementation; the operations below follow x86-64 (SSE2
  scalar arithmetic): an invalid operation (\<open>inf - inf\<close>, \<open>0 * inf\<close>) returns the default
  NaN, whose sign bit is set; an operation with a NaN operand returns that operand, the
  first one when both are NaNs; negation flips the sign bit of a NaN and \<open>std::abs\<close> clears
  it.
\<close>

record fmt =
  digits :: int
  min_exponent :: int
  max_exponent :: int
  fast_fma :: bool

definition binary32 :: fmt where
  "binary32 = \<lparr>digits = 24, min_exponent = -125, max_exponent = 128, fast_fma = False\<rparr>"

definition binary64 :: fmt where
  "binary64 = \<lparr>digits = 53, min_exponent = -1021, max_exponent = 1024, fast_fma = False\<rparr>"

text \<open>
  A finite value is a signed significand and an exponent: \<open>Fin m e\<close> denotes
  \<open>m * 2^e\<close>.  Every operation returns the encoding the hardware uses (the significand
  has exactly \<open>digits\<close> bits unless the exponent is the smallest one), so equal finite
  results are equal terms.
\<close>

datatype fl = Fin int int | PInf | NInf | NaN bool

fun val :: "fl \<Rightarrow> real" where
  "val (Fin m e) = of_int m * 2 powi e"
| "val _ = 0"

definition qmin :: "fmt \<Rightarrow> int" where
  "qmin c = min_exponent c - digits c"

definition qmax :: "fmt \<Rightarrow> int" where
  "qmax c = max_exponent c - digits c"

text \<open>
  \<open>m / 2^k\<close> rounded to the nearest integer, ties to the even one: \<open>d\<close> is the quotient
  rounded down, \<open>r\<close> the remainder and \<open>h\<close> half of the divisor.
\<close>

definition rne_shift :: "int \<Rightarrow> nat \<Rightarrow> int" where
  "rne_shift m k = (let d = drop_bit k m; r = m - push_bit k d; h = push_bit (k - 1) 1 in
     if r < h then d else if h < r then d + 1 else if even d then d else d + 1)"

text \<open>
  \<open>normal c m q\<close> packs a rounded significand: a carry out of the top bit moves to the
  next exponent, and an exponent above the largest one overflows to an infinity.
\<close>

definition normal :: "fmt \<Rightarrow> int \<Rightarrow> int \<Rightarrow> fl" where
  "normal c m q = (let carry = (\<bar>m\<bar> = push_bit (nat (digits c)) 1);
       m' = (if carry then drop_bit 1 m else m);
       q' = (if carry then q + 1 else q) in
     if qmax c < q' then (if 0 < m then PInf else NInf) else Fin m' q')"

text \<open>
  \<open>round_to c m e\<close> is the value of type \<open>T\<close> that an operation with the exact result
  \<open>m * 2^e\<close> returns: round to nearest, ties to even, gradual underflow, overflow to
  infinity.
\<close>

definition round_to :: "fmt \<Rightarrow> int \<Rightarrow> int \<Rightarrow> fl" where
  "round_to c m e = (if m = 0 then Fin 0 (qmin c) else
     let q = max (bitlen \<bar>m\<bar> + e - digits c) (qmin c) in
     if q \<le> e then normal c (push_bit (nat (e - q)) m) q
     else normal c (rne_shift m (nat (q - e))) q)"

text \<open>
  Exact sums are formed at the smaller of the two exponents; a zero operand, whose
  exponent is the smallest one, is left out of the sum.
\<close>

definition align :: "int \<Rightarrow> int \<Rightarrow> int \<Rightarrow> int" where
  "align m e e' = push_bit (nat (e - e')) m"

text \<open>The finite values of the type, in the encoding above.\<close>

fun finite_fl :: "fmt \<Rightarrow> fl \<Rightarrow> bool" where
  "finite_fl c (Fin m e) \<longleftrightarrow>
     \<bar>m\<bar> < 2 ^ nat (digits c) \<and> qmin c \<le> e \<and> e \<le> qmax c \<and>
     (e = qmin c \<or> 2 ^ nat (digits c - 1) \<le> \<bar>m\<bar>)"
| "finite_fl c _ \<longleftrightarrow> False"

text \<open>\<open>T(n)\<close> for an integer literal and \<open>std::exp2(T(k))\<close>.\<close>

definition of_int_fl :: "fmt \<Rightarrow> int \<Rightarrow> fl" where
  "of_int_fl c n = round_to c n 0"

definition exp2_fl :: "fmt \<Rightarrow> int \<Rightarrow> fl" where
  "exp2_fl c k = round_to c 1 k"

fun fneg :: "fl \<Rightarrow> fl" where
  "fneg (Fin m e) = Fin (- m) e"
| "fneg PInf = NInf"
| "fneg NInf = PInf"
| "fneg (NaN s) = NaN (\<not> s)"

fun fabs :: "fl \<Rightarrow> fl" where
  "fabs (Fin m e) = Fin \<bar>m\<bar> e"
| "fabs PInf = PInf"
| "fabs NInf = PInf"
| "fabs (NaN s) = NaN False"

fun fadd :: "fmt \<Rightarrow> fl \<Rightarrow> fl \<Rightarrow> fl" where
  "fadd c (Fin m1 e1) (Fin m2 e2) =
     (if m1 = 0 then round_to c m2 e2 else if m2 = 0 then round_to c m1 e1
      else round_to c (align m1 e1 (min e1 e2) + align m2 e2 (min e1 e2)) (min e1 e2))"
| "fadd c (NaN s) _ = NaN s"
| "fadd c _ (NaN s) = NaN s"
| "fadd c PInf NInf = NaN True"
| "fadd c NInf PInf = NaN True"
| "fadd c PInf _ = PInf"
| "fadd c NInf _ = NInf"
| "fadd c _ PInf = PInf"
| "fadd c _ NInf = NInf"

text \<open>\<open>x - y\<close> is \<open>x + (- y)\<close>, except that a NaN operand is returned as it is.\<close>

definition fsub :: "fmt \<Rightarrow> fl \<Rightarrow> fl \<Rightarrow> fl" where
  "fsub c x y = (case x of NaN s \<Rightarrow> NaN s
     | _ \<Rightarrow> (case y of NaN s \<Rightarrow> NaN s | _ \<Rightarrow> fadd c x (fneg y)))"

text \<open>The sign of a value: \<open>-1\<close>, \<open>0\<close>, \<open>1\<close>; a NaN has none.\<close>

fun fsgn :: "fl \<Rightarrow> int option" where
  "fsgn (Fin m e) = Some (sgn m)"
| "fsgn PInf = Some 1"
| "fsgn NInf = Some (- 1)"
| "fsgn (NaN s) = None"

fun fmul :: "fmt \<Rightarrow> fl \<Rightarrow> fl \<Rightarrow> fl" where
  "fmul c (Fin m1 e1) (Fin m2 e2) = round_to c (m1 * m2) (e1 + e2)"
| "fmul c (NaN s) _ = NaN s"
| "fmul c _ (NaN s) = NaN s"
| "fmul c x y = (case (fsgn x, fsgn y) of
     (Some s, Some t) \<Rightarrow> (if s * t = 0 then NaN True else if 0 < s * t then PInf else NInf)
   | _ \<Rightarrow> NaN True)"

text \<open>
  \<open>std::fma(a, b, z)\<close>: the exact \<open>a * b + z\<close>, rounded once.  When \<open>a\<close> or \<open>b\<close> is not
  finite the product is an infinity or a NaN, to which \<open>z\<close> is added.
\<close>

definition ffma_special :: "fmt \<Rightarrow> fl \<Rightarrow> fl \<Rightarrow> fl \<Rightarrow> fl" where
  "ffma_special c x y z = (case fmul c x y of
     NaN s \<Rightarrow> NaN s
   | PInf \<Rightarrow> (case z of NaN s \<Rightarrow> NaN s | NInf \<Rightarrow> NaN True | _ \<Rightarrow> PInf)
   | NInf \<Rightarrow> (case z of NaN s \<Rightarrow> NaN s | PInf \<Rightarrow> NaN True | _ \<Rightarrow> NInf)
   | Fin _ _ \<Rightarrow> NaN True)"

fun ffma :: "fmt \<Rightarrow> fl \<Rightarrow> fl \<Rightarrow> fl \<Rightarrow> fl" where
  "ffma c (Fin m1 e1) (Fin m2 e2) (Fin m3 e3) =
     (if m3 = 0 then round_to c (m1 * m2) (e1 + e2) else if m1 * m2 = 0 then round_to c m3 e3
      else round_to c (align (m1 * m2) (e1 + e2) (min (e1 + e2) e3) + align m3 e3 (min (e1 + e2) e3))
        (min (e1 + e2) e3))"
| "ffma c (Fin m1 e1) (Fin m2 e2) z = z"
| "ffma c x y z = ffma_special c x y z"

text \<open>Comparisons; every comparison with a NaN is false, except \<open>!=\<close>.\<close>

fun fl_eq :: "fl \<Rightarrow> fl \<Rightarrow> bool" where
  "fl_eq (Fin m1 e1) (Fin m2 e2) \<longleftrightarrow>
     align m1 e1 (min e1 e2) = align m2 e2 (min e1 e2)"
| "fl_eq PInf PInf \<longleftrightarrow> True"
| "fl_eq NInf NInf \<longleftrightarrow> True"
| "fl_eq _ _ \<longleftrightarrow> False"

fun fl_less :: "fl \<Rightarrow> fl \<Rightarrow> bool" where
  "fl_less (Fin m1 e1) (Fin m2 e2) \<longleftrightarrow>
     align m1 e1 (min e1 e2) < align m2 e2 (min e1 e2)"
| "fl_less (NaN s) _ \<longleftrightarrow> False"
| "fl_less _ (NaN s) \<longleftrightarrow> False"
| "fl_less NInf NInf \<longleftrightarrow> False"
| "fl_less NInf _ \<longleftrightarrow> True"
| "fl_less PInf _ \<longleftrightarrow> False"
| "fl_less _ PInf \<longleftrightarrow> True"
| "fl_less _ NInf \<longleftrightarrow> False"

definition fl_ge :: "fl \<Rightarrow> fl \<Rightarrow> bool" where
  "fl_ge x y \<longleftrightarrow> fl_less y x \<or> fl_eq x y"

text \<open>\<open>T(0) == x\<close>; \<open>T(0) != x\<close> is its negation.\<close>

fun is_zero :: "fl \<Rightarrow> bool" where
  "is_zero (Fin m e) \<longleftrightarrow> m = 0"
| "is_zero _ \<longleftrightarrow> False"

text \<open>\<open>std::signbit\<close>: the sign bit of the value, for a zero taken to be clear.\<close>

fun signbit :: "fl \<Rightarrow> bool" where
  "signbit (Fin m e) \<longleftrightarrow> m < 0"
| "signbit PInf \<longleftrightarrow> False"
| "signbit NInf \<longleftrightarrow> True"
| "signbit (NaN s) \<longleftrightarrow> s"


section \<open>\<open>ExpansionBase<T>\<close>: the error-free transformations\<close>

text \<open>
  An \<open>Expansion<T, N>\<close> is a \<open>std::array<T, N>\<close> with a fill count \<open>m_size\<close>; it is
  modelled by the list of its first \<open>m_size\<close> elements, in storage order.  The capacity
  \<open>N\<close> is a template argument; it is made explicit where the source stores through an
  index (\<open>push_back\<close>, and the output pointer of \<open>ExpansionSum\<close> and
  \<open>ScaleExpansion\<close>), and there a store at or beyond the capacity is the result \<open>None\<close>.
\<close>

type_synonym expansion = "fl list"

definition push_back :: "nat \<Rightarrow> expansion \<Rightarrow> fl \<Rightarrow> expansion option" where
  "push_back N e v = (if length e < N then Some (e @ [v]) else None)"

definition mostSignificant :: "fmt \<Rightarrow> expansion \<Rightarrow> fl" where
  "mostSignificant c e = (case e of [] \<Rightarrow> of_int_fl c 0 | _ \<Rightarrow> last e)"

definition estimate :: "fmt \<Rightarrow> expansion \<Rightarrow> fl" where
  "estimate c e = foldl (fadd c) (of_int_fl c 0) e"

definition negate :: "expansion \<Rightarrow> expansion" where
  "negate e = map fneg e"

definition Splitter :: "fmt \<Rightarrow> fl" where
  "Splitter c = fadd c (exp2_fl c ((digits c + digits c mod 2) div 2)) (of_int_fl c 1)"

definition MakeExpansion_checked :: "fl \<Rightarrow> fl \<Rightarrow> expansion option" where
  "MakeExpansion_checked v tail =
     Option.bind (if \<not> is_zero tail then push_back 2 [] tail else Some [])
       (\<lambda>e. if \<not> is_zero v then push_back 2 e v else Some e)"

text \<open>\<open>if(T(0) != x) e.push_back(x)\<close> on an empty expansion.\<close>

fun nonzero :: "fl \<Rightarrow> fl list" where
  "nonzero (Fin m e) = (if m = 0 then [] else [Fin m e])"
| "nonzero x = [x]"

definition MakeExpansion :: "fl \<Rightarrow> fl \<Rightarrow> expansion" where
  "MakeExpansion v tail = nonzero tail @ nonzero v"

definition PlusTail :: "fmt \<Rightarrow> fl \<Rightarrow> fl \<Rightarrow> fl \<Rightarrow> fl" where
  "PlusTail c a b x = (let bVirtual = fsub c x a;
       aVirtual = fsub c x bVirtual;
       bRoundoff = fsub c b bVirtual;
       aRoundoff = fsub c a aVirtual
     in fadd c aRoundoff bRoundoff)"

definition FastPlusTail :: "fmt \<Rightarrow> fl \<Rightarrow> fl \<Rightarrow> fl \<Rightarrow> fl" where
  "FastPlusTail c a b x = (let bVirtual = fsub c x a in fsub c b bVirtual)"

definition MinusTail :: "fmt \<Rightarrow> fl \<Rightarrow> fl \<Rightarrow> fl \<Rightarrow> fl" where
  "MinusTail c a b x = (let bVirtual = fsub c a x;
       aVirtual = fadd c x bVirtual;
       bRoundoff = fsub c bVirtual b;
       aRoundoff = fsub c a aVirtual
     in fadd c aRoundoff bRoundoff)"

definition Split :: "fmt \<Rightarrow> fl \<Rightarrow> fl \<times> fl" where
  "Split c a = (let cc = fmul c (Splitter c) a;
       aBig = fsub c cc a;
       aHi = fsub c cc aBig
     in (aHi, fsub c a aHi))"

definition DekkersProduct :: "fmt \<Rightarrow> fl \<times> fl \<Rightarrow> fl \<times> fl \<Rightarrow> fl \<Rightarrow> fl" where
  "DekkersProduct c aSplit bSplit p = (let y0 = fsub c p (fmul c (fst aSplit) (fst bSplit));
       y1 = fsub c y0 (fmul c (snd aSplit) (fst bSplit));
       y2 = fsub c y1 (fmul c (fst aSplit) (snd bSplit))
     in fsub c (fmul c (snd aSplit) (snd bSplit)) y2)"

definition MultTail :: "fmt \<Rightarrow> fl \<Rightarrow> fl \<Rightarrow> fl \<Rightarrow> fl" where
  "MultTail c a b p = (if fast_fma c then ffma c a b (fneg p)
     else DekkersProduct c (Split c a) (Split c b) p)"

definition MultTailPreSplit :: "fmt \<Rightarrow> fl \<Rightarrow> fl \<Rightarrow> fl \<times> fl \<Rightarrow> fl \<Rightarrow> fl" where
  "MultTailPreSplit c a b bSplit p = (if fast_fma c then ffma c a b (fneg p)
     else DekkersProduct c (Split c a) bSplit p)"

definition Plus :: "fmt \<Rightarrow> fl \<Rightarrow> fl \<Rightarrow> expansion" where
  "Plus c a b = (let x = fadd c a b in MakeExpansion x (PlusTail c a b x))"

definition Minus :: "fmt \<Rightarrow> fl \<Rightarrow> fl \<Rightarrow> expansion" where
  "Minus c a b = Plus c a (fneg b)"

definition Mult :: "fmt \<Rightarrow> fl \<Rightarrow> fl \<Rightarrow> expansion" where
  "Mult c a b = (let x = fmul c a b in MakeExpansion x (MultTail c a b x))"

text \<open>The four components of \<open>TwoTwoDiff\<close> before the zero components are dropped.\<close>

definition TwoTwoDiff_terms :: "fmt \<Rightarrow> fl \<Rightarrow> fl \<Rightarrow> fl \<Rightarrow> fl \<Rightarrow> fl list" where
  "TwoTwoDiff_terms c ax by ay bx = (let axby1 = fmul c ax by;
       axby0 = MultTail c ax by axby1;
       bxay1 = fmul c bx ay;
       bxay0 = MultTail c bx ay bxay1;
       i0 = fsub c axby0 bxay0;
       x0 = MinusTail c axby0 bxay0 i0;
       j = fadd c axby1 i0;
       t0 = PlusTail c axby1 i0 j;
       i1 = fsub c t0 bxay1;
       x1 = MinusTail c t0 bxay1 i1;
       x3 = fadd c j i1;
       x2 = PlusTail c j i1 x3
     in [x0, x1, x2, x3])"

fun push_nonzero :: "nat \<Rightarrow> fl list \<Rightarrow> expansion \<Rightarrow> expansion option" where
  "push_nonzero N [] e = Some e"
| "push_nonzero N (x # xs) e =
     (if \<not> is_zero x then Option.bind (push_back N e x) (push_nonzero N xs)
      else push_nonzero N xs e)"

definition TwoTwoDiff_checked :: "fmt \<Rightarrow> fl \<Rightarrow> fl \<Rightarrow> fl \<Rightarrow> fl \<Rightarrow> expansion option" where
  "TwoTwoDiff_checked c ax by ay bx = push_nonzero 4 (TwoTwoDiff_terms c ax by ay bx) []"

definition TwoTwoDiff :: "fmt \<Rightarrow> fl \<Rightarrow> fl \<Rightarrow> fl \<Rightarrow> fl \<Rightarrow> expansion" where
  "TwoTwoDiff c ax by ay bx = filter (\<lambda>x. \<not> is_zero x) (TwoTwoDiff_terms c ax by ay bx)"

definition TwoTwoDiffZeroCheck :: "fmt \<Rightarrow> fl \<Rightarrow> fl \<Rightarrow> fl \<Rightarrow> fl \<Rightarrow> expansion" where
  "TwoTwoDiffZeroCheck c ax by ay bx =
     (if is_zero ax \<and> is_zero ay then []
      else if is_zero ax then Mult c ay bx
      else if is_zero ay then Mult c ax by
      else TwoTwoDiff c ax by ay bx)"


text \<open>\<open>ThreeProd\<close> is defined below, after the scaling of an expansion.\<close>

section \<open>\<open>ExpansionSum\<close> and \<open>ScaleExpansion\<close>\<close>

text \<open>
  \<open>std::merge\<close> with the comparator \<open>|a| < |b|\<close>: the next element comes from the second
  range only if it compares less than the next element of the first.
\<close>

fun merge_abs :: "expansion \<Rightarrow> expansion \<Rightarrow> expansion" where
  "merge_abs [] f = f"
| "merge_abs e [] = e"
| "merge_abs (x # xs) (y # ys) =
     (if fl_less (fabs y) (fabs x) then y # merge_abs (x # xs) ys else x # merge_abs xs (y # ys))"

text \<open>A store through the output pointer \<open>h\<close>, whose array has \<open>length h\<close> elements.\<close>

definition store :: "fl list \<Rightarrow> nat \<Rightarrow> fl \<Rightarrow> fl list option" where
  "store h i v = (if i < length h then Some (h[i := v]) else None)"

definition store_range :: "fl list \<Rightarrow> fl list \<Rightarrow> fl list option" where
  "store_range h xs = (if length xs \<le> length h then Some (xs @ drop (length xs) h) else None)"

text \<open>
  The loop of \<open>ExpansionSum\<close>: \<open>k\<close> iterations are left, \<open>g\<close> is the read index,
  \<open>hIndex\<close> the write index into the same array.
\<close>

fun ExpansionSum_loop ::
  "fmt \<Rightarrow> nat \<Rightarrow> nat \<Rightarrow> fl list \<Rightarrow> nat \<Rightarrow> fl \<Rightarrow> (fl list \<times> nat \<times> fl) option" where
  "ExpansionSum_loop c 0 g h hIndex Q = Some (h, hIndex, Q)"
| "ExpansionSum_loop c (Suc k) g h hIndex Q =
     (if g < length h then
        (let Qnew = fadd c Q (h ! g);
             hh = PlusTail c Q (h ! g) Qnew
         in if \<not> is_zero hh then
              (case store h hIndex hh of
                 None \<Rightarrow> None
               | Some h' \<Rightarrow> ExpansionSum_loop c k (g + 1) h' (hIndex + 1) Qnew)
            else ExpansionSum_loop c k (g + 1) h hIndex Qnew)
      else None)"

text \<open>
  \<open>ExpansionSum(e, n, f, m, h)\<close> with \<open>n = length e\<close> and \<open>m = length f\<close>; the result is
  the array behind \<open>h\<close> afterwards and the returned count.
\<close>

definition ExpansionSum :: "fmt \<Rightarrow> expansion \<Rightarrow> expansion \<Rightarrow> fl list \<Rightarrow> (fl list \<times> nat) option" where
  "ExpansionSum c e f h =
     (case store_range h (merge_abs e f) of
        None \<Rightarrow> None
      | Some h0 \<Rightarrow>
          if length f = 0 then Some (h0, length e)
          else if length e = 0 then Some (h0, length f)
          else
            (let Q = h0 ! 0;
                 Qnew = fadd c (h0 ! 1) Q;
                 hh = FastPlusTail c (h0 ! 1) Q Qnew;
                 h1 = (if \<not> is_zero hh then h0[0 := hh] else h0);
                 hIndex = (if \<not> is_zero hh then 1 else 0)
             in case ExpansionSum_loop c (length e + length f - 2) 2 h1 hIndex Qnew of
                  None \<Rightarrow> None
                | Some (h2, hIndex2, Q2) \<Rightarrow>
                    if \<not> is_zero Q2 then
                      (case store h2 hIndex2 Q2 of
                         None \<Rightarrow> None
                       | Some h3 \<Rightarrow> Some (h3, hIndex2 + 1))
                    else Some (h2, hIndex2)))"

text \<open>
  The components that \<open>operator+\<close> returns, as a function of the components of its
  operands: the same sweep, written on lists.
\<close>

fun sum_sweep :: "fmt \<Rightarrow> fl \<Rightarrow> fl list \<Rightarrow> fl list" where
  "sum_sweep c Q [] = nonzero Q"
| "sum_sweep c Q (g # gs) =
     (let Qnew = fadd c Q g;
          hh = PlusTail c Q g Qnew
      in nonzero hh @ sum_sweep c Qnew gs)"

fun sum_first :: "fmt \<Rightarrow> fl list \<Rightarrow> fl list" where
  "sum_first c (h0 # h1 # gs) =
     (let Qnew = fadd c h1 h0;
          hh = FastPlusTail c h1 h0 Qnew
      in nonzero hh @ sum_sweep c Qnew gs)"
| "sum_first c gs = gs"

fun expansion_plus :: "fmt \<Rightarrow> expansion \<Rightarrow> expansion \<Rightarrow> expansion" where
  "expansion_plus c e [] = e"
| "expansion_plus c [] f = f"
| "expansion_plus c (x # xs) (y # ys) = sum_first c (merge_abs (x # xs) (y # ys))"

definition expansion_minus :: "fmt \<Rightarrow> expansion \<Rightarrow> expansion \<Rightarrow> expansion" where
  "expansion_minus c e f = expansion_plus c e (negate f)"

text \<open>The loop of \<open>ScaleExpansion\<close>; \<open>es\<close> are the components of \<open>e\<close> not yet read.\<close>

fun ScaleExpansion_loop ::
  "fmt \<Rightarrow> fl \<Rightarrow> fl \<times> fl \<Rightarrow> fl list \<Rightarrow> fl list \<Rightarrow> nat \<Rightarrow> fl \<Rightarrow> (fl list \<times> nat \<times> fl) option" where
  "ScaleExpansion_loop c b bSplit [] h hIndex Q = Some (h, hIndex, Q)"
| "ScaleExpansion_loop c b bSplit (ei # es) h hIndex Q =
     (let Ti = fmul c ei b;
          ti = MultTailPreSplit c ei b bSplit Ti;
          Qi = fadd c Q ti;
          hh = PlusTail c Q ti Qi
      in case (if \<not> is_zero hh then store h hIndex hh else Some h) of
           None \<Rightarrow> None
         | Some h' \<Rightarrow>
             (let hIndex' = (if \<not> is_zero hh then hIndex + 1 else hIndex);
                  Q' = fadd c Ti Qi;
                  hh' = FastPlusTail c Ti Qi Q'
              in case (if \<not> is_zero hh' then store h' hIndex' hh' else Some h') of
                   None \<Rightarrow> None
                 | Some h'' \<Rightarrow>
                     ScaleExpansion_loop c b bSplit es h''
                       (if \<not> is_zero hh' then hIndex' + 1 else hIndex') Q'))"

definition ScaleExpansion :: "fmt \<Rightarrow> expansion \<Rightarrow> fl \<Rightarrow> fl list \<Rightarrow> (fl list \<times> nat) option" where
  "ScaleExpansion c e b h =
     (case e of
        [] \<Rightarrow> Some (h, 0)
      | e0 # es \<Rightarrow>
          if is_zero b then Some (h, 0)
          else
            (let Q = fmul c e0 b;
                 bSplit = Split c b;
                 hh = MultTailPreSplit c e0 b bSplit Q
             in case (if \<not> is_zero hh then store h 0 hh else Some h) of
                  None \<Rightarrow> None
                | Some h1 \<Rightarrow>
                    (case ScaleExpansion_loop c b bSplit es h1 (if \<not> is_zero hh then 1 else 0) Q of
                       None \<Rightarrow> None
                     | Some (h2, hIndex2, Q2) \<Rightarrow>
                         if \<not> is_zero Q2 then
                           (case store h2 hIndex2 Q2 of
                              None \<Rightarrow> None
                            | Some h3 \<Rightarrow> Some (h3, hIndex2 + 1))
                         else Some (h2, hIndex2))))"

text \<open>The components that \<open>operator*\<close> returns.\<close>

fun scale_sweep :: "fmt \<Rightarrow> fl \<Rightarrow> fl \<times> fl \<Rightarrow> fl \<Rightarrow> fl list \<Rightarrow> fl list" where
  "scale_sweep c b bSplit Q [] = nonzero Q"
| "scale_sweep c b bSplit Q (ei # es) =
     (let Ti = fmul c ei b;
          ti = MultTailPreSplit c ei b bSplit Ti;
          Qi = fadd c Q ti;
          hh = PlusTail c Q ti Qi;
          Q' = fadd c Ti Qi;
          hh' = FastPlusTail c Ti Qi Q'
      in nonzero hh @ nonzero hh' @ scale_sweep c b bSplit Q' es)"

definition expansion_scale :: "fmt \<Rightarrow> expansion \<Rightarrow> fl \<Rightarrow> expansion" where
  "expansion_scale c e b =
     (case e of
        [] \<Rightarrow> []
      | e0 # es \<Rightarrow>
          if is_zero b then []
          else
            (let Q = fmul c e0 b;
                 bSplit = Split c b;
                 hh = MultTailPreSplit c e0 b bSplit Q
             in nonzero hh @ scale_sweep c b bSplit Q es))"

definition ThreeProd :: "fmt \<Rightarrow> fl \<Rightarrow> fl \<Rightarrow> fl \<Rightarrow> expansion" where
  "ThreeProd c a b cc =
     (if is_zero a \<or> is_zero b \<or> is_zero cc then [] else expansion_scale c (Mult c a b) cc)"


section \<open>The exact predicates\<close>

text \<open>
  A point is the array of two or three coordinates behind the pointer argument; the
  components of the tuple are \<open>pa[0]\<close>, \<open>pa[1]\<close> (and \<open>pa[2]\<close>).  Every arithmetic operator
  of the source is one rounded operation of \<open>T\<close>.
\<close>

type_synonym point2 = "fl \<times> fl"
type_synonym point3 = "fl \<times> fl \<times> fl"

definition exact_orient2d :: "fmt \<Rightarrow> point2 \<Rightarrow> point2 \<Rightarrow> point2 \<Rightarrow> fl" where
  "exact_orient2d c pa pb pc =
     (case pa of (pa0, pa1) \<Rightarrow>
     case pb of (pb0, pb1) \<Rightarrow>
     case pc of (pc0, pc1) \<Rightarrow>
     (let aterms = TwoTwoDiff c pa0 pb1 pa0 pc1;
          bterms = TwoTwoDiff c pb0 pc1 pb0 pa1;
          cterms = TwoTwoDiff c pc0 pa1 pc0 pb1;
          w = expansion_plus c (expansion_plus c aterms bterms) cterms
      in mostSignificant c w))"

definition exact_incircle :: "fmt \<Rightarrow> point2 \<Rightarrow> point2 \<Rightarrow> point2 \<Rightarrow> point2 \<Rightarrow> fl" where
  "exact_incircle c pa pb pc pd =
     (case pa of (pa0, pa1) \<Rightarrow>
     case pb of (pb0, pb1) \<Rightarrow>
     case pc of (pc0, pc1) \<Rightarrow>
     case pd of (pd0, pd1) \<Rightarrow>
     (let ab = TwoTwoDiff c pa0 pb1 pb0 pa1;
          bc = TwoTwoDiff c pb0 pc1 pc0 pb1;
          cd = TwoTwoDiff c pc0 pd1 pd0 pc1;
          da = TwoTwoDiff c pd0 pa1 pa0 pd1;
          ac = TwoTwoDiff c pa0 pc1 pc0 pa1;
          bd = TwoTwoDiff c pb0 pd1 pd0 pb1;
          abc = expansion_minus c (expansion_plus c ab bc) ac;
          bcd = expansion_minus c (expansion_plus c bc cd) bd;
          cda = expansion_plus c (expansion_plus c cd da) ac;
          dab = expansion_plus c (expansion_plus c da ab) bd;
          adet = expansion_plus c
                  (expansion_scale c (expansion_scale c bcd pa0) pa0)
                  (expansion_scale c (expansion_scale c bcd pa1) pa1);
          bdet = expansion_plus c
                  (expansion_scale c (expansion_scale c cda pb0) (fneg pb0))
                  (expansion_scale c (expansion_scale c cda pb1) (fneg pb1));
          cdet = expansion_plus c
                  (expansion_scale c (expansion_scale c dab pc0) pc0)
                  (expansion_scale c (expansion_scale c dab pc1) pc1);
          ddet = expansion_plus c
                  (expansion_scale c (expansion_scale c abc pd0) (fneg pd0))
                  (expansion_scale c (expansion_scale c abc pd1) (fneg pd1));
          deter = expansion_plus c (expansion_plus c adet bdet) (expansion_plus c cdet ddet)
      in mostSignificant c deter))"

definition exact_orient3d :: "fmt \<Rightarrow> point3 \<Rightarrow> point3 \<Rightarrow> point3 \<Rightarrow> point3 \<Rightarrow> fl" where
  "exact_orient3d c pa pb pc pd =
     (case pa of (pa0, pa1, pa2) \<Rightarrow>
     case pb of (pb0, pb1, pb2) \<Rightarrow>
     case pc of (pc0, pc1, pc2) \<Rightarrow>
     case pd of (pd0, pd1, pd2) \<Rightarrow>
     (let ab = TwoTwoDiff c pa0 pb1 pb0 pa1;
          bc = TwoTwoDiff c pb0 pc1 pc0 pb1;
          cd = TwoTwoDiff c pc0 pd1 pd0 pc1;
          da = TwoTwoDiff c pd0 pa1 pa0 pd1;
          ac = TwoTwoDiff c pa0 pc1 pc0 pa1;
          bd = TwoTwoDiff c pb0 pd1 pd0 pb1;
          abc = expansion_minus c (expansion_plus c ab bc) ac;
          bcd = expansion_minus c (expansion_plus c bc cd) bd;
          cda = expansion_plus c (expansion_plus c cd da) ac;
          dab = expansion_plus c (expansion_plus c da ab) bd;
          adet = expansion_scale c bcd pa2;
          bdet = expansion_scale c cda (fneg pb2);
          cdet = expansion_scale c dab pc2;
          ddet = expansion_scale c abc (fneg pd2);
          deter = expansion_plus c (expansion_plus c adet bdet) (expansion_plus c cdet ddet)
      in mostSignificant c deter))"

definition exact_insphere :: "fmt \<Rightarrow> point3 \<Rightarrow> point3 \<Rightarrow> point3 \<Rightarrow> point3 \<Rightarrow> point3 \<Rightarrow> fl" where
  "exact_insphere c pa pb pc pd pe =
     (case pa of (pa0, pa1, pa2) \<Rightarrow>
     case pb of (pb0, pb1, pb2) \<Rightarrow>
     case pc of (pc0, pc1, pc2) \<Rightarrow>
     case pd of (pd0, pd1, pd2) \<Rightarrow>
     case pe of (pe0, pe1, pe2) \<Rightarrow>
     (let ab = TwoTwoDiff c pa0 pb1 pb0 pa1;
          bc = TwoTwoDiff c pb0 pc1 pc0 pb1;
          cd = TwoTwoDiff c pc0 pd1 pd0 pc1;
          de = TwoTwoDiff c pd0 pe1 pe0 pd1;
          ea = TwoTwoDiff c pe0 pa1 pa0 pe1;
          ac = TwoTwoDiff c pa0 pc1 pc0 pa1;
          bd = TwoTwoDiff c pb0 pd1 pd0 pb1;
          ce = TwoTwoDiff c pc0 pe1 pe0 pc1;
          da = TwoTwoDiff c pd0 pa1 pa0 pd1;
          eb = TwoTwoDiff c pe0 pb1 pb0 pe1;
          abc = expansion_plus c
                 (expansion_plus c (expansion_scale c bc pa2) (expansion_scale c ac (fneg pb2)))
                 (expansion_scale c ab pc2);
          bcd = expansion_plus c
                 (expansion_plus c (expansion_scale c cd pb2) (expansion_scale c bd (fneg pc2)))
                 (expansion_scale c bc pd2);
          cde = expansion_plus c
                 (expansion_plus c (expansion_scale c de pc2) (expansion_scale c ce (fneg pd2)))
                 (expansion_scale c cd pe2);
          dea = expansion_plus c
                 (expansion_plus c (expansion_scale c ea pd2) (expansion_scale c da (fneg pe2)))
                 (expansion_scale c de pa2);
          eab = expansion_plus c
                 (expansion_plus c (expansion_scale c ab pe2) (expansion_scale c eb (fneg pa2)))
                 (expansion_scale c ea pb2);
          abd = expansion_plus c
                 (expansion_plus c (expansion_scale c bd pa2) (expansion_scale c da pb2))
                 (expansion_scale c ab pd2);
          bce = expansion_plus c
                 (expansion_plus c (expansion_scale c ce pb2) (expansion_scale c eb pc2))
                 (expansion_scale c bc pe2);
          cda = expansion_plus c
                 (expansion_plus c (expansion_scale c da pc2) (expansion_scale c ac pd2))
                 (expansion_scale c cd pa2);
          deb = expansion_plus c
                 (expansion_plus c (expansion_scale c eb pd2) (expansion_scale c bd pe2))
                 (expansion_scale c de pb2);
          eac = expansion_plus c
                 (expansion_plus c (expansion_scale c ac pe2) (expansion_scale c ce pa2))
                 (expansion_scale c ea pc2);
          bcde = expansion_minus c (expansion_plus c cde bce) (expansion_plus c deb bcd);
          cdea = expansion_minus c (expansion_plus c dea cda) (expansion_plus c eac cde);
          deab = expansion_minus c (expansion_plus c eab deb) (expansion_plus c abd dea);
          eabc = expansion_minus c (expansion_plus c abc eac) (expansion_plus c bce eab);
          abcd = expansion_minus c (expansion_plus c bcd abd) (expansion_plus c cda abc);
          adet = expansion_plus c
                  (expansion_plus c
                     (expansion_scale c (expansion_scale c bcde pa0) pa0)
                     (expansion_scale c (expansion_scale c bcde pa1) pa1))
                  (expansion_scale c (expansion_scale c bcde pa2) pa2);
          bdet = expansion_plus c
                  (expansion_plus c
                     (expansion_scale c (expansion_scale c cdea pb0) pb0)
                     (expansion_scale c (expansion_scale c cdea pb1) pb1))
                  (expansion_scale c (expansion_scale c cdea pb2) pb2);
          cdet = expansion_plus c
                  (expansion_plus c
                     (expansion_scale c (expansion_scale c deab pc0) pc0)
                     (expansion_scale c (expansion_scale c deab pc1) pc1))
                  (expansion_scale c (expansion_scale c deab pc2) pc2);
          ddet = expansion_plus c
                  (expansion_plus c
                     (expansion_scale c (expansion_scale c eabc pd0) pd0)
                     (expansion_scale c (expansion_scale c eabc pd1) pd1))
                  (expansion_scale c (expansion_scale c eabc pd2) pd2);
          edet = expansion_plus c
                  (expansion_plus c
                     (expansion_scale c (expansion_scale c abcd pe0) pe0)
                     (expansion_scale c (expansion_scale c abcd pe1) pe1))
                  (expansion_scale c (expansion_scale c abcd pe2) pe2);
          deter = expansion_plus c
                   (expansion_plus c adet bdet)
                   (expansion_plus c (expansion_plus c cdet ddet) edet)
      in mostSignificant c deter))"

section \<open>The error bounds\<close>

definition epsilon :: "fmt \<Rightarrow> fl" where
  "epsilon c = exp2_fl c (- digits c)"

text \<open>\<open>(T(a) + T(b) * epsilon) * epsilon\<close> and the same times \<open>epsilon\<close> once more.\<close>

definition errbound1 :: "fmt \<Rightarrow> int \<Rightarrow> int \<Rightarrow> fl" where
  "errbound1 c a b =
     fmul c (fadd c (of_int_fl c a) (fmul c (of_int_fl c b) (epsilon c))) (epsilon c)"

definition errbound2 :: "fmt \<Rightarrow> int \<Rightarrow> int \<Rightarrow> fl" where
  "errbound2 c a b = fmul c (errbound1 c a b) (epsilon c)"

definition resulterrbound :: "fmt \<Rightarrow> fl" where "resulterrbound c = errbound1 c 3 8"
definition ccwerrboundA :: "fmt \<Rightarrow> fl" where "ccwerrboundA c = errbound1 c 3 16"
definition ccwerrboundB :: "fmt \<Rightarrow> fl" where "ccwerrboundB c = errbound1 c 2 12"
definition ccwerrboundC :: "fmt \<Rightarrow> fl" where "ccwerrboundC c = errbound2 c 9 64"
definition o3derrboundA :: "fmt \<Rightarrow> fl" where "o3derrboundA c = errbound1 c 7 56"
definition o3derrboundB :: "fmt \<Rightarrow> fl" where "o3derrboundB c = errbound1 c 3 28"
definition o3derrboundC :: "fmt \<Rightarrow> fl" where "o3derrboundC c = errbound2 c 26 288"
definition iccerrboundA :: "fmt \<Rightarrow> fl" where "iccerrboundA c = errbound1 c 10 96"
definition iccerrboundB :: "fmt \<Rightarrow> fl" where "iccerrboundB c = errbound1 c 4 48"
definition iccerrboundC :: "fmt \<Rightarrow> fl" where "iccerrboundC c = errbound2 c 44 576"
definition isperrboundA :: "fmt \<Rightarrow> fl" where "isperrboundA c = errbound1 c 16 224"
definition isperrboundB :: "fmt \<Rightarrow> fl" where "isperrboundB c = errbound1 c 5 72"
definition isperrboundC :: "fmt \<Rightarrow> fl" where "isperrboundC c = errbound2 c 71 1408"

text \<open>\<open>std::abs(det) >= std::abs(errbound)\<close>.\<close>

definition certified :: "fl \<Rightarrow> fl \<Rightarrow> bool" where
  "certified det errbound \<longleftrightarrow> fl_ge (fabs det) (fabs errbound)"


section \<open>The adaptive predicates\<close>

text \<open>
  Each adaptive predicate is given with the \<open>return\<close> statement it leaves through:
  the sign test at the top of \<open>orient2d\<close>, one of the three error-bound tests, the test
  that all tails are zero, or the last statement.  The predicate itself is the second
  component.
\<close>

datatype exit_stage = SignTest | StageA | StageB | TailsZero | StageC | Final

definition adaptive_orient2d_at :: "fmt \<Rightarrow> point2 \<Rightarrow> point2 \<Rightarrow> point2 \<Rightarrow> exit_stage \<times> fl" where
  "adaptive_orient2d_at c pa pb pc =
     (case pa of (pa0, pa1) \<Rightarrow>
     case pb of (pb0, pb1) \<Rightarrow>
     case pc of (pc0, pc1) \<Rightarrow>
     (let acx = fsub c pa0 pc0;
          bcx = fsub c pb0 pc0;
          acy = fsub c pa1 pc1;
          bcy = fsub c pb1 pc1;
          detleft = fmul c acx bcy;
          detright = fmul c acy bcx;
          det = fsub c detleft detright
      in if signbit detleft \<noteq> signbit detright then (SignTest, det)
         else
      if is_zero detleft \<or> is_zero detright then (SignTest, det)
         else
     (let detsum = fabs (fadd c detleft detright);
          errbound = fmul c (ccwerrboundA c) detsum
      in if certified det errbound then (StageA, det)
         else
     (let B = TwoTwoDiff c acx bcy acy bcx;
          det = estimate c B;
          errbound = fmul c (ccwerrboundB c) detsum
      in if certified det errbound then (StageB, det)
         else
     (let acxtail = MinusTail c pa0 pc0 acx;
          bcxtail = MinusTail c pb0 pc0 bcx;
          acytail = MinusTail c pa1 pc1 acy;
          bcytail = MinusTail c pb1 pc1 bcy
      in if is_zero acxtail \<and> is_zero bcxtail \<and> is_zero acytail \<and> is_zero bcytail then (TailsZero, det)
         else
     (let errbound = fadd c (fmul c (ccwerrboundC c) detsum) (fmul c (resulterrbound c) (fabs det));
          det = fadd c det
                 (fsub c
                    (fadd c (fmul c acx bcytail) (fmul c bcy acxtail))
                    (fadd c (fmul c acy bcxtail) (fmul c bcx acytail)))
      in if certified det errbound then (StageC, det)
         else
     (let D = expansion_plus c
               (expansion_plus c
                  (expansion_plus c B (TwoTwoDiff c acxtail bcy acytail bcx))
                  (TwoTwoDiff c acx bcytail acy bcxtail))
               (TwoTwoDiff c acxtail bcytail acytail bcxtail)
      in (Final, mostSignificant c D))))))))"

definition adaptive_orient2d :: "fmt \<Rightarrow> point2 \<Rightarrow> point2 \<Rightarrow> point2 \<Rightarrow> fl" where
  "adaptive_orient2d c pa pb pc = snd (adaptive_orient2d_at c pa pb pc)"

definition adaptive_incircle_at :: "fmt \<Rightarrow> point2 \<Rightarrow> point2 \<Rightarrow> point2 \<Rightarrow> point2 \<Rightarrow> exit_stage \<times> fl" where
  "adaptive_incircle_at c pa pb pc pd =
     (case pa of (pa0, pa1) \<Rightarrow>
     case pb of (pb0, pb1) \<Rightarrow>
     case pc of (pc0, pc1) \<Rightarrow>
     case pd of (pd0, pd1) \<Rightarrow>
     (let adx = fsub c pa0 pd0;
          bdx = fsub c pb0 pd0;
          cdx = fsub c pc0 pd0;
          ady = fsub c pa1 pd1;
          bdy = fsub c pb1 pd1;
          cdy = fsub c pc1 pd1;
          bdxcdy = fmul c bdx cdy;
          cdxbdy = fmul c cdx bdy;
          cdxady = fmul c cdx ady;
          adxcdy = fmul c adx cdy;
          adxbdy = fmul c adx bdy;
          bdxady = fmul c bdx ady;
          alift = fadd c (fmul c adx adx) (fmul c ady ady);
          blift = fadd c (fmul c bdx bdx) (fmul c bdy bdy);
          clift = fadd c (fmul c cdx cdx) (fmul c cdy cdy);
          det = fadd c
                 (fadd c (fmul c alift (fsub c bdxcdy cdxbdy)) (fmul c blift (fsub c cdxady adxcdy)))
                 (fmul c clift (fsub c adxbdy bdxady));
          permanent = fadd c
                       (fadd c
                          (fmul c (fadd c (fabs bdxcdy) (fabs cdxbdy)) alift)
                          (fmul c (fadd c (fabs cdxady) (fabs adxcdy)) blift))
                       (fmul c (fadd c (fabs adxbdy) (fabs bdxady)) clift);
          errbound = fmul c (iccerrboundA c) permanent
      in if certified det errbound then (StageA, det)
         else
     (let bc = TwoTwoDiff c bdx cdy cdx bdy;
          ca = TwoTwoDiff c cdx ady adx cdy;
          ab = TwoTwoDiff c adx bdy bdx ady;
          adet = expansion_plus c
                  (expansion_scale c (expansion_scale c bc adx) adx)
                  (expansion_scale c (expansion_scale c bc ady) ady);
          bdet = expansion_plus c
                  (expansion_scale c (expansion_scale c ca bdx) bdx)
                  (expansion_scale c (expansion_scale c ca bdy) bdy);
          cdet = expansion_plus c
                  (expansion_scale c (expansion_scale c ab cdx) cdx)
                  (expansion_scale c (expansion_scale c ab cdy) cdy);
          fin1 = expansion_plus c (expansion_plus c adet bdet) cdet;
          det = estimate c fin1;
          errbound = fmul c (iccerrboundB c) permanent
      in if certified det errbound then (StageB, det)
         else
     (let adxtail = MinusTail c pa0 pd0 adx;
          adytail = MinusTail c pa1 pd1 ady;
          bdxtail = MinusTail c pb0 pd0 bdx;
          bdytail = MinusTail c pb1 pd1 bdy;
          cdxtail = MinusTail c pc0 pd0 cdx;
          cdytail = MinusTail c pc1 pd1 cdy
      in if is_zero adxtail \<and> is_zero bdxtail \<and> is_zero cdxtail \<and> is_zero adytail \<and> is_zero bdytail \<and> is_zero cdytail then (TailsZero, det)
         else
     (let errbound = fadd c
                      (fmul c (iccerrboundC c) permanent)
                      (fmul c (resulterrbound c) (fabs det));
          det = fadd c det
                 (fadd c
                    (fadd c
                       (fadd c
                          (fmul c
                             (fadd c (fmul c adx adx) (fmul c ady ady))
                             (fsub c
                                (fadd c (fmul c bdx cdytail) (fmul c cdy bdxtail))
                                (fadd c (fmul c bdy cdxtail) (fmul c cdx bdytail))))
                          (fmul c
                             (fmul c
                                (fsub c (fmul c bdx cdy) (fmul c bdy cdx))
                                (fadd c (fmul c adx adxtail) (fmul c ady adytail)))
                             (of_int_fl c 2)))
                       (fadd c
                          (fmul c
                             (fadd c (fmul c bdx bdx) (fmul c bdy bdy))
                             (fsub c
                                (fadd c (fmul c cdx adytail) (fmul c ady cdxtail))
                                (fadd c (fmul c cdy adxtail) (fmul c adx cdytail))))
                          (fmul c
                             (fmul c
                                (fsub c (fmul c cdx ady) (fmul c cdy adx))
                                (fadd c (fmul c bdx bdxtail) (fmul c bdy bdytail)))
                             (of_int_fl c 2))))
                    (fadd c
                       (fmul c
                          (fadd c (fmul c cdx cdx) (fmul c cdy cdy))
                          (fsub c
                             (fadd c (fmul c adx bdytail) (fmul c bdy adxtail))
                             (fadd c (fmul c ady bdxtail) (fmul c bdx adytail))))
                       (fmul c
                          (fmul c
                             (fsub c (fmul c adx bdy) (fmul c ady bdx))
                             (fadd c (fmul c cdx cdxtail) (fmul c cdy cdytail)))
                          (of_int_fl c 2))))
      in if certified det errbound then (StageC, det)
         else
      (Final, exact_incircle c pa pb pc pd))))))"

definition adaptive_incircle :: "fmt \<Rightarrow> point2 \<Rightarrow> point2 \<Rightarrow> point2 \<Rightarrow> point2 \<Rightarrow> fl" where
  "adaptive_incircle c pa pb pc pd = snd (adaptive_incircle_at c pa pb pc pd)"

definition adaptive_orient3d_at :: "fmt \<Rightarrow> point3 \<Rightarrow> point3 \<Rightarrow> point3 \<Rightarrow> point3 \<Rightarrow> exit_stage \<times> fl" where
  "adaptive_orient3d_at c pa pb pc pd =
     (case pa of (pa0, pa1, pa2) \<Rightarrow>
     case pb of (pb0, pb1, pb2) \<Rightarrow>
     case pc of (pc0, pc1, pc2) \<Rightarrow>
     case pd of (pd0, pd1, pd2) \<Rightarrow>
     (let adx = fsub c pa0 pd0;
          bdx = fsub c pb0 pd0;
          cdx = fsub c pc0 pd0;
          ady = fsub c pa1 pd1;
          bdy = fsub c pb1 pd1;
          cdy = fsub c pc1 pd1;
          adz = fsub c pa2 pd2;
          bdz = fsub c pb2 pd2;
          cdz = fsub c pc2 pd2;
          bdxcdy = fmul c bdx cdy;
          cdxbdy = fmul c cdx bdy;
          cdxady = fmul c cdx ady;
          adxcdy = fmul c adx cdy;
          adxbdy = fmul c adx bdy;
          bdxady = fmul c bdx ady;
          det = fadd c
                 (fadd c (fmul c adz (fsub c bdxcdy cdxbdy)) (fmul c bdz (fsub c cdxady adxcdy)))
                 (fmul c cdz (fsub c adxbdy bdxady));
          permanent = fadd c
                       (fadd c
                          (fmul c (fadd c (fabs bdxcdy) (fabs cdxbdy)) (fabs adz))
                          (fmul c (fadd c (fabs cdxady) (fabs adxcdy)) (fabs bdz)))
                       (fmul c (fadd c (fabs adxbdy) (fabs bdxady)) (fabs cdz));
          errbound = fmul c (o3derrboundA c) permanent
      in if certified det errbound then (StageA, det)
         else
     (let bc = TwoTwoDiff c bdx cdy cdx bdy;
          ca = TwoTwoDiff c cdx ady adx cdy;
          ab = TwoTwoDiff c adx bdy bdx ady;
          fin1 = expansion_plus c
                  (expansion_plus c (expansion_scale c bc adz) (expansion_scale c ca bdz))
                  (expansion_scale c ab cdz);
          det = estimate c fin1;
          errbound = fmul c (o3derrboundB c) permanent
      in if certified det errbound then (StageB, det)
         else
     (let adxtail = MinusTail c pa0 pd0 adx;
          bdxtail = MinusTail c pb0 pd0 bdx;
          cdxtail = MinusTail c pc0 pd0 cdx;
          adytail = MinusTail c pa1 pd1 ady;
          bdytail = MinusTail c pb1 pd1 bdy;
          cdytail = MinusTail c pc1 pd1 cdy;
          adztail = MinusTail c pa2 pd2 adz;
          bdztail = MinusTail c pb2 pd2 bdz;
          cdztail = MinusTail c pc2 pd2 cdz
      in if is_zero adxtail \<and> is_zero adytail \<and> is_zero adztail \<and> is_zero bdxtail \<and> is_zero bdytail \<and> is_zero bdztail \<and> is_zero cdxtail \<and> is_zero cdytail \<and> is_zero cdztail then (TailsZero, det)
         else
     (let errbound = fadd c
                      (fmul c (o3derrboundC c) permanent)
                      (fmul c (resulterrbound c) (fabs det));
          det = fadd c det
                 (fadd c
                    (fadd c
                       (fadd c
                          (fmul c adz
                             (fsub c
                                (fadd c (fmul c bdx cdytail) (fmul c cdy bdxtail))
                                (fadd c (fmul c bdy cdxtail) (fmul c cdx bdytail))))
                          (fmul c adztail (fsub c (fmul c bdx cdy) (fmul c bdy cdx))))
                       (fadd c
                          (fmul c bdz
                             (fsub c
                                (fadd c (fmul c cdx adytail) (fmul c ady cdxtail))
                                (fadd c (fmul c cdy adxtail) (fmul c adx cdytail))))
                          (fmul c bdztail (fsub c (fmul c cdx ady) (fmul c cdy adx)))))
                    (fadd c
                       (fmul c cdz
                          (fsub c
                             (fadd c (fmul c adx bdytail) (fmul c bdy adxtail))
                             (fadd c (fmul c ady bdxtail) (fmul c bdx adytail))))
                       (fmul c cdztail (fsub c (fmul c adx bdy) (fmul c ady bdx)))))
      in if certified det errbound then (StageC, det)
         else
     (let bct = expansion_plus c
                 (TwoTwoDiffZeroCheck c bdxtail cdy bdytail cdx)
                 (TwoTwoDiffZeroCheck c cdytail bdx cdxtail bdy);
          cat = expansion_plus c
                 (TwoTwoDiffZeroCheck c cdxtail ady cdytail adx)
                 (TwoTwoDiffZeroCheck c adytail cdx adxtail cdy);
          abt = expansion_plus c
                 (TwoTwoDiffZeroCheck c adxtail bdy adytail bdx)
                 (TwoTwoDiffZeroCheck c bdytail adx bdxtail ady);
          fin2 = expansion_plus c
                  (expansion_plus c
                     (expansion_plus c
                        (expansion_plus c
                           (expansion_plus c
                              (expansion_plus c
                                 (expansion_plus c
                                    (expansion_plus c
                                       (expansion_plus c
                                          (expansion_plus c
                                             (expansion_plus c
                                                (expansion_plus c
                                                   (expansion_plus c
                                                      (expansion_plus c
                                                         (expansion_plus c
                                                            (expansion_plus c
                                                               (expansion_plus c
                                                                  (expansion_plus c
                                                                     (expansion_plus c
                                                                        (expansion_plus c
                                                                           (expansion_plus c fin1
                                                                              (expansion_scale c bct adz))
                                                                           (expansion_scale c cat bdz))
                                                                        (expansion_scale c abt cdz))
                                                                     (expansion_scale c bc adztail))
                                                                  (expansion_scale c ca bdztail))
                                                               (expansion_scale c ab cdztail))
                                                            (ThreeProd c adxtail bdytail cdz))
                                                         (ThreeProd c adxtail bdytail cdztail))
                                                      (ThreeProd c (fneg adxtail) cdytail bdz))
                                                   (ThreeProd c (fneg adxtail) cdytail bdztail))
                                                (ThreeProd c bdxtail cdytail adz))
                                             (ThreeProd c bdxtail cdytail adztail))
                                          (ThreeProd c (fneg bdxtail) adytail cdz))
                                       (ThreeProd c (fneg bdxtail) adytail cdztail))
                                    (ThreeProd c cdxtail adytail bdz))
                                 (ThreeProd c cdxtail adytail bdztail))
                              (ThreeProd c (fneg cdxtail) bdytail adz))
                           (ThreeProd c (fneg cdxtail) bdytail adztail))
                        (expansion_scale c bct adztail))
                     (expansion_scale c cat bdztail))
                  (expansion_scale c abt cdztail)
      in (Final, mostSignificant c fin2)))))))"

definition adaptive_orient3d :: "fmt \<Rightarrow> point3 \<Rightarrow> point3 \<Rightarrow> point3 \<Rightarrow> point3 \<Rightarrow> fl" where
  "adaptive_orient3d c pa pb pc pd = snd (adaptive_orient3d_at c pa pb pc pd)"

definition adaptive_insphere_at :: "fmt \<Rightarrow> point3 \<Rightarrow> point3 \<Rightarrow> point3 \<Rightarrow> point3 \<Rightarrow> point3 \<Rightarrow> exit_stage \<times> fl" where
  "adaptive_insphere_at c pa pb pc pd pe =
     (case pa of (pa0, pa1, pa2) \<Rightarrow>
     case pb of (pb0, pb1, pb2) \<Rightarrow>
     case pc of (pc0, pc1, pc2) \<Rightarrow>
     case pd of (pd0, pd1, pd2) \<Rightarrow>
     case pe of (pe0, pe1, pe2) \<Rightarrow>
     (let aex = fsub c pa0 pe0;
          bex = fsub c pb0 pe0;
          cex = fsub c pc0 pe0;
          dex = fsub c pd0 pe0;
          aey = fsub c pa1 pe1;
          bey = fsub c pb1 pe1;
          cey = fsub c pc1 pe1;
          dey = fsub c pd1 pe1;
          aez = fsub c pa2 pe2;
          bez = fsub c pb2 pe2;
          cez = fsub c pc2 pe2;
          dez = fsub c pd2 pe2;
          aexbey = fmul c aex bey;
          bexaey = fmul c bex aey;
          bexcey = fmul c bex cey;
          cexbey = fmul c cex bey;
          cexdey = fmul c cex dey;
          dexcey = fmul c dex cey;
          dexaey = fmul c dex aey;
          aexdey = fmul c aex dey;
          aexcey = fmul c aex cey;
          cexaey = fmul c cex aey;
          bexdey = fmul c bex dey;
          dexbey = fmul c dex bey;
          ab = fsub c aexbey bexaey;
          bc = fsub c bexcey cexbey;
          cd = fsub c cexdey dexcey;
          da = fsub c dexaey aexdey;
          ac = fsub c aexcey cexaey;
          bd = fsub c bexdey dexbey;
          abc = fadd c (fsub c (fmul c aez bc) (fmul c bez ac)) (fmul c cez ab);
          bcd = fadd c (fsub c (fmul c bez cd) (fmul c cez bd)) (fmul c dez bc);
          cda = fadd c (fadd c (fmul c cez da) (fmul c dez ac)) (fmul c aez cd);
          dab = fadd c (fadd c (fmul c dez ab) (fmul c aez bd)) (fmul c bez da);
          alift = fadd c (fadd c (fmul c aex aex) (fmul c aey aey)) (fmul c aez aez);
          blift = fadd c (fadd c (fmul c bex bex) (fmul c bey bey)) (fmul c bez bez);
          clift = fadd c (fadd c (fmul c cex cex) (fmul c cey cey)) (fmul c cez cez);
          dlift = fadd c (fadd c (fmul c dex dex) (fmul c dey dey)) (fmul c dez dez);
          det = fadd c
                 (fsub c (fmul c dlift abc) (fmul c clift dab))
                 (fsub c (fmul c blift cda) (fmul c alift bcd));
          aezplus = fabs aez;
          bezplus = fabs bez;
          cezplus = fabs cez;
          dezplus = fabs dez;
          aexbeyplus = fabs aexbey;
          bexaeyplus = fabs bexaey;
          bexceyplus = fabs bexcey;
          cexbeyplus = fabs cexbey;
          cexdeyplus = fabs cexdey;
          dexceyplus = fabs dexcey;
          dexaeyplus = fabs dexaey;
          aexdeyplus = fabs aexdey;
          aexceyplus = fabs aexcey;
          cexaeyplus = fabs cexaey;
          bexdeyplus = fabs bexdey;
          dexbeyplus = fabs dexbey;
          permanent = fadd c
                       (fadd c
                          (fadd c
                             (fmul c
                                (fadd c
                                   (fadd c
                                      (fmul c (fadd c cexdeyplus dexceyplus) bezplus)
                                      (fmul c (fadd c dexbeyplus bexdeyplus) cezplus))
                                   (fmul c (fadd c bexceyplus cexbeyplus) dezplus))
                                alift)
                             (fmul c
                                (fadd c
                                   (fadd c
                                      (fmul c (fadd c dexaeyplus aexdeyplus) cezplus)
                                      (fmul c (fadd c aexceyplus cexaeyplus) dezplus))
                                   (fmul c (fadd c cexdeyplus dexceyplus) aezplus))
                                blift))
                          (fmul c
                             (fadd c
                                (fadd c
                                   (fmul c (fadd c aexbeyplus bexaeyplus) dezplus)
                                   (fmul c (fadd c bexdeyplus dexbeyplus) aezplus))
                                (fmul c (fadd c dexaeyplus aexdeyplus) bezplus))
                             clift))
                       (fmul c
                          (fadd c
                             (fadd c
                                (fmul c (fadd c bexceyplus cexbeyplus) aezplus)
                                (fmul c (fadd c cexaeyplus aexceyplus) bezplus))
                             (fmul c (fadd c aexbeyplus bexaeyplus) cezplus))
                          dlift);
          errbound = fmul c (isperrboundA c) permanent
      in if certified det errbound then (StageA, det)
         else
     (let ab = TwoTwoDiff c aex bey bex aey;
          bc = TwoTwoDiff c bex cey cex bey;
          cd = TwoTwoDiff c cex dey dex cey;
          da = TwoTwoDiff c dex aey aex dey;
          ac = TwoTwoDiff c aex cey cex aey;
          bd = TwoTwoDiff c bex dey dex bey;
          temp24a = expansion_plus c
                     (expansion_scale c bc dez)
                     (expansion_plus c (expansion_scale c cd bez) (expansion_scale c bd (fneg cez)));
          temp24b = expansion_plus c
                     (expansion_scale c cd aez)
                     (expansion_plus c (expansion_scale c da cez) (expansion_scale c ac dez));
          temp24c = expansion_plus c
                     (expansion_scale c da bez)
                     (expansion_plus c (expansion_scale c ab dez) (expansion_scale c bd aez));
          temp24d = expansion_plus c
                     (expansion_scale c ab cez)
                     (expansion_plus c (expansion_scale c bc aez) (expansion_scale c ac (fneg bez)));
          adet = expansion_plus c
                  (expansion_plus c
                     (expansion_scale c (expansion_scale c temp24a aex) (fneg aex))
                     (expansion_scale c (expansion_scale c temp24a aey) (fneg aey)))
                  (expansion_scale c (expansion_scale c temp24a aez) (fneg aez));
          bdet = expansion_plus c
                  (expansion_plus c
                     (expansion_scale c (expansion_scale c temp24b bex) bex)
                     (expansion_scale c (expansion_scale c temp24b bey) bey))
                  (expansion_scale c (expansion_scale c temp24b bez) bez);
          cdet = expansion_plus c
                  (expansion_plus c
                     (expansion_scale c (expansion_scale c temp24c cex) (fneg cex))
                     (expansion_scale c (expansion_scale c temp24c cey) (fneg cey)))
                  (expansion_scale c (expansion_scale c temp24c cez) (fneg cez));
          ddet = expansion_plus c
                  (expansion_plus c
                     (expansion_scale c (expansion_scale c temp24d dex) dex)
                     (expansion_scale c (expansion_scale c temp24d dey) dey))
                  (expansion_scale c (expansion_scale c temp24d dez) dez);
          fin1 = expansion_plus c (expansion_plus c adet bdet) (expansion_plus c cdet ddet);
          det = estimate c fin1;
          errbound = fmul c (isperrboundB c) permanent
      in if certified det errbound then (StageB, det)
         else
     (let aextail = MinusTail c pa0 pe0 aex;
          aeytail = MinusTail c pa1 pe1 aey;
          aeztail = MinusTail c pa2 pe2 aez;
          bextail = MinusTail c pb0 pe0 bex;
          beytail = MinusTail c pb1 pe1 bey;
          beztail = MinusTail c pb2 pe2 bez;
          cextail = MinusTail c pc0 pe0 cex;
          ceytail = MinusTail c pc1 pe1 cey;
          ceztail = MinusTail c pc2 pe2 cez;
          dextail = MinusTail c pd0 pe0 dex;
          deytail = MinusTail c pd1 pe1 dey;
          deztail = MinusTail c pd2 pe2 dez
      in if is_zero aextail \<and> is_zero aeytail \<and> is_zero aeztail \<and> is_zero bextail \<and> is_zero beytail \<and> is_zero beztail \<and> is_zero cextail \<and> is_zero ceytail \<and> is_zero ceztail \<and> is_zero dextail \<and> is_zero deytail \<and> is_zero deztail then (TailsZero, det)
         else
     (let errbound = fadd c
                      (fmul c (isperrboundC c) permanent)
                      (fmul c (resulterrbound c) (fabs det));
          abeps = fsub c
                   (fadd c (fmul c aex beytail) (fmul c bey aextail))
                   (fadd c (fmul c aey bextail) (fmul c bex aeytail));
          bceps = fsub c
                   (fadd c (fmul c bex ceytail) (fmul c cey bextail))
                   (fadd c (fmul c bey cextail) (fmul c cex beytail));
          cdeps = fsub c
                   (fadd c (fmul c cex deytail) (fmul c dey cextail))
                   (fadd c (fmul c cey dextail) (fmul c dex ceytail));
          daeps = fsub c
                   (fadd c (fmul c dex aeytail) (fmul c aey dextail))
                   (fadd c (fmul c dey aextail) (fmul c aex deytail));
          aceps = fsub c
                   (fadd c (fmul c aex ceytail) (fmul c cey aextail))
                   (fadd c (fmul c aey cextail) (fmul c cex aeytail));
          bdeps = fsub c
                   (fadd c (fmul c bex deytail) (fmul c dey bextail))
                   (fadd c (fmul c bey dextail) (fmul c dex beytail));
          ab3 = mostSignificant c ab;
          bc3 = mostSignificant c bc;
          cd3 = mostSignificant c cd;
          da3 = mostSignificant c da;
          ac3 = mostSignificant c ac;
          bd3 = mostSignificant c bd;
          det = fadd c det
                 (fadd c
                    (fsub c
                       (fadd c
                          (fmul c
                             (fadd c (fadd c (fmul c bex bex) (fmul c bey bey)) (fmul c bez bez))
                             (fadd c
                                (fadd c
                                   (fadd c (fmul c cez daeps) (fmul c dez aceps))
                                   (fmul c aez cdeps))
                                (fadd c
                                   (fadd c (fmul c ceztail da3) (fmul c deztail ac3))
                                   (fmul c aeztail cd3))))
                          (fmul c
                             (fadd c (fadd c (fmul c dex dex) (fmul c dey dey)) (fmul c dez dez))
                             (fadd c
                                (fadd c
                                   (fsub c (fmul c aez bceps) (fmul c bez aceps))
                                   (fmul c cez abeps))
                                (fadd c
                                   (fsub c (fmul c aeztail bc3) (fmul c beztail ac3))
                                   (fmul c ceztail ab3)))))
                       (fadd c
                          (fmul c
                             (fadd c (fadd c (fmul c aex aex) (fmul c aey aey)) (fmul c aez aez))
                             (fadd c
                                (fadd c
                                   (fsub c (fmul c bez cdeps) (fmul c cez bdeps))
                                   (fmul c dez bceps))
                                (fadd c
                                   (fsub c (fmul c beztail cd3) (fmul c ceztail bd3))
                                   (fmul c deztail bc3))))
                          (fmul c
                             (fadd c (fadd c (fmul c cex cex) (fmul c cey cey)) (fmul c cez cez))
                             (fadd c
                                (fadd c
                                   (fadd c (fmul c dez abeps) (fmul c aez bdeps))
                                   (fmul c bez daeps))
                                (fadd c
                                   (fadd c (fmul c deztail ab3) (fmul c aeztail bd3))
                                   (fmul c beztail da3))))))
                    (fmul c
                       (of_int_fl c 2)
                       (fsub c
                          (fadd c
                             (fmul c
                                (fadd c
                                   (fadd c (fmul c bex bextail) (fmul c bey beytail))
                                   (fmul c bez beztail))
                                (fadd c (fadd c (fmul c cez da3) (fmul c dez ac3)) (fmul c aez cd3)))
                             (fmul c
                                (fadd c
                                   (fadd c (fmul c dex dextail) (fmul c dey deytail))
                                   (fmul c dez deztail))
                                (fadd c (fsub c (fmul c aez bc3) (fmul c bez ac3)) (fmul c cez ab3))))
                          (fadd c
                             (fmul c
                                (fadd c
                                   (fadd c (fmul c aex aextail) (fmul c aey aeytail))
                                   (fmul c aez aeztail))
                                (fadd c (fsub c (fmul c bez cd3) (fmul c cez bd3)) (fmul c dez bc3)))
                             (fmul c
                                (fadd c
                                   (fadd c (fmul c cex cextail) (fmul c cey ceytail))
                                   (fmul c cez ceztail))
                                (fadd c (fadd c (fmul c dez ab3) (fmul c aez bd3)) (fmul c bez da3)))))))
      in if certified det errbound then (StageC, det)
         else
      (Final, exact_insphere c pa pb pc pd pe))))))"

definition adaptive_insphere :: "fmt \<Rightarrow> point3 \<Rightarrow> point3 \<Rightarrow> point3 \<Rightarrow> point3 \<Rightarrow> point3 \<Rightarrow> fl" where
  "adaptive_insphere c pa pb pc pd pe = snd (adaptive_insphere_at c pa pb pc pd pe)"

section \<open>Evaluation order\<close>

text \<open>
  A \<open>let\<close> of the definitions above binds a value that has been computed.  The
  functions below say so for the three types that are bound: they return \<open>f x\<close> once
  \<open>x\<close> is a value, and are used in place of \<open>Let\<close> when a definition is evaluated
  at a concrete input.
\<close>

fun bind_fl :: "fl \<Rightarrow> (fl \<Rightarrow> 'a) \<Rightarrow> 'a" where
  "bind_fl (Fin m e) f = f (Fin m e)"
| "bind_fl PInf f = f PInf"
| "bind_fl NInf f = f NInf"
| "bind_fl (NaN s) f = f (NaN s)"

fun bind_list :: "fl list \<Rightarrow> (fl list \<Rightarrow> 'a) \<Rightarrow> 'a" where
  "bind_list [] f = f []"
| "bind_list (x # xs) f = f (x # xs)"

fun bind_pair :: "fl \<times> fl \<Rightarrow> (fl \<times> fl \<Rightarrow> 'a) \<Rightarrow> 'a" where
  "bind_pair (x, y) f = f (x, y)"

text \<open>The number of binary digits of a positive numeral, for evaluating \<open>bitlen\<close>.\<close>

primrec num_bits :: "num \<Rightarrow> int" where
  "num_bits Num.One = 1"
| "num_bits (Num.Bit0 n) = num_bits n + 1"
| "num_bits (Num.Bit1 n) = num_bits n + 1"

section \<open>Quantities named in the statements\<close>

text \<open>
  The two leading partial products of \<open>adaptive::orient2d\<close>, and for each adaptive
  predicate the estimate of its second stage and the tails of its coordinate
  differences, as the source computes them.
\<close>

definition orient2d_detleft :: "fmt \<Rightarrow> point2 \<Rightarrow> point2 \<Rightarrow> point2 \<Rightarrow> fl" where
  "orient2d_detleft c pa pb pc =
     (case pa of (pa0, pa1) \<Rightarrow>
     case pb of (pb0, pb1) \<Rightarrow>
     case pc of (pc0, pc1) \<Rightarrow>
     (let acx = fsub c pa0 pc0;
          bcy = fsub c pb1 pc1;
          detleft = fmul c acx bcy
      in detleft))"

definition orient2d_detright :: "fmt \<Rightarrow> point2 \<Rightarrow> point2 \<Rightarrow> point2 \<Rightarrow> fl" where
  "orient2d_detright c pa pb pc =
     (case pa of (pa0, pa1) \<Rightarrow>
     case pb of (pb0, pb1) \<Rightarrow>
     case pc of (pc0, pc1) \<Rightarrow>
     (let bcx = fsub c pb0 pc0;
          acy = fsub c pa1 pc1;
          detright = fmul c acy bcx
      in detright))"

definition orient2d_stage2 :: "fmt \<Rightarrow> point2 \<Rightarrow> point2 \<Rightarrow> point2 \<Rightarrow> fl" where
  "orient2d_stage2 c pa pb pc =
     (case pa of (pa0, pa1) \<Rightarrow>
     case pb of (pb0, pb1) \<Rightarrow>
     case pc of (pc0, pc1) \<Rightarrow>
     (let acx = fsub c pa0 pc0;
          bcx = fsub c pb0 pc0;
          acy = fsub c pa1 pc1;
          bcy = fsub c pb1 pc1;
          B = TwoTwoDiff c acx bcy acy bcx;
          det = estimate c B
      in det))"

definition orient2d_tails :: "fmt \<Rightarrow> point2 \<Rightarrow> point2 \<Rightarrow> point2 \<Rightarrow> fl list" where
  "orient2d_tails c pa pb pc =
     (case pa of (pa0, pa1) \<Rightarrow>
     case pb of (pb0, pb1) \<Rightarrow>
     case pc of (pc0, pc1) \<Rightarrow>
     (let acx = fsub c pa0 pc0;
          bcx = fsub c pb0 pc0;
          acy = fsub c pa1 pc1;
          bcy = fsub c pb1 pc1;
          acxtail = MinusTail c pa0 pc0 acx;
          bcxtail = MinusTail c pb0 pc0 bcx;
          acytail = MinusTail c pa1 pc1 acy;
          bcytail = MinusTail c pb1 pc1 bcy
      in [acxtail, bcxtail, acytail, bcytail]))"

definition incircle_stage2 :: "fmt \<Rightarrow> point2 \<Rightarrow> point2 \<Rightarrow> point2 \<Rightarrow> point2 \<Rightarrow> fl" where
  "incircle_stage2 c pa pb pc pd =
     (case pa of (pa0, pa1) \<Rightarrow>
     case pb of (pb0, pb1) \<Rightarrow>
     case pc of (pc0, pc1) \<Rightarrow>
     case pd of (pd0, pd1) \<Rightarrow>
     (let adx = fsub c pa0 pd0;
          bdx = fsub c pb0 pd0;
          cdx = fsub c pc0 pd0;
          ady = fsub c pa1 pd1;
          bdy = fsub c pb1 pd1;
          cdy = fsub c pc1 pd1;
          bc = TwoTwoDiff c bdx cdy cdx bdy;
          ca = TwoTwoDiff c cdx ady adx cdy;
          ab = TwoTwoDiff c adx bdy bdx ady;
          adet = expansion_plus c
                  (expansion_scale c (expansion_scale c bc adx) adx)
                  (expansion_scale c (expansion_scale c bc ady) ady);
          bdet = expansion_plus c
                  (expansion_scale c (expansion_scale c ca bdx) bdx)
                  (expansion_scale c (expansion_scale c ca bdy) bdy);
          cdet = expansion_plus c
                  (expansion_scale c (expansion_scale c ab cdx) cdx)
                  (expansion_scale c (expansion_scale c ab cdy) cdy);
          fin1 = expansion_plus c (expansion_plus c adet bdet) cdet;
          det = estimate c fin1
      in det))"

definition incircle_tails :: "fmt \<Rightarrow> point2 \<Rightarrow> point2 \<Rightarrow> point2 \<Rightarrow> point2 \<Rightarrow> fl list" where
  "incircle_tails c pa pb pc pd =
     (case pa of (pa0, pa1) \<Rightarrow>
     case pb of (pb0, pb1) \<Rightarrow>
     case pc of (pc0, pc1) \<Rightarrow>
     case pd of (pd0, pd1) \<Rightarrow>
     (let adx = fsub c pa0 pd0;
          bdx = fsub c pb0 pd0;
          cdx = fsub c pc0 pd0;
          ady = fsub c pa1 pd1;
          bdy = fsub c pb1 pd1;
          cdy = fsub c pc1 pd1;
          adxtail = MinusTail c pa0 pd0 adx;
          adytail = MinusTail c pa1 pd1 ady;
          bdxtail = MinusTail c pb0 pd0 bdx;
          bdytail = MinusTail c pb1 pd1 bdy;
          cdxtail = MinusTail c pc0 pd0 cdx;
          cdytail = MinusTail c pc1 pd1 cdy
      in [adxtail, bdxtail, cdxtail, adytail, bdytail, cdytail]))"

definition orient3d_stage2 :: "fmt \<Rightarrow> point3 \<Rightarrow> point3 \<Rightarrow> point3 \<Rightarrow> point3 \<Rightarrow> fl" where
  "orient3d_stage2 c pa pb pc pd =
     (case pa of (pa0, pa1, pa2) \<Rightarrow>
     case pb of (pb0, pb1, pb2) \<Rightarrow>
     case pc of (pc0, pc1, pc2) \<Rightarrow>
     case pd of (pd0, pd1, pd2) \<Rightarrow>
     (let adx = fsub c pa0 pd0;
          bdx = fsub c pb0 pd0;
          cdx = fsub c pc0 pd0;
          ady = fsub c pa1 pd1;
          bdy = fsub c pb1 pd1;
          cdy = fsub c pc1 pd1;
          adz = fsub c pa2 pd2;
          bdz = fsub c pb2 pd2;
          cdz = fsub c pc2 pd2;
          bc = TwoTwoDiff c bdx cdy cdx bdy;
          ca = TwoTwoDiff c cdx ady adx cdy;
          ab = TwoTwoDiff c adx bdy bdx ady;
          fin1 = expansion_plus c
                  (expansion_plus c (expansion_scale c bc adz) (expansion_scale c ca bdz))
                  (expansion_scale c ab cdz);
          det = estimate c fin1
      in det))"

definition orient3d_tails :: "fmt \<Rightarrow> point3 \<Rightarrow> point3 \<Rightarrow> point3 \<Rightarrow> point3 \<Rightarrow> fl list" where
  "orient3d_tails c pa pb pc pd =
     (case pa of (pa0, pa1, pa2) \<Rightarrow>
     case pb of (pb0, pb1, pb2) \<Rightarrow>
     case pc of (pc0, pc1, pc2) \<Rightarrow>
     case pd of (pd0, pd1, pd2) \<Rightarrow>
     (let adx = fsub c pa0 pd0;
          bdx = fsub c pb0 pd0;
          cdx = fsub c pc0 pd0;
          ady = fsub c pa1 pd1;
          bdy = fsub c pb1 pd1;
          cdy = fsub c pc1 pd1;
          adz = fsub c pa2 pd2;
          bdz = fsub c pb2 pd2;
          cdz = fsub c pc2 pd2;
          adxtail = MinusTail c pa0 pd0 adx;
          bdxtail = MinusTail c pb0 pd0 bdx;
          cdxtail = MinusTail c pc0 pd0 cdx;
          adytail = MinusTail c pa1 pd1 ady;
          bdytail = MinusTail c pb1 pd1 bdy;
          cdytail = MinusTail c pc1 pd1 cdy;
          adztail = MinusTail c pa2 pd2 adz;
          bdztail = MinusTail c pb2 pd2 bdz;
          cdztail = MinusTail c pc2 pd2 cdz
      in [adxtail, adytail, adztail, bdxtail, bdytail, bdztail, cdxtail, cdytail, cdztail]))"

definition insphere_stage2 :: "fmt \<Rightarrow> point3 \<Rightarrow> point3 \<Rightarrow> point3 \<Rightarrow> point3 \<Rightarrow> point3 \<Rightarrow> fl" where
  "insphere_stage2 c pa pb pc pd pe =
     (case pa of (pa0, pa1, pa2) \<Rightarrow>
     case pb of (pb0, pb1, pb2) \<Rightarrow>
     case pc of (pc0, pc1, pc2) \<Rightarrow>
     case pd of (pd0, pd1, pd2) \<Rightarrow>
     case pe of (pe0, pe1, pe2) \<Rightarrow>
     (let aex = fsub c pa0 pe0;
          bex = fsub c pb0 pe0;
          cex = fsub c pc0 pe0;
          dex = fsub c pd0 pe0;
          aey = fsub c pa1 pe1;
          bey = fsub c pb1 pe1;
          cey = fsub c pc1 pe1;
          dey = fsub c pd1 pe1;
          aez = fsub c pa2 pe2;
          bez = fsub c pb2 pe2;
          cez = fsub c pc2 pe2;
          dez = fsub c pd2 pe2;
          ab = TwoTwoDiff c aex bey bex aey;
          bc = TwoTwoDiff c bex cey cex bey;
          cd = TwoTwoDiff c cex dey dex cey;
          da = TwoTwoDiff c dex aey aex dey;
          ac = TwoTwoDiff c aex cey cex aey;
          bd = TwoTwoDiff c bex dey dex bey;
          temp24a = expansion_plus c
                     (expansion_scale c bc dez)
                     (expansion_plus c (expansion_scale c cd bez) (expansion_scale c bd (fneg cez)));
          temp24b = expansion_plus c
                     (expansion_scale c cd aez)
                     (expansion_plus c (expansion_scale c da cez) (expansion_scale c ac dez));
          temp24c = expansion_plus c
                     (expansion_scale c da bez)
                     (expansion_plus c (expansion_scale c ab dez) (expansion_scale c bd aez));
          temp24d = expansion_plus c
                     (expansion_scale c ab cez)
                     (expansion_plus c (expansion_scale c bc aez) (expansion_scale c ac (fneg bez)));
          adet = expansion_plus c
                  (expansion_plus c
                     (expansion_scale c (expansion_scale c temp24a aex) (fneg aex))
                     (expansion_scale c (expansion_scale c temp24a aey) (fneg aey)))
                  (expansion_scale c (expansion_scale c temp24a aez) (fneg aez));
          bdet = expansion_plus c
                  (expansion_plus c
                     (expansion_scale c (expansion_scale c temp24b bex) bex)
                     (expansion_scale c (expansion_scale c temp24b bey) bey))
                  (expansion_scale c (expansion_scale c temp24b bez) bez);
          cdet = expansion_plus c
                  (expansion_plus c
                     (expansion_scale c (expansion_scale c temp24c cex) (fneg cex))
                     (expansion_scale c (expansion_scale c temp24c cey) (fneg cey)))
                  (expansion_scale c (expansion_scale c temp24c cez) (fneg cez));
          ddet = expansion_plus c
                  (expansion_plus c
                     (expansion_scale c (expansion_scale c temp24d dex) dex)
                     (expansion_scale c (expansion_scale c temp24d dey) dey))
                  (expansion_scale c (expansion_scale c temp24d dez) dez);
          fin1 = expansion_plus c (expansion_plus c adet bdet) (expansion_plus c cdet ddet);
          det = estimate c fin1
      in det))"

definition insphere_tails :: "fmt \<Rightarrow> point3 \<Rightarrow> point3 \<Rightarrow> point3 \<Rightarrow> point3 \<Rightarrow> point3 \<Rightarrow> fl list" where
  "insphere_tails c pa pb pc pd pe =
     (case pa of (pa0, pa1, pa2) \<Rightarrow>
     case pb of (pb0, pb1, pb2) \<Rightarrow>
     case pc of (pc0, pc1, pc2) \<Rightarrow>
     case pd of (pd0, pd1, pd2) \<Rightarrow>
     case pe of (pe0, pe1, pe2) \<Rightarrow>
     (let aex = fsub c pa0 pe0;
          bex = fsub c pb0 pe0;
          cex = fsub c pc0 pe0;
          dex = fsub c pd0 pe0;
          aey = fsub c pa1 pe1;
          bey = fsub c pb1 pe1;
          cey = fsub c pc1 pe1;
          dey = fsub c pd1 pe1;
          aez = fsub c pa2 pe2;
          bez = fsub c pb2 pe2;
          cez = fsub c pc2 pe2;
          dez = fsub c pd2 pe2;
          aextail = MinusTail c pa0 pe0 aex;
          aeytail = MinusTail c pa1 pe1 aey;
          aeztail = MinusTail c pa2 pe2 aez;
          bextail = MinusTail c pb0 pe0 bex;
          beytail = MinusTail c pb1 pe1 bey;
          beztail = MinusTail c pb2 pe2 bez;
          cextail = MinusTail c pc0 pe0 cex;
          ceytail = MinusTail c pc1 pe1 cey;
          ceztail = MinusTail c pc2 pe2 cez;
          dextail = MinusTail c pd0 pe0 dex;
          deytail = MinusTail c pd1 pe1 dey;
          deztail = MinusTail c pd2 pe2 dez
      in [aextail, aeytail, aeztail, bextail, beytail, beztail, cextail, ceytail, ceztail, dextail, deytail, deztail]))"

text \<open>
  The determinants whose signs the predicates return, over the real numbers: of the
  edge vectors \<open>a - c\<close>, \<open>b - c\<close>; of \<open>a - d\<close>, \<open>b - d\<close>, \<open>c - d\<close>; and of the points
  lifted to the paraboloid, relative to the last point.
\<close>

definition orient2d_det :: "point2 \<Rightarrow> point2 \<Rightarrow> point2 \<Rightarrow> real" where
  "orient2d_det pa pb pc =
     (case pa of (pa0, pa1) \<Rightarrow> case pb of (pb0, pb1) \<Rightarrow> case pc of (pc0, pc1) \<Rightarrow>
      (val pa0 - val pc0) * (val pb1 - val pc1) - (val pa1 - val pc1) * (val pb0 - val pc0))"

definition det3 :: "real \<Rightarrow> real \<Rightarrow> real \<Rightarrow> real \<Rightarrow> real \<Rightarrow> real \<Rightarrow> real \<Rightarrow> real \<Rightarrow> real \<Rightarrow> real" where
  "det3 ax ay az bx by bz cx cy cz =
     az * (bx * cy - cx * by) + bz * (cx * ay - ax * cy) + cz * (ax * by - bx * ay)"

definition orient3d_det :: "point3 \<Rightarrow> point3 \<Rightarrow> point3 \<Rightarrow> point3 \<Rightarrow> real" where
  "orient3d_det pa pb pc pd =
     (case pa of (pa0, pa1, pa2) \<Rightarrow> case pb of (pb0, pb1, pb2) \<Rightarrow>
      case pc of (pc0, pc1, pc2) \<Rightarrow> case pd of (pd0, pd1, pd2) \<Rightarrow>
      det3 (val pa0 - val pd0) (val pa1 - val pd1) (val pa2 - val pd2)
           (val pb0 - val pd0) (val pb1 - val pd1) (val pb2 - val pd2)
           (val pc0 - val pd0) (val pc1 - val pd1) (val pc2 - val pd2))"

definition incircle_det :: "point2 \<Rightarrow> point2 \<Rightarrow> point2 \<Rightarrow> point2 \<Rightarrow> real" where
  "incircle_det pa pb pc pd =
     (case pa of (pa0, pa1) \<Rightarrow> case pb of (pb0, pb1) \<Rightarrow>
      case pc of (pc0, pc1) \<Rightarrow> case pd of (pd0, pd1) \<Rightarrow>
      (let adx = val pa0 - val pd0; ady = val pa1 - val pd1;
           bdx = val pb0 - val pd0; bdy = val pb1 - val pd1;
           cdx = val pc0 - val pd0; cdy = val pc1 - val pd1
       in det3 adx ady (adx * adx + ady * ady) bdx bdy (bdx * bdx + bdy * bdy)
            cdx cdy (cdx * cdx + cdy * cdy)))"

definition insphere_det :: "point3 \<Rightarrow> point3 \<Rightarrow> point3 \<Rightarrow> point3 \<Rightarrow> point3 \<Rightarrow> real" where
  "insphere_det pa pb pc pd pe =
     (case pa of (pa0, pa1, pa2) \<Rightarrow> case pb of (pb0, pb1, pb2) \<Rightarrow>
      case pc of (pc0, pc1, pc2) \<Rightarrow> case pd of (pd0, pd1, pd2) \<Rightarrow>
      case pe of (pe0, pe1, pe2) \<Rightarrow>
      (let aex = val pa0 - val pe0; aey = val pa1 - val pe1; aez = val pa2 - val pe2;
           bex = val pb0 - val pe0; bey = val pb1 - val pe1; bez = val pb2 - val pe2;
           cex = val pc0 - val pe0; cey = val pc1 - val pe1; cez = val pc2 - val pe2;
           dex = val pd0 - val pe0; dey = val pd1 - val pe1; dez = val pd2 - val pe2;
           alift = aex * aex + aey * aey + aez * aez;
           blift = bex * bex + bey * bey + bez * bez;
           clift = cex * cex + cey * cey + cez * cez;
           dlift = dex * dex + dey * dey + dez * dez
       in (dlift * det3 aex aey aez bex bey bez cex cey cez
             - clift * det3 dex dey dez aex aey aez bex bey bez)
          + (blift * det3 cex cey cez dex dey dez aex aey aez
             - alift * det3 bex bey bez cex cey cez dex dey dez)))"

text \<open>The value \<open>m * 2^e\<close> of \<open>double\<close>, for writing concrete inputs.\<close>

definition dbl :: "int \<Rightarrow> int \<Rightarrow> fl" where
  "dbl m e = round_to binary64 m e"


subsection \<open>The first stage of \<open>incircle\<close>, \<open>orient3d\<close> and \<open>insphere\<close>\<close>

text \<open>
  The first two products that each of the other three adaptive predicates forms, and the
  floating-point determinant \<open>det\<close> of its first stage, from the same source lines as the
  predicate itself.
\<close>

definition incircle_partials :: "fmt \<Rightarrow> point2 \<Rightarrow> point2 \<Rightarrow> point2 \<Rightarrow> point2 \<Rightarrow> fl \<times> fl" where
  "incircle_partials c pa pb pc pd =
     (case pa of (pa0, pa1) \<Rightarrow>
     case pb of (pb0, pb1) \<Rightarrow>
     case pc of (pc0, pc1) \<Rightarrow>
     case pd of (pd0, pd1) \<Rightarrow>
     (let bdx = fsub c pb0 pd0;
          cdx = fsub c pc0 pd0;
          bdy = fsub c pb1 pd1;
          cdy = fsub c pc1 pd1;
          bdxcdy = fmul c bdx cdy;
          cdxbdy = fmul c cdx bdy
      in (bdxcdy, cdxbdy)))"

definition incircle_fast :: "fmt \<Rightarrow> point2 \<Rightarrow> point2 \<Rightarrow> point2 \<Rightarrow> point2 \<Rightarrow> fl" where
  "incircle_fast c pa pb pc pd =
     (case pa of (pa0, pa1) \<Rightarrow>
     case pb of (pb0, pb1) \<Rightarrow>
     case pc of (pc0, pc1) \<Rightarrow>
     case pd of (pd0, pd1) \<Rightarrow>
     (let adx = fsub c pa0 pd0;
          bdx = fsub c pb0 pd0;
          cdx = fsub c pc0 pd0;
          ady = fsub c pa1 pd1;
          bdy = fsub c pb1 pd1;
          cdy = fsub c pc1 pd1;
          bdxcdy = fmul c bdx cdy;
          cdxbdy = fmul c cdx bdy;
          cdxady = fmul c cdx ady;
          adxcdy = fmul c adx cdy;
          adxbdy = fmul c adx bdy;
          bdxady = fmul c bdx ady;
          alift = fadd c (fmul c adx adx) (fmul c ady ady);
          blift = fadd c (fmul c bdx bdx) (fmul c bdy bdy);
          clift = fadd c (fmul c cdx cdx) (fmul c cdy cdy);
          det = fadd c
                 (fadd c (fmul c alift (fsub c bdxcdy cdxbdy)) (fmul c blift (fsub c cdxady adxcdy)))
                 (fmul c clift (fsub c adxbdy bdxady))
      in det))"

definition orient3d_partials :: "fmt \<Rightarrow> point3 \<Rightarrow> point3 \<Rightarrow> point3 \<Rightarrow> point3 \<Rightarrow> fl \<times> fl" where
  "orient3d_partials c pa pb pc pd =
     (case pa of (pa0, pa1, pa2) \<Rightarrow>
     case pb of (pb0, pb1, pb2) \<Rightarrow>
     case pc of (pc0, pc1, pc2) \<Rightarrow>
     case pd of (pd0, pd1, pd2) \<Rightarrow>
     (let bdx = fsub c pb0 pd0;
          cdx = fsub c pc0 pd0;
          bdy = fsub c pb1 pd1;
          cdy = fsub c pc1 pd1;
          bdxcdy = fmul c bdx cdy;
          cdxbdy = fmul c cdx bdy
      in (bdxcdy, cdxbdy)))"

definition orient3d_fast :: "fmt \<Rightarrow> point3 \<Rightarrow> point3 \<Rightarrow> point3 \<Rightarrow> point3 \<Rightarrow> fl" where
  "orient3d_fast c pa pb pc pd =
     (case pa of (pa0, pa1, pa2) \<Rightarrow>
     case pb of (pb0, pb1, pb2) \<Rightarrow>
     case pc of (pc0, pc1, pc2) \<Rightarrow>
     case pd of (pd0, pd1, pd2) \<Rightarrow>
     (let adx = fsub c pa0 pd0;
          bdx = fsub c pb0 pd0;
          cdx = fsub c pc0 pd0;
          ady = fsub c pa1 pd1;
          bdy = fsub c pb1 pd1;
          cdy = fsub c pc1 pd1;
          adz = fsub c pa2 pd2;
          bdz = fsub c pb2 pd2;
          cdz = fsub c pc2 pd2;
          bdxcdy = fmul c bdx cdy;
          cdxbdy = fmul c cdx bdy;
          cdxady = fmul c cdx ady;
          adxcdy = fmul c adx cdy;
          adxbdy = fmul c adx bdy;
          bdxady = fmul c bdx ady;
          det = fadd c
                 (fadd c (fmul c adz (fsub c bdxcdy cdxbdy)) (fmul c bdz (fsub c cdxady adxcdy)))
                 (fmul c cdz (fsub c adxbdy bdxady))
      in det))"

definition insphere_partials :: "fmt \<Rightarrow> point3 \<Rightarrow> point3 \<Rightarrow> point3 \<Rightarrow> point3 \<Rightarrow> point3 \<Rightarrow> fl \<times> fl" where
  "insphere_partials c pa pb pc pd pe =
     (case pa of (pa0, pa1, pa2) \<Rightarrow>
     case pb of (pb0, pb1, pb2) \<Rightarrow>
     case pc of (pc0, pc1, pc2) \<Rightarrow>
     case pd of (pd0, pd1, pd2) \<Rightarrow>
     case pe of (pe0, pe1, pe2) \<Rightarrow>
     (let aex = fsub c pa0 pe0;
          bex = fsub c pb0 pe0;
          aey = fsub c pa1 pe1;
          bey = fsub c pb1 pe1;
          aexbey = fmul c aex bey;
          bexaey = fmul c bex aey
      in (aexbey, bexaey)))"

definition insphere_fast :: "fmt \<Rightarrow> point3 \<Rightarrow> point3 \<Rightarrow> point3 \<Rightarrow> point3 \<Rightarrow> point3 \<Rightarrow> fl" where
  "insphere_fast c pa pb pc pd pe =
     (case pa of (pa0, pa1, pa2) \<Rightarrow>
     case pb of (pb0, pb1, pb2) \<Rightarrow>
     case pc of (pc0, pc1, pc2) \<Rightarrow>
     case pd of (pd0, pd1, pd2) \<Rightarrow>
     case pe of (pe0, pe1, pe2) \<Rightarrow>
     (let aex = fsub c pa0 pe0;
          bex = fsub c pb0 pe0;
          cex = fsub c pc0 pe0;
          dex = fsub c pd0 pe0;
          aey = fsub c pa1 pe1;
          bey = fsub c pb1 pe1;
          cey = fsub c pc1 pe1;
          dey = fsub c pd1 pe1;
          aez = fsub c pa2 pe2;
          bez = fsub c pb2 pe2;
          cez = fsub c pc2 pe2;
          dez = fsub c pd2 pe2;
          aexbey = fmul c aex bey;
          bexaey = fmul c bex aey;
          bexcey = fmul c bex cey;
          cexbey = fmul c cex bey;
          cexdey = fmul c cex dey;
          dexcey = fmul c dex cey;
          dexaey = fmul c dex aey;
          aexdey = fmul c aex dey;
          aexcey = fmul c aex cey;
          cexaey = fmul c cex aey;
          bexdey = fmul c bex dey;
          dexbey = fmul c dex bey;
          ab = fsub c aexbey bexaey;
          bc = fsub c bexcey cexbey;
          cd = fsub c cexdey dexcey;
          da = fsub c dexaey aexdey;
          ac = fsub c aexcey cexaey;
          bd = fsub c bexdey dexbey;
          abc = fadd c (fsub c (fmul c aez bc) (fmul c bez ac)) (fmul c cez ab);
          bcd = fadd c (fsub c (fmul c bez cd) (fmul c cez bd)) (fmul c dez bc);
          cda = fadd c (fadd c (fmul c cez da) (fmul c dez ac)) (fmul c aez cd);
          dab = fadd c (fadd c (fmul c dez ab) (fmul c aez bd)) (fmul c bez da);
          alift = fadd c (fadd c (fmul c aex aex) (fmul c aey aey)) (fmul c aez aez);
          blift = fadd c (fadd c (fmul c bex bex) (fmul c bey bey)) (fmul c bez bez);
          clift = fadd c (fadd c (fmul c cex cex) (fmul c cey cey)) (fmul c cez cez);
          dlift = fadd c (fadd c (fmul c dex dex) (fmul c dey dey)) (fmul c dez dez);
          det = fadd c
                 (fsub c (fmul c dlift abc) (fmul c clift dab))
                 (fsub c (fmul c blift cda) (fmul c alift bcd))
      in det))"

section \<open>Finite values as real numbers\<close>

text \<open>
  The proofs about the arithmetic read a finite value as the real number it denotes.
  A format is usable when it has at least three significand bits and at least one exponent.
  \<open>mult2 k x\<close> says that \<open>x\<close> is an integer multiple of \<open>2^k\<close>; \<open>representable c x\<close> that
  \<open>x\<close> is a number of the format when the exponent range is unbounded above;
  \<open>nearest c x r\<close> that \<open>r\<close> is such a number and none is closer to \<open>x\<close>.
\<close>

definition valid_fmt :: "fmt \<Rightarrow> bool" where
  "valid_fmt c \<longleftrightarrow> 3 \<le> digits c \<and> qmin c \<le> qmax c"

definition mult2 :: "int \<Rightarrow> real \<Rightarrow> bool" where
  "mult2 k x \<longleftrightarrow> (\<exists>n::int. x = of_int n * 2 powi k)"

definition representable :: "fmt \<Rightarrow> real \<Rightarrow> bool" where
  "representable c x \<longleftrightarrow>
     (\<exists>m e. x = of_int m * 2 powi e \<and> \<bar>m\<bar> < 2 ^ nat (digits c) \<and> qmin c \<le> e)"

definition nearest :: "fmt \<Rightarrow> real \<Rightarrow> real \<Rightarrow> bool" where
  "nearest c x r \<longleftrightarrow> representable c r \<and> (\<forall>f. representable c f \<longrightarrow> \<bar>r - x\<bar> \<le> \<bar>f - x\<bar>)"






section \<open>Evaluation\<close>

lemma bitlen_numeral: "bitlen (numeral n) = num_bits n"
proof (induction n)
  case One
  show ?case by (subst compute_bitlen) simp
next
  case (Bit0 n)
  have "bitlen (numeral (Num.Bit0 n)) = bitlen (numeral (Num.Bit0 n) div 2) + 1"
    by (subst compute_bitlen) simp
  then show ?case using Bit0 by simp
next
  case (Bit1 n)
  have "bitlen (numeral (Num.Bit1 n)) = bitlen (numeral (Num.Bit1 n) div 2) + 1"
    by (subst compute_bitlen) simp
  then show ?case using Bit1 by simp
qed

lemma bitlen_code [code]:
  "bitlen (Int.Pos n) = num_bits n" "bitlen (Int.Neg n) = 0" "bitlen 0 = 0"
proof -
  show "bitlen (Int.Pos n) = num_bits n" unfolding Int.Pos_def by (rule bitlen_numeral)
  show "bitlen (Int.Neg n) = 0" unfolding Int.Neg_def by (simp add: bitlen_def floorlog_def)
  show "bitlen 0 = 0" by simp
qed

lemma Let_fl [code_unfold]: "Let (x::fl) f = bind_fl x f"
  by (cases x) simp_all

lemma Let_fl_list [code_unfold]: "Let (x::fl list) f = bind_list x f"
  by (cases x) simp_all

lemma Let_fl_pair [code_unfold]: "Let (x::fl \<times> fl) f = bind_pair x f"
  by (cases x) simp_all

section \<open>Rounding to nearest and the error of a sum\<close>


subsection \<open>Powers of two\<close>

lemma two_powi_pos [simp]: "0 < (2::real) powi k"
  by simp

lemma two_powi_Suc: "(2::real) powi (k + 1) = 2 * 2 powi k"
  by (simp add: power_int_add)

lemma two_powi_mono: "k \<le> l \<Longrightarrow> (2::real) powi k \<le> 2 powi l"
  by (rule power_int_increasing) simp_all

lemma two_powi_strict_mono: "k < l \<Longrightarrow> (2::real) powi k < 2 powi l"
  by (rule power_int_strict_increasing) simp_all

lemma two_powi_less_iff: "(2::real) powi k < 2 powi l \<longleftrightarrow> k < l"
proof
  assume "(2::real) powi k < 2 powi l"
  show "k < l"
  proof (rule ccontr)
    assume "\<not> k < l"
    hence "l \<le> k" by simp
    from two_powi_mono[OF this] \<open>(2::real) powi k < 2 powi l\<close> show False by simp
  qed
qed (rule two_powi_strict_mono)

lemma two_powi_split: "l \<le> k \<Longrightarrow> (2::real) powi k = of_int (2 ^ nat (k - l)) * 2 powi l"
proof -
  assume "l \<le> k"
  have "(2::real) powi k = 2 powi ((k - l) + l)" by simp
  also have "\<dots> = 2 powi (k - l) * 2 powi l" by (rule power_int_add) simp
  also have "(2::real) powi (k - l) = 2 ^ nat (k - l)"
    using \<open>l \<le> k\<close> by (simp add: power_int_def)
  finally show ?thesis by simp
qed

lemma two_powi_nat: "0 \<le> p \<Longrightarrow> (2::real) powi p = of_int (2 ^ nat p)"
  by (simp add: power_int_def)

subsection \<open>Multiples of a power of two\<close>

lemma mult2_0 [simp]: "mult2 k 0"
  unfolding mult2_def by (rule exI[of _ 0]) simp

lemma mult2_I: "mult2 k (of_int n * 2 powi k)"
  unfolding mult2_def by blast

lemma mult2_minus [simp]: "mult2 k (- x) \<longleftrightarrow> mult2 k x"
proof -
  have "mult2 k (- y)" if "mult2 k y" for y
  proof -
    from that obtain n :: int where "y = of_int n * 2 powi k" unfolding mult2_def by blast
    hence "- y = of_int (- n) * 2 powi k" by simp
    thus ?thesis unfolding mult2_def by blast
  qed
  from this[of x] this[of "- x"] show ?thesis by auto
qed

lemma mult2_add: "mult2 k x \<Longrightarrow> mult2 k y \<Longrightarrow> mult2 k (x + y)"
proof -
  assume "mult2 k x" "mult2 k y"
  then obtain n n' :: int where "x = of_int n * 2 powi k" "y = of_int n' * 2 powi k"
    unfolding mult2_def by blast
  hence "x + y = of_int (n + n') * 2 powi k" by (simp add: algebra_simps)
  thus ?thesis unfolding mult2_def by blast
qed

lemma mult2_diff: "mult2 k x \<Longrightarrow> mult2 k y \<Longrightarrow> mult2 k (x - y)"
  using mult2_add[of k x "- y"] by simp

lemma mult2_le: "mult2 k x \<Longrightarrow> l \<le> k \<Longrightarrow> mult2 l x"
proof -
  assume "mult2 k x" "l \<le> k"
  then obtain n :: int where "x = of_int n * 2 powi k" unfolding mult2_def by blast
  hence "x = of_int (n * 2 ^ nat (k - l)) * 2 powi l"
    using two_powi_split[OF \<open>l \<le> k\<close>] by simp
  thus ?thesis unfolding mult2_def by blast
qed

lemma mult2_small: "mult2 k x \<Longrightarrow> \<bar>x\<bar> < 2 powi k \<Longrightarrow> x = 0"
proof -
  assume "mult2 k x" "\<bar>x\<bar> < 2 powi k"
  then obtain n :: int where x: "x = of_int n * 2 powi k" unfolding mult2_def by blast
  have "\<bar>x\<bar> = of_int \<bar>n\<bar> * 2 powi k" by (simp add: x abs_mult)
  with \<open>\<bar>x\<bar> < 2 powi k\<close> have "of_int \<bar>n\<bar> * (2::real) powi k < 1 * 2 powi k" by simp
  hence "real_of_int \<bar>n\<bar> < 1" by (simp only: mult_less_cancel_right_pos two_powi_pos)
  hence "n = 0" by linarith
  thus ?thesis by (simp add: x)
qed

lemma mult2_powi: "l \<le> k \<Longrightarrow> mult2 l (2 powi k)"
  using mult2_le[OF mult2_I[of k 1]] by simp

subsection \<open>Representable numbers\<close>

lemma representable_bound:
  assumes "\<bar>m\<bar> < 2 ^ nat p" "0 \<le> p"
  shows "\<bar>of_int m * 2 powi e\<bar> < (2::real) powi (e + p)"
proof -
  have "real_of_int \<bar>m\<bar> < of_int (2 ^ nat p)" using assms(1) by (simp only: of_int_less_iff)
  hence "real_of_int \<bar>m\<bar> < 2 powi p" using two_powi_nat[OF assms(2)] by simp
  hence "real_of_int \<bar>m\<bar> * 2 powi e < 2 powi p * 2 powi e" by simp
  thus ?thesis by (simp add: abs_mult power_int_add mult.commute)
qed

lemma representable_mult2: "representable c x \<Longrightarrow> mult2 (qmin c) x"
  unfolding representable_def using mult2_le[OF mult2_I] by blast

lemma representable_0 [simp]: "representable c 0"
  unfolding representable_def by (rule exI[of _ 0], rule exI[of _ "qmin c"]) simp

lemma representable_minus [simp]: "representable c (- x) \<longleftrightarrow> representable c x"
proof -
  have "representable c (- y)" if "representable c y" for y
  proof -
    from that obtain m e where "y = of_int m * 2 powi e" "\<bar>m\<bar> < 2 ^ nat (digits c)" "qmin c \<le> e"
      unfolding representable_def by blast
    hence "- y = of_int (- m) * 2 powi e \<and> \<bar>- m\<bar> < 2 ^ nat (digits c) \<and> qmin c \<le> e" by simp
    thus ?thesis unfolding representable_def by blast
  qed
  from this[of x] this[of "- x"] show ?thesis by auto
qed

lemma representable_double: "representable c x \<Longrightarrow> representable c (2 * x)"
proof -
  assume "representable c x"
  then obtain m e where "x = of_int m * 2 powi e" "\<bar>m\<bar> < 2 ^ nat (digits c)" "qmin c \<le> e"
    unfolding representable_def by blast
  hence "2 * x = of_int m * 2 powi (e + 1) \<and> \<bar>m\<bar> < 2 ^ nat (digits c) \<and> qmin c \<le> e + 1"
    by (simp add: two_powi_Suc)
  thus ?thesis unfolding representable_def by blast
qed

lemma representable_grid:
  assumes "mult2 k x" "qmin c \<le> k" "\<bar>x\<bar> \<le> 2 powi (k + digits c)" "1 \<le> digits c"
  shows "representable c x"
proof -
  let ?p = "digits c"
  from assms(1) obtain n :: int where x: "x = of_int n * 2 powi k" unfolding mult2_def by blast
  have "\<bar>x\<bar> = of_int \<bar>n\<bar> * 2 powi k" by (simp add: x abs_mult)
  with assms(3) have "of_int \<bar>n\<bar> * (2::real) powi k \<le> 2 powi ?p * 2 powi k"
    by (simp add: power_int_add mult.commute)
  hence "real_of_int \<bar>n\<bar> \<le> 2 powi ?p" by (simp only: mult_le_cancel_right_pos two_powi_pos)
  hence "real_of_int \<bar>n\<bar> \<le> of_int (2 ^ nat ?p)" using two_powi_nat[of ?p] assms(4) by simp
  hence le: "\<bar>n\<bar> \<le> 2 ^ nat ?p" by (simp only: of_int_le_iff)
  show ?thesis
  proof (cases "\<bar>n\<bar> = 2 ^ nat ?p")
    case False
    with le have "\<bar>n\<bar> < 2 ^ nat ?p" by simp
    with x assms(2) show ?thesis unfolding representable_def by blast
  next
    case True
    have p: "nat ?p = Suc (nat (?p - 1))" using assms(4) by simp
    define h :: int where "h = (if 0 \<le> n then 1 else - 1) * 2 ^ nat (?p - 1)"
    have n: "n = 2 * h" using True unfolding h_def p by (auto simp: abs_if split: if_splits)
    have "\<bar>h\<bar> = 2 ^ nat (?p - 1)" unfolding h_def by (simp add: abs_mult)
    hence "\<bar>h\<bar> < 2 ^ nat ?p" unfolding p by simp
    moreover have "x = of_int h * 2 powi (k + 1)" by (simp add: x n two_powi_Suc)
    moreover have "qmin c \<le> k + 1" using assms(2) by simp
    ultimately show ?thesis unfolding representable_def by blast
  qed
qed

lemma representable_powi: "qmin c \<le> k \<Longrightarrow> 1 \<le> digits c \<Longrightarrow> representable c (2 powi k)"
  by (rule representable_grid[of k]) (simp_all add: mult2_powi two_powi_mono)

text \<open>A difference no larger than either operand is representable.\<close>

lemma representable_diff:
  assumes a: "representable c a" and b: "representable c b"
    and "\<bar>a - b\<bar> \<le> \<bar>a\<bar>" "\<bar>a - b\<bar> \<le> \<bar>b\<bar>" and p: "1 \<le> digits c"
  shows "representable c (a - b)"
proof -
  from a obtain ma ea where a': "a = of_int ma * 2 powi ea" "\<bar>ma\<bar> < 2 ^ nat (digits c)" "qmin c \<le> ea"
    unfolding representable_def by blast
  from b obtain mb eb where b': "b = of_int mb * 2 powi eb" "\<bar>mb\<bar> < 2 ^ nat (digits c)" "qmin c \<le> eb"
    unfolding representable_def by blast
  have ba: "\<bar>a\<bar> < 2 powi (ea + digits c)" unfolding a'(1) using representable_bound[OF a'(2)] p by simp
  have bb: "\<bar>b\<bar> < 2 powi (eb + digits c)" unfolding b'(1) using representable_bound[OF b'(2)] p by simp
  have ma: "mult2 ea a" and mb: "mult2 eb b" unfolding a'(1) b'(1) by (rule mult2_I)+
  show ?thesis
  proof (cases "ea \<le> eb")
    case True
    have "mult2 ea (a - b)" by (rule mult2_diff[OF ma mult2_le[OF mb True]])
    thus ?thesis using a'(3) assms(3) ba p by (intro representable_grid[of ea]) simp_all
  next
    case False
    hence "eb \<le> ea" by simp
    have "mult2 eb (a - b)" by (rule mult2_diff[OF mult2_le[OF ma \<open>eb \<le> ea\<close>] mb])
    thus ?thesis using b'(3) assms(4) bb p by (intro representable_grid[of eb]) simp_all
  qed
qed

lemma representable_sum:
  assumes "representable c a" "representable c b" "\<bar>a + b\<bar> \<le> \<bar>a\<bar>" "\<bar>a + b\<bar> \<le> \<bar>b\<bar>" "1 \<le> digits c"
  shows "representable c (a + b)"
  using representable_diff[of c a "- b"] assms by simp

subsection \<open>Rounding to nearest\<close>

lemma nearest_representable: "nearest c x r \<Longrightarrow> representable c r"
  unfolding nearest_def by blast

lemma nearest_closest: "nearest c x r \<Longrightarrow> representable c f \<Longrightarrow> \<bar>r - x\<bar> \<le> \<bar>f - x\<bar>"
  unfolding nearest_def by blast

lemma nearest_exact: "nearest c x r \<Longrightarrow> representable c x \<Longrightarrow> r = x"
  using nearest_closest[of c x r x] by simp

lemma nearest_minus: "nearest c (- x) (- r) \<longleftrightarrow> nearest c x r"
proof -
  have "nearest c (- y) (- s)" if "nearest c y s" for y s
    unfolding nearest_def
  proof (intro conjI allI impI)
    show "representable c (- s)" using nearest_representable[OF that] by simp
  next
    fix f assume "representable c f"
    hence "representable c (- f)" by simp
    from nearest_closest[OF that this] show "\<bar>- s - - y\<bar> \<le> \<bar>f - - y\<bar>"
      by (simp add: abs_if split: if_splits)
  qed
  from this[of x r] this[of "- x" "- r"] show ?thesis by auto
qed

lemma nearest_lower: "nearest c x r \<Longrightarrow> representable c f \<Longrightarrow> f \<le> x \<Longrightarrow> f \<le> r"
  using nearest_closest[of c x r f] by (simp add: abs_if split: if_splits)

lemma nearest_upper: "nearest c x r \<Longrightarrow> representable c f \<Longrightarrow> x \<le> f \<Longrightarrow> r \<le> f"
  using nearest_closest[of c x r f] by (simp add: abs_if split: if_splits)

lemma nearest_mult2:
  assumes n: "nearest c x r" and "mult2 k x" "qmin c \<le> k" and p: "1 \<le> digits c"
  shows "mult2 k r"
proof (cases "\<bar>x\<bar> \<le> 2 powi (k + digits c)")
  case True
  hence "representable c x" using assms by (intro representable_grid[of k]) simp_all
  with n have "r = x" by (rule nearest_exact)
  thus ?thesis using assms(2) by simp
next
  case False
  let ?g = "(2::real) powi (k + digits c)"
  have g: "representable c ?g" using assms(3) p by (intro representable_powi) simp_all
  have "?g \<le> \<bar>r\<bar>"
  proof (cases "0 \<le> x")
    case True
    with False have "?g \<le> x" by simp
    from nearest_lower[OF n g this] show ?thesis by simp
  next
    case neg: False
    with False have "x \<le> - ?g" by simp
    moreover have "representable c (- ?g)" using g by simp
    ultimately have "r \<le> - ?g" using n by (intro nearest_upper[of c x r]) simp_all
    thus ?thesis by simp
  qed
  moreover from nearest_representable[OF n] obtain m e
    where r: "r = of_int m * 2 powi e" "\<bar>m\<bar> < 2 ^ nat (digits c)" "qmin c \<le> e"
    unfolding representable_def by blast
  have "\<bar>r\<bar> < 2 powi (e + digits c)" unfolding r(1) using representable_bound[OF r(2)] p by simp
  ultimately have "?g < 2 powi (e + digits c)" by simp
  hence "k < e" by (simp add: two_powi_less_iff)
  thus ?thesis unfolding r(1) using mult2_le[OF mult2_I, of k e m] by simp
qed

text \<open>The rounding error of a sum is representable.\<close>

lemma error_representable_aux:
  assumes a: "a = of_int ma * 2 powi ea" "\<bar>ma\<bar> < 2 ^ nat (digits c)" "qmin c \<le> ea"
    and b: "representable c b" "mult2 ea b" and n: "nearest c (a + b) x" and p: "1 \<le> digits c"
  shows "representable c (a + b - x)"
proof -
  have "mult2 ea a" unfolding a(1) by (rule mult2_I)
  hence s: "mult2 ea (a + b)" using b(2) by (rule mult2_add)
  hence "mult2 ea x" using n a(3) p by (intro nearest_mult2[of c "a + b" x]) simp_all
  with s have "mult2 ea (a + b - x)" by (rule mult2_diff)
  moreover have "\<bar>a + b - x\<bar> \<le> \<bar>a\<bar>" using nearest_closest[OF n b(1)] by simp
  moreover have "\<bar>a\<bar> < 2 powi (ea + digits c)"
    unfolding a(1) using representable_bound[OF a(2)] p by simp
  ultimately show ?thesis using a(3) p by (intro representable_grid[of ea]) simp_all
qed

lemma error_representable:
  assumes a: "representable c a" and b: "representable c b"
    and n: "nearest c (a + b) x" and p: "1 \<le> digits c"
  shows "representable c (a + b - x)"
proof -
  from a obtain ma ea where a': "a = of_int ma * 2 powi ea" "\<bar>ma\<bar> < 2 ^ nat (digits c)" "qmin c \<le> ea"
    unfolding representable_def by blast
  from b obtain mb eb where b': "b = of_int mb * 2 powi eb" "\<bar>mb\<bar> < 2 ^ nat (digits c)" "qmin c \<le> eb"
    unfolding representable_def by blast
  show ?thesis
  proof (cases "ea \<le> eb")
    case True
    have "mult2 ea b" unfolding b'(1) by (rule mult2_le[OF mult2_I True])
    from error_representable_aux[OF a' b this n p] show ?thesis .
  next
    case False
    hence "mult2 eb a" unfolding a'(1) by (intro mult2_le[OF mult2_I]) simp
    moreover have "nearest c (b + a) x" using n by (simp add: add.commute)
    ultimately have "representable c (b + a - x)" using b' a p
      by (intro error_representable_aux[of b mb eb c a x]) simp_all
    thus ?thesis by (simp add: add.commute)
  qed
qed

text \<open>When the first operand is the larger one, the part of the second operand that the
  rounded sum took in is representable.\<close>

lemma fast_two_sum_pos:
  assumes a: "representable c a" and b: "representable c b" and "0 < a" "\<bar>b\<bar> \<le> a"
    and n: "nearest c (a + b) x" and p: "1 \<le> digits c"
  shows "representable c (x - a)"
proof (cases "0 \<le> b")
  case True
  have "a \<le> x" using n a True by (intro nearest_lower[of c "a + b" x a]) simp_all
  moreover have "x \<le> 2 * a" using n representable_double[OF a] assms(4)
    by (intro nearest_upper[of c "a + b" x "2 * a"]) simp_all
  moreover from nearest_representable[OF n] have "representable c x" .
  ultimately show ?thesis using a p assms(3) by (intro representable_diff) simp_all
next
  case False
  from a obtain ma ea where a': "a = of_int ma * 2 powi ea" "\<bar>ma\<bar> < 2 ^ nat (digits c)" "qmin c \<le> ea"
    unfolding representable_def by blast
  have exact: "representable c (x - a)" if "representable c (a + b)"
  proof -
    from nearest_exact[OF n that] have "x - a = b" by simp
    thus ?thesis using b by simp
  qed
  show ?thesis
  proof (cases "ea = qmin c")
    case True
    have "mult2 (qmin c) (a + b)" using a b by (intro mult2_add representable_mult2)
    moreover have "\<bar>a + b\<bar> \<le> \<bar>a\<bar>" using False assms(3,4) by simp
    moreover have "\<bar>a\<bar> < 2 powi (qmin c + digits c)"
      unfolding a'(1) True[symmetric] using representable_bound[OF a'(2)] p by simp
    ultimately have "representable c (a + b)" using p by (intro representable_grid[of "qmin c"]) simp_all
    thus ?thesis by (rule exact)
  next
    case ea: False
    show ?thesis
    proof (cases "a \<le> 2 * \<bar>b\<bar>")
      case True
      have "representable c (a + b)" using a b p False assms(3,4) True
        by (intro representable_sum) simp_all
      thus ?thesis by (rule exact)
    next
      case small: False
      have "a / 2 = of_int ma * 2 powi (ea - 1 + 1) / 2" by (simp add: a'(1))
      also have "\<dots> = of_int ma * 2 powi (ea - 1)" by (simp only: two_powi_Suc)
      finally have "representable c (a / 2)" using a'(2,3) ea unfolding representable_def
        by (intro exI[of _ ma] exI[of _ "ea - 1"]) simp
      moreover have "a / 2 \<le> a + b" using small False by simp
      ultimately have "a / 2 \<le> x" using n by (intro nearest_lower[of c "a + b" x]) simp_all
      moreover have "x \<le> a" using n a False by (intro nearest_upper[of c "a + b" x a]) simp_all
      moreover from nearest_representable[OF n] have "representable c x" .
      ultimately show ?thesis using a p assms(3) by (intro representable_diff) simp_all
    qed
  qed
qed

lemma fast_two_sum_exact:
  assumes a: "representable c a" and b: "representable c b" and "\<bar>b\<bar> \<le> \<bar>a\<bar>"
    and n: "nearest c (a + b) x" and p: "1 \<le> digits c"
  shows "representable c (x - a)"
proof -
  consider "0 < a" | "a < 0" | "a = 0" by linarith
  thus ?thesis
  proof cases
    case 1
    thus ?thesis using assms by (intro fast_two_sum_pos[of c a b x]) simp_all
  next
    case 2
    have "nearest c (- a + - b) (- x)" using n nearest_minus[of c "a + b" x] by simp
    hence "representable c (- x - - a)" using 2 assms
      by (intro fast_two_sum_pos[of c "- a" "- b" "- x"]) simp_all
    hence "representable c (- (x - a))" by simp
    thus ?thesis by (simp only: representable_minus)
  next
    case 3
    with assms(3) have "b = 0" by simp
    with 3 n have "x = 0" using nearest_exact[of c 0 x] by simp
    thus ?thesis using 3 by simp
  qed
qed

text \<open>The relative error of rounding a multiple of the smallest unit.\<close>

lemma binade: "0 < (x::real) \<Longrightarrow> \<exists>e::int. 2 powi e \<le> x \<and> x < 2 powi (e + 1)"
proof -
  assume "0 < (x::real)"
  have "\<lfloor>log 2 x\<rfloor> = \<lfloor>log 2 x\<rfloor>" ..
  hence "2 powr real_of_int \<lfloor>log 2 x\<rfloor> \<le> x \<and> x < 2 powr real_of_int (\<lfloor>log 2 x\<rfloor> + 1)"
    using floor_log_eq_powr_iff[of x 2 "\<lfloor>log 2 x\<rfloor>"] \<open>0 < x\<close> by simp
  hence "2 powi \<lfloor>log 2 x\<rfloor> \<le> x \<and> x < 2 powi (\<lfloor>log 2 x\<rfloor> + 1)"
    by (simp only: powr_real_of_int'[of 2, simplified])
  thus ?thesis by blast
qed

lemma nearest_rel_error_pos:
  assumes n: "nearest c x r" and m: "mult2 (qmin c) x" and p: "1 \<le> digits c" and "0 < x"
  shows "\<bar>r - x\<bar> \<le> x * 2 powi (- digits c)"
proof -
  from binade[OF \<open>0 < x\<close>] obtain e :: int where e: "2 powi e \<le> x" "x < 2 powi (e + 1)" by blast
  define u where "u = e - digits c + 1"
  have up: "u + digits c = e + 1" unfolding u_def by simp
  show ?thesis
  proof (cases "u \<le> qmin c")
    case True
    have "x < 2 powi (u + digits c)" using e(2) up by simp
    also have "\<dots> \<le> 2 powi (qmin c + digits c)" using True by (intro two_powi_mono) simp
    finally have "representable c x" using m p \<open>0 < x\<close>
      by (intro representable_grid[of "qmin c"]) simp_all
    with n have "r = x" by (rule nearest_exact)
    thus ?thesis using \<open>0 < x\<close> by simp
  next
    case False
    define k where "k = \<lfloor>x / 2 powi u\<rfloor>"
    let ?lo = "of_int k * (2::real) powi u" and ?hi = "of_int (k + 1) * (2::real) powi u"
    have k1: "of_int k \<le> x / 2 powi u" and k2: "x / 2 powi u < of_int (k + 1)"
      unfolding k_def by linarith+
    have lo: "?lo \<le> x" using k1 by (simp add: pos_le_divide_eq)
    have hi: "x < ?hi" using k2 by (simp only: pos_divide_less_eq two_powi_pos)
    have "0 \<le> k" unfolding k_def using \<open>0 < x\<close> by simp
    hence lo0: "0 \<le> ?lo" by simp
    have "x / 2 powi u < 2 powi (u + digits c) / 2 powi u" using e(2) up
      by (simp add: divide_strict_right_mono)
    also have "\<dots> = 2 powi digits c" by (simp add: power_int_add)
    also have "\<dots> = of_int (2 ^ nat (digits c))" using p by (intro two_powi_nat) simp
    finally have "of_int k < (of_int (2 ^ nat (digits c)) :: real)" using k1 by linarith
    hence "k < 2 ^ nat (digits c)" by (simp only: of_int_less_iff)
    hence "k + 1 \<le> 2 ^ nat (digits c)" by simp
    hence "(of_int (k + 1) :: real) \<le> of_int (2 ^ nat (digits c))" by (simp only: of_int_le_iff)
    also have "\<dots> = 2 powi digits c" using p two_powi_nat[of "digits c"] by simp
    finally have "?hi \<le> 2 powi digits c * 2 powi u" by (simp only: mult_le_cancel_right_pos two_powi_pos)
    hence hib: "?hi \<le> 2 powi (u + digits c)" by (simp add: power_int_add mult.commute)
    have hi0: "0 \<le> ?hi" using \<open>0 \<le> k\<close> by simp
    have "representable c ?hi" using False hib hi0 p
      by (intro representable_grid[of u]) (simp_all add: mult2_I del: of_int_add)
    from nearest_closest[OF n this] have 1: "\<bar>r - x\<bar> \<le> ?hi - x" using hi by simp
    have "?lo \<le> 2 powi (u + digits c)" using lo e(2) up by simp
    hence "representable c ?lo" using False lo0 p
      by (intro representable_grid[of u]) (simp_all add: mult2_I)
    from nearest_closest[OF n this] have 2: "\<bar>r - x\<bar> \<le> x - ?lo" using lo by simp
    have "?hi - ?lo = 2 powi u" by (simp add: algebra_simps)
    with 1 2 have "\<bar>r - x\<bar> \<le> 2 powi u / 2" by linarith
    also have "(2::real) powi u = 2 powi (e + 1) * 2 powi (- digits c)"
    proof -
      have "u = (e + 1) + (- digits c)" unfolding u_def by simp
      moreover have "(2::real) powi ((e + 1) + (- digits c)) = 2 powi (e + 1) * 2 powi (- digits c)"
        by (rule power_int_add) simp
      ultimately show ?thesis by simp
    qed
    also have "\<dots> / 2 = 2 powi e * 2 powi (- digits c)" by (simp add: two_powi_Suc)
    also have "\<dots> \<le> x * 2 powi (- digits c)" using e(1) by (simp only: mult_le_cancel_right_pos two_powi_pos)
    finally show ?thesis .
  qed
qed

lemma nearest_rel_error:
  assumes n: "nearest c x r" and m: "mult2 (qmin c) x" and p: "1 \<le> digits c"
  shows "\<bar>r - x\<bar> \<le> \<bar>x\<bar> * 2 powi (- digits c)"
proof -
  consider "0 < x" | "x < 0" | "x = 0" by linarith
  thus ?thesis
  proof cases
    case 1
    from nearest_rel_error_pos[OF n m p 1] 1 show ?thesis by simp
  next
    case 2
    have "nearest c (- x) (- r)" using n by (simp only: nearest_minus)
    moreover have "mult2 (qmin c) (- x)" using m by simp
    ultimately have "\<bar>- r - - x\<bar> \<le> - x * 2 powi (- digits c)" using p 2
      by (intro nearest_rel_error_pos) simp_all
    moreover have "\<bar>- r - - x\<bar> = \<bar>r - x\<bar>" by (simp add: abs_if)
    ultimately show ?thesis using 2 by simp
  next
    case 3
    with n have "r = 0" using nearest_exact[of c 0 r] by simp
    with 3 show ?thesis by simp
  qed
qed

subsection \<open>The sum of two numbers and its rounding error\<close>

lemma nearest_abs_lower:
  assumes n: "nearest c x r" and a: "representable c a" and "\<bar>a\<bar> < \<bar>x\<bar>"
  shows "\<bar>a\<bar> \<le> \<bar>r\<bar>"
proof (cases "0 \<le> x")
  case True
  have "representable c \<bar>a\<bar>" using a by (simp add: abs_if)
  from nearest_lower[OF n this] assms(3) True show ?thesis by simp
next
  case False
  have "representable c (- \<bar>a\<bar>)" using a by (simp add: abs_if)
  from nearest_upper[OF n this] assms(3) False show ?thesis by simp
qed

lemma two_sum_exact:
  assumes a: "representable c a" and b: "representable c b"
    and x: "nearest c (a + b) x" and bv: "nearest c (x - a) bv" and av: "nearest c (x - bv) av"
    and br: "nearest c (b - bv) br" and ar: "nearest c (a - av) ar" and y: "nearest c (ar + br) y"
    and p: "3 \<le> digits c"
  shows "x + y = a + b"
proof -
  have p1: "1 \<le> digits c" using p by simp
  have rx: "representable c x" using x by (rule nearest_representable)
  have err: "representable c (a + b - x)" using a b x p1 by (rule error_representable)
  have easy: ?thesis if "representable c (x - a)"
  proof -
    have 1: "bv = x - a" using bv that by (rule nearest_exact)
    have 2: "av = a" using av a nearest_exact[of c a av] unfolding 1 by simp
    have 3: "br = a + b - x" using br err nearest_exact[of c "a + b - x" br] unfolding 1
      by (simp add: algebra_simps)
    have 4: "ar = 0" using ar nearest_exact[of c 0 ar] unfolding 2 by simp
    have "y = a + b - x" using y err nearest_exact[of c "a + b - x" y] unfolding 3 4 by simp
    thus ?thesis by simp
  qed
  show ?thesis
  proof (cases "\<bar>b\<bar> \<le> \<bar>a\<bar>")
    case True
    from fast_two_sum_exact[OF a b True x p1] show ?thesis by (rule easy)
  next
    case ab: False
    show ?thesis
    proof (cases "\<bar>a\<bar> \<le> \<bar>x\<bar>")
      case False
      have "\<bar>a + b\<bar> \<le> \<bar>a\<bar>" using nearest_abs_lower[OF x a] False by linarith
      hence "representable c (a + b)" using a b ab p1 by (intro representable_sum) simp_all
      with x have "x = a + b" by (rule nearest_exact)
      hence "x - a = b" by simp
      with b show ?thesis by (intro easy) simp
    next
      case True
      have bv': "nearest c (x + - a) bv" using bv by simp
      have "representable c (bv - x)" using rx a True bv' p1
        by (intro fast_two_sum_exact[of c x "- a" bv]) simp_all
      hence "representable c (- (bv - x))" by (simp only: representable_minus)
      hence "representable c (x - bv)" by simp
      with av have 1: "av = x - bv" by (rule nearest_exact)
      have "representable c (x + - a - bv)" using rx a bv' p1
        by (intro error_representable) simp_all
      hence "representable c (- (x + - a - bv))" by (simp only: representable_minus)
      hence "representable c (a - av)" unfolding 1 by (simp add: algebra_simps)
      with ar have 2: "ar = a - av" by (rule nearest_exact)
      define d :: real where "d = 2 powi (- digits c)"
      have "d \<le> 2 powi (- 3)" unfolding d_def using p by (intro two_powi_mono) simp
      hence d8: "d \<le> 1 / 8" by simp
      have d0: "0 < d" unfolding d_def by simp
      have "mult2 (qmin c) (a + b)" using a b by (intro mult2_add representable_mult2)
      from nearest_rel_error[OF x this p1] have "\<bar>x - (a + b)\<bar> \<le> \<bar>a + b\<bar> * d" unfolding d_def .
      also have "\<dots> \<le> (2 * \<bar>b\<bar>) * d" using ab d0 by (intro mult_right_mono) simp_all
      finally have e1: "\<bar>x - (a + b)\<bar> \<le> 2 * \<bar>b\<bar> * d" .
      have "2 * \<bar>b\<bar> * d \<le> 2 * \<bar>b\<bar> * (1 / 8)" using d8 by (intro mult_left_mono) simp_all
      with e1 have e1': "\<bar>x - (a + b)\<bar> \<le> \<bar>b\<bar> / 4" by simp
      have "mult2 (qmin c) (x - a)" using a rx by (intro mult2_diff representable_mult2)
      from nearest_rel_error[OF bv this p1] have "\<bar>bv - (x - a)\<bar> \<le> \<bar>x - a\<bar> * d" unfolding d_def .
      also have "\<dots> \<le> (5 / 4 * \<bar>b\<bar>) * d"
      proof (rule mult_right_mono)
        show "\<bar>x - a\<bar> \<le> 5 / 4 * \<bar>b\<bar>" using e1' by linarith
      qed (use d0 in simp)
      also have "\<dots> \<le> (5 / 4 * \<bar>b\<bar>) * (1 / 8)" using d8 by (intro mult_left_mono) simp_all
      finally have e2: "\<bar>bv - (x - a)\<bar> \<le> \<bar>b\<bar> / 4" by simp
      have "\<bar>b - bv\<bar> \<le> \<bar>b\<bar> / 2" using e1' e2 by linarith
      hence "\<bar>b - bv\<bar> \<le> \<bar>b\<bar>" "\<bar>b - bv\<bar> \<le> \<bar>bv\<bar>" by linarith+
      hence "representable c (b - bv)" using b nearest_representable[OF bv] p1
        by (intro representable_diff)
      with br have 3: "br = b - bv" by (rule nearest_exact)
      have "ar + br = a + b - x" unfolding 1 2 3 by simp
      with y err have "y = a + b - x" using nearest_exact[of c "a + b - x" y] by simp
      thus ?thesis by simp
    qed
  qed
qed

subsection \<open>\<open>round_to\<close> rounds to nearest\<close>

lemma rne_shift_half:
  assumes "1 \<le> k"
  shows "\<bar>real_of_int (rne_shift m k) - of_int m / 2 ^ k\<bar> \<le> 1 / 2"
proof -
  define d where "d = m div 2 ^ k"
  define r where "r = m mod 2 ^ k"
  define h :: int where "h = 2 ^ (k - 1)"
  have k: "(2::int) ^ k = 2 * h" unfolding h_def using assms by (cases k) simp_all
  have m: "m = d * (2 * h) + r" unfolding d_def r_def k[symmetric] by (rule div_mult_mod_eq[symmetric])
  have r0: "0 \<le> r" and r1: "r < 2 * h" unfolding r_def k[symmetric] by simp_all
  have h0: "0 < h" unfolding h_def by simp
  have kr: "(2::real) ^ k = 2 * of_int h" using k by (metis of_int_numeral of_int_power of_int_mult)
  have y: "of_int m / (2::real) ^ k = of_int d + of_int r / (2 * of_int h)"
    unfolding kr using h0 by (simp add: m field_simps)
  have rr: "m - push_bit k (drop_bit k m) = r"
    unfolding r_def by (simp add: push_bit_eq_mult drop_bit_eq_div minus_div_mult_eq_mod)
  have n: "rne_shift m k = (if r < h then d else if h < r then d + 1 else if even d then d else d + 1)"
    unfolding rne_shift_def Let_def rr unfolding d_def h_def
    by (simp add: push_bit_eq_mult drop_bit_eq_div)
  have hr: "0 < real_of_int h" using h0 by simp
  have q0: "0 \<le> real_of_int r / (2 * of_int h)" using r0 h0 by simp
  have q1: "real_of_int r / (2 * of_int h) < 1" using r1 h0
  proof -
    have "real_of_int r < of_int (2 * h)" using r1 by (simp only: of_int_less_iff)
    thus ?thesis using hr by (simp add: pos_divide_less_eq)
  qed
  consider "r < h" | "h < r" | "r = h" by linarith
  thus ?thesis
  proof cases
    case 1
    hence "real_of_int r < of_int h" by simp
    hence "real_of_int r / (2 * of_int h) < 1 / 2" using hr by (simp add: pos_divide_less_eq)
    thus ?thesis unfolding y n using 1 q0 by simp
  next
    case 2
    hence "real_of_int h < of_int r" by simp
    hence "1 / 2 < real_of_int r / (2 * of_int h)" using hr by (simp add: pos_less_divide_eq)
    thus ?thesis unfolding y n using 2 q1 by simp
  next
    case 3
    hence "real_of_int r / (2 * of_int h) = 1 / 2" using hr by simp
    hence "of_int m / (2::real) ^ k = of_int d + 1 / 2" unfolding y by simp
    moreover have "rne_shift m k = d \<or> rne_shift m k = d + 1" unfolding n using 3 by simp
    ultimately show ?thesis by auto
  qed
qed

lemma closest_int:
  assumes "\<bar>real_of_int n - y\<bar> \<le> 1 / 2"
  shows "\<bar>real_of_int n - y\<bar> \<le> \<bar>real_of_int j - y\<bar>"
proof (cases "j = n")
  case False
  hence "1 \<le> \<bar>j - n\<bar>" by simp
  hence "1 \<le> real_of_int \<bar>j - n\<bar>" by (simp only: of_int_1_le_iff)
  hence "1 \<le> \<bar>real_of_int j - real_of_int n\<bar>" by simp
  thus ?thesis using assms by linarith
qed simp

lemma nearest_grid:
  assumes q: "qmin c \<le> q" and ub: "\<bar>x\<bar> < 2 powi (q + digits c)"
    and lb: "q = qmin c \<or> 2 powi (q + digits c - 1) \<le> \<bar>x\<bar>"
    and n: "\<bar>real_of_int n - x / 2 powi q\<bar> \<le> 1 / 2" and p: "1 \<le> digits c"
  shows "nearest c x (of_int n * 2 powi q)"
proof -
  define y where "y = x / 2 powi q"
  have x: "x = y * 2 powi q" unfolding y_def by simp
  have A: "\<bar>of_int n * 2 powi q - x\<bar> \<le> \<bar>of_int j * 2 powi q - x\<bar>" for j :: int
  proof -
    have "\<bar>of_int i * 2 powi q - x\<bar> = \<bar>real_of_int i - y\<bar> * 2 powi q" for i :: int
      unfolding x by (simp add: abs_mult left_diff_distrib[symmetric])
    moreover have "\<bar>real_of_int n - y\<bar> \<le> \<bar>real_of_int j - y\<bar>"
      using n unfolding y_def[symmetric] by (rule closest_int)
    ultimately show ?thesis by (simp only: mult_le_cancel_right_pos two_powi_pos)
  qed
  have "\<bar>y\<bar> * 2 powi q < 2 powi digits c * 2 powi q"
    using ub unfolding x by (simp add: abs_mult power_int_add mult.commute)
  hence "\<bar>y\<bar> < 2 powi digits c" by (simp only: mult_less_cancel_right_pos two_powi_pos)
  hence "\<bar>y\<bar> < of_int (2 ^ nat (digits c))" using two_powi_nat[of "digits c"] p by simp
  moreover have "\<bar>real_of_int n\<bar> \<le> \<bar>y\<bar> + 1 / 2" using n unfolding y_def[symmetric] by linarith
  ultimately have "\<bar>real_of_int n\<bar> < of_int (2 ^ nat (digits c)) + 1" by linarith
  hence "real_of_int \<bar>n\<bar> < of_int (2 ^ nat (digits c) + 1)" by simp
  hence "\<bar>n\<bar> < 2 ^ nat (digits c) + 1" by (simp only: of_int_less_iff)
  hence "\<bar>n\<bar> \<le> 2 ^ nat (digits c)" by simp
  hence "real_of_int \<bar>n\<bar> \<le> of_int (2 ^ nat (digits c))" by (simp only: of_int_le_iff)
  hence "real_of_int \<bar>n\<bar> \<le> 2 powi digits c" using two_powi_nat[of "digits c"] p by simp
  hence "real_of_int \<bar>n\<bar> * 2 powi q \<le> 2 powi digits c * 2 powi q"
    by (simp only: mult_le_cancel_right_pos two_powi_pos)
  hence "\<bar>real_of_int n * 2 powi q\<bar> \<le> 2 powi (q + digits c)"
    by (simp add: abs_mult power_int_add mult.commute)
  hence rep: "representable c (of_int n * 2 powi q)" using q p
    by (intro representable_grid[of q]) (simp_all add: mult2_I)
  show ?thesis unfolding nearest_def
  proof (intro conjI allI impI)
    fix f assume "representable c f"
    then obtain mf ef where f: "f = of_int mf * 2 powi ef" "\<bar>mf\<bar> < 2 ^ nat (digits c)" "qmin c \<le> ef"
      unfolding representable_def by blast
    show "\<bar>of_int n * 2 powi q - x\<bar> \<le> \<bar>f - x\<bar>"
    proof (cases "q \<le> ef")
      case True
      have "mult2 q f" unfolding f(1) by (rule mult2_le[OF mult2_I True])
      then obtain j :: int where "f = of_int j * 2 powi q" unfolding mult2_def by blast
      thus ?thesis using A[of j] by simp
    next
      case False
      let ?G = "(2::real) powi (q + digits c - 1)"
      have G: "?G \<le> \<bar>x\<bar>" using lb False f(3) by auto
      have "\<bar>f\<bar> < 2 powi (ef + digits c)" unfolding f(1) using representable_bound[OF f(2)] p by simp
      also have "\<dots> \<le> ?G" using False by (intro two_powi_mono) simp
      finally have fG: "\<bar>f\<bar> < ?G" .
      have Gj: "?G = of_int (2 ^ nat (digits c - 1)) * 2 powi q"
        using two_powi_split[of q "q + digits c - 1"] p by simp
      show ?thesis
      proof (cases "0 \<le> x")
        case True
        from A[of "2 ^ nat (digits c - 1)"] have "\<bar>of_int n * 2 powi q - x\<bar> \<le> \<bar>?G - x\<bar>"
          unfolding Gj[symmetric] .
        thus ?thesis using G fG True by linarith
      next
        case neg: False
        have "- ?G = of_int (- (2 ^ nat (digits c - 1))) * 2 powi q" using Gj by simp
        with A[of "- (2 ^ nat (digits c - 1))"] have "\<bar>of_int n * 2 powi q - x\<bar> \<le> \<bar>- ?G - x\<bar>"
          by simp
        thus ?thesis using G fG neg by linarith
      qed
    qed
  qed (rule rep)
qed

lemma nearest_self: "representable c x \<Longrightarrow> nearest c x x"
  unfolding nearest_def by simp

lemma normal_val:
  assumes "normal c M q = Fin m' e'" "1 \<le> digits c"
  shows "real_of_int m' * 2 powi e' = of_int M * 2 powi q"
proof (cases "\<bar>M\<bar> = push_bit (nat (digits c)) 1")
  case True
  have "nat (digits c) = Suc (nat (digits c - 1))" using assms(2) by simp
  hence "\<bar>M\<bar> = 2 * 2 ^ nat (digits c - 1)" using True by (simp add: push_bit_eq_mult)
  hence "even M" by (metis dvd_triv_left even_abs_add_iff even_add)
  then obtain h where h: "M = 2 * h" by (elim evenE)
  from assms(1) True have "m' = h" "e' = q + 1"
    unfolding normal_def Let_def h by (simp_all add: drop_bit_eq_div split: if_splits)
  thus ?thesis by (simp add: h two_powi_Suc)
next
  case False
  with assms(1) have "m' = M" "e' = q" unfolding normal_def Let_def by (simp_all split: if_splits)
  thus ?thesis by simp
qed

lemma bitlen_real_bounds:
  assumes "m \<noteq> 0"
  shows "2 powi (bitlen \<bar>m\<bar> - 1 + e) \<le> \<bar>real_of_int m * 2 powi e\<bar>"
    and "\<bar>real_of_int m * 2 powi e\<bar> < 2 powi (bitlen \<bar>m\<bar> + e)"
proof -
  let ?b = "bitlen \<bar>m\<bar>"
  have pos: "0 < \<bar>m\<bar>" using assms by simp
  from bitlen_bounds[OF pos] have 1: "2 ^ nat (?b - 1) \<le> \<bar>m\<bar>" and 2: "\<bar>m\<bar> < 2 ^ nat ?b" by simp_all
  have b: "1 \<le> ?b" using pos by (simp add: bitlen_alt_def)
  have "real_of_int (2 ^ nat (?b - 1)) \<le> of_int \<bar>m\<bar>" using 1 by (simp only: of_int_le_iff)
  hence "2 powi (?b - 1) \<le> real_of_int \<bar>m\<bar>" using two_powi_nat[of "?b - 1"] b by simp
  hence "2 powi (?b - 1) * 2 powi e \<le> real_of_int \<bar>m\<bar> * 2 powi e"
    by (simp only: mult_le_cancel_right_pos two_powi_pos)
  thus "2 powi (?b - 1 + e) \<le> \<bar>real_of_int m * 2 powi e\<bar>"
    by (simp add: abs_mult power_int_add)
  show "\<bar>real_of_int m * 2 powi e\<bar> < 2 powi (?b + e)"
    using representable_bound[OF 2, of e] b by (simp add: add.commute)
qed

lemma round_to_nearest:
  assumes r: "round_to c m e = Fin m' e'" and p: "1 \<le> digits c"
  shows "nearest c (of_int m * 2 powi e) (of_int m' * 2 powi e')"
proof (cases "m = 0")
  case True
  with r have "m' = 0" unfolding round_to_def by simp
  with True show ?thesis by (simp add: nearest_self)
next
  case False
  let ?x = "real_of_int m * 2 powi e"
  define q where "q = max (bitlen \<bar>m\<bar> + e - digits c) (qmin c)"
  have q: "qmin c \<le> q" "bitlen \<bar>m\<bar> + e - digits c \<le> q" unfolding q_def by simp_all
  have "\<bar>?x\<bar> < 2 powi (bitlen \<bar>m\<bar> + e)" by (rule bitlen_real_bounds(2)[OF False])
  also have "\<dots> \<le> 2 powi (q + digits c)" using q(2) by (intro two_powi_mono) simp
  finally have ub: "\<bar>?x\<bar> < 2 powi (q + digits c)" .
  show ?thesis
  proof (cases "q \<le> e")
    case True
    with r False have "normal c (push_bit (nat (e - q)) m) q = Fin m' e'"
      unfolding round_to_def q_def[symmetric] Let_def by simp
    from normal_val[OF this p] have "real_of_int m' * 2 powi e' = of_int (m * 2 ^ nat (e - q)) * 2 powi q"
      by (simp add: push_bit_eq_mult)
    also have "\<dots> = ?x" using two_powi_split[OF True] by simp
    finally have eq: "real_of_int m' * 2 powi e' = ?x" .
    have "mult2 q ?x" by (rule mult2_le[OF mult2_I True])
    hence "representable c ?x" using q(1) ub p by (intro representable_grid[of q]) simp_all
    thus ?thesis unfolding eq by (rule nearest_self)
  next
    case shift: False
    define k where "k = nat (q - e)"
    define n where "n = rne_shift m k"
    have k: "1 \<le> k" "q = e + int k" unfolding k_def using shift by simp_all
    from r False shift have "normal c n q = Fin m' e'"
      unfolding round_to_def q_def[symmetric] Let_def n_def k_def by simp
    from normal_val[OF this p] have eq: "real_of_int m' * 2 powi e' = of_int n * 2 powi q" .
    have "(2::real) powi q = 2 powi e * 2 ^ k" unfolding k(2) by (simp add: power_int_add)
    hence y: "?x / 2 powi q = of_int m / 2 ^ k" by simp
    have lb: "q = qmin c \<or> 2 powi (q + digits c - 1) \<le> \<bar>?x\<bar>"
    proof (cases "q = qmin c")
      case neq: False
      hence "q = bitlen \<bar>m\<bar> + e - digits c" unfolding q_def by simp
      hence "q + digits c - 1 = bitlen \<bar>m\<bar> - 1 + e" by simp
      hence "2 powi (q + digits c - 1) \<le> \<bar>?x\<bar>"
        using bitlen_real_bounds(1)[OF False, of e] by (simp only:)
      thus ?thesis ..
    qed simp
    have "\<bar>real_of_int n - ?x / 2 powi q\<bar> \<le> 1 / 2"
      unfolding y n_def by (rule rne_shift_half[OF k(1)])
    from nearest_grid[OF q(1) ub lb this p] show ?thesis unfolding eq .
  qed
qed

subsection \<open>The operations on finite values\<close>

lemma align_val: "e' \<le> e \<Longrightarrow> real_of_int (align m e e') * 2 powi e' = of_int m * 2 powi e"
  unfolding align_def using two_powi_split[of e' e] by (simp add: push_bit_eq_mult)

lemma finite_representable: "finite_fl c (Fin m e) \<Longrightarrow> representable c (val (Fin m e))"
  unfolding representable_def by auto

lemma fadd_nearest:
  assumes "fadd c a b = Fin m e" "1 \<le> digits c"
  shows "nearest c (val a + val b) (val (Fin m e))"
proof -
  from assms(1) obtain m1 e1 m2 e2 where ab: "a = Fin m1 e1" "b = Fin m2 e2"
    by (cases a; cases b) simp_all
  let ?e = "min e1 e2"
  have s: "real_of_int (align m1 e1 ?e + align m2 e2 ?e) * 2 powi ?e = val a + val b"
    unfolding ab by (simp add: distrib_right align_val)
  consider "m1 = 0" | "m1 \<noteq> 0" "m2 = 0" | "m1 \<noteq> 0" "m2 \<noteq> 0" by blast
  thus ?thesis
  proof cases
    case 1
    with assms(1) have "round_to c m2 e2 = Fin m e" unfolding ab by simp
    from round_to_nearest[OF this assms(2)] 1 show ?thesis unfolding ab by simp
  next
    case 2
    with assms(1) have "round_to c m1 e1 = Fin m e" unfolding ab by simp
    from round_to_nearest[OF this assms(2)] 2 show ?thesis unfolding ab by simp
  next
    case 3
    with assms(1) have "round_to c (align m1 e1 ?e + align m2 e2 ?e) ?e = Fin m e" unfolding ab by simp
    from round_to_nearest[OF this assms(2)] show ?thesis unfolding s by simp
  qed
qed

lemma fadd_Fin:
  assumes "fadd c a b = Fin m e"
  obtains m1 e1 m2 e2 where "a = Fin m1 e1" "b = Fin m2 e2"
  using assms by (cases a; cases b) simp_all

lemma fsub_nearest:
  assumes "fsub c a b = Fin m e" "1 \<le> digits c"
  shows "nearest c (val a - val b) (val (Fin m e))"
proof -
  from assms(1) obtain m1 e1 m2 e2 where ab: "a = Fin m1 e1" "b = Fin m2 e2"
    unfolding fsub_def by (cases a; cases b) simp_all
  hence "val (fneg b) = - val b" "fadd c a (fneg b) = Fin m e"
    using assms(1) unfolding fsub_def by simp_all
  with fadd_nearest[of c a "fneg b" m e] assms(2) show ?thesis by simp
qed

lemma fsub_Fin:
  assumes "fsub c a b = Fin m e"
  obtains m1 e1 m2 e2 where "a = Fin m1 e1" "b = Fin m2 e2"
  using assms unfolding fsub_def by (cases a; cases b) simp_all


subsection \<open>The results are in the encoding of the hardware\<close>

lemma int_round_bounds:
  assumes "\<bar>real_of_int n - y\<bar> \<le> 1 / 2" "0 \<le> p"
  shows "\<bar>y\<bar> < 2 powi p \<Longrightarrow> \<bar>n\<bar> \<le> 2 ^ nat p"
    and "2 powi p \<le> \<bar>y\<bar> \<Longrightarrow> 2 ^ nat p \<le> \<bar>n\<bar>"
proof -
  have P: "(2::real) powi p = of_int (2 ^ nat p)" using assms(2) by (rule two_powi_nat)
  have a: "\<bar>real_of_int n\<bar> \<le> \<bar>y\<bar> + 1 / 2" "\<bar>y\<bar> \<le> \<bar>real_of_int n\<bar> + 1 / 2"
    using assms(1) by linarith+
  {
    assume "\<bar>y\<bar> < 2 powi p"
    hence "real_of_int \<bar>n\<bar> < of_int (2 ^ nat p + 1)" using a(1) unfolding P by simp
    hence "\<bar>n\<bar> < 2 ^ nat p + 1" by (simp only: of_int_less_iff)
    thus "\<bar>n\<bar> \<le> 2 ^ nat p" by simp
  }
  {
    assume "2 powi p \<le> \<bar>y\<bar>"
    hence "real_of_int (2 ^ nat p - 1) < of_int \<bar>n\<bar>" using a(2) unfolding P by simp
    hence "2 ^ nat p - 1 < \<bar>n\<bar>" by (simp only: of_int_less_iff)
    thus "2 ^ nat p \<le> \<bar>n\<bar>" by simp
  }
qed

lemma normal_finite:
  assumes n: "normal c M q = Fin m' e'" and ub: "\<bar>M\<bar> \<le> 2 ^ nat (digits c)" and q: "qmin c \<le> q"
    and lb: "q = qmin c \<or> 2 ^ nat (digits c - 1) \<le> \<bar>M\<bar>" and p: "1 \<le> digits c"
  shows "finite_fl c (Fin m' e')"
proof (cases "\<bar>M\<bar> = push_bit (nat (digits c)) 1")
  case True
  have pS: "nat (digits c) = Suc (nat (digits c - 1))" using p by simp
  hence M: "\<bar>M\<bar> = 2 * 2 ^ nat (digits c - 1)" using True by (simp add: push_bit_eq_mult)
  hence "even M" by (metis dvd_triv_left even_abs_add_iff even_add)
  then obtain h where h: "M = 2 * h" by (elim evenE)
  have ah: "\<bar>h\<bar> = 2 ^ nat (digits c - 1)" using M unfolding h by (simp add: abs_mult)
  from n True have r: "m' = h" "e' = q + 1" "\<not> qmax c < q + 1"
    unfolding normal_def Let_def h by (simp_all add: drop_bit_eq_div split: if_splits)
  show ?thesis unfolding r(1,2) using ah r(3) q by (simp add: pS)
next
  case False
  with n have r: "m' = M" "e' = q" "\<not> qmax c < q"
    unfolding normal_def Let_def by (simp_all split: if_splits)
  have "\<bar>M\<bar> < 2 ^ nat (digits c)" using ub False by (simp add: push_bit_eq_mult)
  thus ?thesis unfolding r(1,2) using r(3) q lb by simp
qed

lemma round_to_finite:
  assumes r: "round_to c m e = Fin m' e'" and v: "valid_fmt c"
  shows "finite_fl c (Fin m' e')"
proof (cases "m = 0")
  case True
  with r have "m' = 0" "e' = qmin c" unfolding round_to_def by simp_all
  thus ?thesis using v unfolding valid_fmt_def by simp
next
  case False
  have p: "1 \<le> digits c" "0 \<le> digits c" "0 \<le> digits c - 1" using v unfolding valid_fmt_def by simp_all
  define q where "q = max (bitlen \<bar>m\<bar> + e - digits c) (qmin c)"
  have q: "qmin c \<le> q" "bitlen \<bar>m\<bar> + e - digits c \<le> q" unfolding q_def by simp_all
  define y where "y = real_of_int m * 2 powi (e - q)"
  have "\<bar>y\<bar> < 2 powi (bitlen \<bar>m\<bar> + (e - q))"
    unfolding y_def by (rule bitlen_real_bounds(2)[OF False])
  also have "\<dots> \<le> 2 powi (digits c)" using q(2) by (intro two_powi_mono) simp
  finally have ub: "\<bar>y\<bar> < 2 powi (digits c)" .
  have lb: "2 powi (digits c - 1) \<le> \<bar>y\<bar>" if "q \<noteq> qmin c"
  proof -
    from that have "q = bitlen \<bar>m\<bar> + e - digits c" unfolding q_def by simp
    hence "digits c - 1 = bitlen \<bar>m\<bar> - 1 + (e - q)" by simp
    thus ?thesis unfolding y_def using bitlen_real_bounds(1)[OF False, of "e - q"] by (simp only:)
  qed
  show ?thesis
  proof (cases "q \<le> e")
    case True
    define M where "M = push_bit (nat (e - q)) m"
    from r False True have n: "normal c M q = Fin m' e'"
      unfolding round_to_def q_def[symmetric] Let_def M_def by simp
    have "real_of_int M = y" unfolding M_def y_def using True
      by (simp add: push_bit_eq_mult power_int_def)
    hence d: "\<bar>real_of_int M - y\<bar> \<le> 1 / 2" by simp
    have 1: "\<bar>M\<bar> \<le> 2 ^ nat (digits c)" using int_round_bounds(1)[OF d p(2) ub] .
    have 2: "q = qmin c \<or> 2 ^ nat (digits c - 1) \<le> \<bar>M\<bar>"
      using int_round_bounds(2)[OF d p(3)] lb by blast
    from n 1 q(1) 2 p(1) show ?thesis by (rule normal_finite)
  next
    case shift: False
    define k where "k = nat (q - e)"
    define M where "M = rne_shift m k"
    have k: "1 \<le> k" "e - q = - int k" unfolding k_def using shift by simp_all
    from r False shift have n: "normal c M q = Fin m' e'"
      unfolding round_to_def q_def[symmetric] Let_def M_def k_def by simp
    have "y = of_int m / 2 ^ k" unfolding y_def k(2) by (simp add: power_int_minus field_simps)
    hence d: "\<bar>real_of_int M - y\<bar> \<le> 1 / 2" unfolding M_def using rne_shift_half[OF k(1)] by simp
    have 1: "\<bar>M\<bar> \<le> 2 ^ nat (digits c)" using int_round_bounds(1)[OF d p(2) ub] .
    have 2: "q = qmin c \<or> 2 ^ nat (digits c - 1) \<le> \<bar>M\<bar>"
      using int_round_bounds(2)[OF d p(3)] lb by blast
    from n 1 q(1) 2 p(1) show ?thesis by (rule normal_finite)
  qed
qed

lemma fadd_finite:
  assumes "fadd c a b = Fin m e" "valid_fmt c"
  shows "finite_fl c (Fin m e)"
proof -
  from assms(1) obtain m1 e1 m2 e2 where ab: "a = Fin m1 e1" "b = Fin m2 e2"
    by (cases a; cases b) simp_all
  from assms(1) have "\<exists>M E. round_to c M E = Fin m e"
    unfolding ab by (simp split: if_splits) blast+
  then obtain M E where "round_to c M E = Fin m e" by blast
  thus ?thesis using assms(2) by (rule round_to_finite)
qed

lemma fsub_finite:
  assumes "fsub c a b = Fin m e" "valid_fmt c"
  shows "finite_fl c (Fin m e)"
proof -
  from assms(1) obtain m1 e1 m2 e2 where ab: "a = Fin m1 e1" "b = Fin m2 e2"
    unfolding fsub_def by (cases a; cases b) simp_all
  hence "fadd c a (fneg b) = Fin m e" using assms(1) unfolding fsub_def by simp
  thus ?thesis using assms(2) by (rule fadd_finite)
qed

lemma fmul_finite:
  assumes "fmul c a b = Fin m e" "valid_fmt c"
  shows "finite_fl c (Fin m e)"
proof -
  from assms(1) obtain m1 e1 m2 e2 where ab: "a = Fin m1 e1" "b = Fin m2 e2"
    by (cases a; cases b) (simp_all split: option.splits if_splits)
  from assms(1) have "round_to c (m1 * m2) (e1 + e2) = Fin m e" unfolding ab by simp
  thus ?thesis using assms(2) by (rule round_to_finite)
qed
section \<open>Stores stay inside the output arrays\<close>

lemma length_merge_abs: "length (merge_abs e f) = length e + length f"
  by (induction e f rule: merge_abs.induct) auto

lemma merge_abs_Nil2: "merge_abs e [] = e"
  by (cases e) auto

lemma nonzero_if: "nonzero x = (if \<not> is_zero x then [x] else [])"
  by (cases x) auto

lemma ExpansionSum_loop_refines:
  assumes "hIndex < g" "g + k \<le> length h"
  shows "\<exists>h' hIndex' Q'. ExpansionSum_loop c k g h hIndex Q = Some (h', hIndex', Q') \<and>
           length h' = length h \<and> hIndex' \<le> hIndex + k \<and>
           take hIndex' h' @ nonzero Q' = take hIndex h @ sum_sweep c Q (take k (drop g h))"
  using assms
proof (induction k arbitrary: g h hIndex Q)
  case 0
  then show ?case by simp
next
  case (Suc k)
  let ?x = "h ! g"
  let ?Qnew = "fadd c Q ?x"
  let ?hh = "PlusTail c Q ?x ?Qnew"
  from Suc.prems have g: "g < length h" by simp
  have tk: "take (Suc k) (drop g h) = ?x # take k (drop (Suc g) h)"
    using g by (simp add: take_Suc_conv_app_nth Cons_nth_drop_Suc[symmetric])
  show ?case
  proof (cases "is_zero ?hh")
    case True
    from Suc.IH[of hIndex "Suc g" h ?Qnew] Suc.prems
    obtain h' hIndex' Q' where r: "ExpansionSum_loop c k (Suc g) h hIndex ?Qnew = Some (h', hIndex', Q')"
      "length h' = length h" "hIndex' \<le> hIndex + k"
      "take hIndex' h' @ nonzero Q' = take hIndex h @ sum_sweep c ?Qnew (take k (drop (Suc g) h))"
      by auto
    show ?thesis using r True g by (simp add: tk Let_def nonzero_if)
  next
    case False
    let ?h1 = "h[hIndex := ?hh]"
    have st: "store h hIndex ?hh = Some ?h1" using Suc.prems by (simp add: store_def)
    from Suc.IH[of "Suc hIndex" "Suc g" ?h1 ?Qnew] Suc.prems
    obtain h' hIndex' Q' where r: "ExpansionSum_loop c k (Suc g) ?h1 (Suc hIndex) ?Qnew = Some (h', hIndex', Q')"
      "length h' = length ?h1" "hIndex' \<le> Suc hIndex + k"
      "take hIndex' h' @ nonzero Q' = take (Suc hIndex) ?h1 @ sum_sweep c ?Qnew (take k (drop (Suc g) ?h1))"
      by auto
    have t1: "take (Suc hIndex) ?h1 = take hIndex h @ [?hh]"
      using Suc.prems by (simp add: take_Suc_conv_app_nth)
    have d1: "drop (Suc g) ?h1 = drop (Suc g) h" using Suc.prems by simp
    show ?thesis using r False g st by (simp add: tk Let_def nonzero_if t1 d1)
  qed
qed

lemma ExpansionSum_refines:
  assumes "length e + length f \<le> length h"
  shows "\<exists>h' k. ExpansionSum c e f h = Some (h', k) \<and> length h' = length h \<and>
           k \<le> length e + length f \<and> take k h' = expansion_plus c e f"
proof -
  let ?g = "merge_abs e f"
  let ?h0 = "?g @ drop (length ?g) h"
  have sr: "store_range h ?g = Some ?h0" using assms by (simp add: store_range_def length_merge_abs)
  have l0: "length ?h0 = length h" using assms by (simp add: length_merge_abs)
  show ?thesis
  proof (cases "f = []")
    case True
    then show ?thesis using sr l0 by (simp add: ExpansionSum_def merge_abs_Nil2)
  next
    case fne: False
    show ?thesis
    proof (cases "e = []")
      case True
      then show ?thesis using sr l0 fne by (cases f) (simp_all add: ExpansionSum_def)
    next
      case ene: False
      have "2 \<le> length ?g" using ene fne
        by (cases e; cases f) (auto simp: length_merge_abs)
      then obtain a b gs where g: "?g = a # b # gs"
        by (cases ?g; cases "tl ?g") auto
      let ?Qnew = "fadd c b a"
      let ?hh = "FastPlusTail c b a ?Qnew"
      let ?h1 = "if \<not> is_zero ?hh then ?h0[0 := ?hh] else ?h0"
      let ?i = "if \<not> is_zero ?hh then 1 else (0::nat)"
      have lg: "length gs = length e + length f - 2" using g length_merge_abs[of e f] by simp
      have l1: "length ?h1 = length h" using l0 by simp
      have "\<exists>h' hIndex' Q'. ExpansionSum_loop c (length gs) 2 ?h1 ?i ?Qnew = Some (h', hIndex', Q') \<and>
           length h' = length ?h1 \<and> hIndex' \<le> ?i + length gs \<and>
           take hIndex' h' @ nonzero Q' = take ?i ?h1 @ sum_sweep c ?Qnew (take (length gs) (drop 2 ?h1))"
        apply (rule ExpansionSum_loop_refines)
        using assms l1 lg g length_merge_abs[of e f] by auto
      then obtain h2 i2 Q2 where r: "ExpansionSum_loop c (length gs) 2 ?h1 ?i ?Qnew = Some (h2, i2, Q2)"
        "length h2 = length ?h1" "i2 \<le> ?i + length gs"
        "take i2 h2 @ nonzero Q2 = take ?i ?h1 @ sum_sweep c ?Qnew (take (length gs) (drop 2 ?h1))"
        by blast
      have ti: "take ?i ?h1 = nonzero ?hh" by (simp add: g nonzero_if)
      have dr: "take (length gs) (drop 2 ?h1) = gs" by (simp add: g)
      have i2: "i2 < length h2" using r(2,3) l1 assms lg g length_merge_abs[of e f] by (auto split: if_splits)
      have i2': "i2 + 1 \<le> length e + length f" using r(3) lg g length_merge_abs[of e f] by (auto split: if_splits)
      have ep: "expansion_plus c e f = nonzero ?hh @ sum_sweep c ?Qnew gs"
        using ene fne g by (cases e; cases f) (simp_all add: Let_def)
      have hd: "?h0 ! 0 = a" "?h0 ! Suc 0 = b" by (simp_all add: g)
      have es: "ExpansionSum c e f h =
        (if \<not> is_zero Q2 then (case store h2 i2 Q2 of None \<Rightarrow> None | Some h3 \<Rightarrow> Some (h3, i2 + 1))
         else Some (h2, i2))"
        using sr ene fne r(1) lg by (simp add: ExpansionSum_def Let_def hd del: ExpansionSum_loop.simps)
      show ?thesis
      proof (cases "is_zero Q2")
        case True
        then show ?thesis using es r l1 ti dr ep i2' by (simp add: nonzero_if)
      next
        case False
        have "store h2 i2 Q2 = Some (h2[i2 := Q2])" using i2 by (simp add: store_def)
        moreover have "take (i2 + 1) (h2[i2 := Q2]) = take i2 h2 @ [Q2]"
          using i2 by (simp add: take_Suc_conv_app_nth)
        ultimately show ?thesis using False es r l1 ti dr ep i2' by (simp add: nonzero_if)
      qed
    qed
  qed
qed


lemma ScaleExpansion_loop_refines:
  assumes "hIndex + 2 * length es \<le> length h"
  shows "\<exists>h' hIndex' Q'. ScaleExpansion_loop c b bSplit es h hIndex Q = Some (h', hIndex', Q') \<and>
           length h' = length h \<and> hIndex' \<le> hIndex + 2 * length es \<and>
           take hIndex' h' @ nonzero Q' = take hIndex h @ scale_sweep c b bSplit Q es"
  using assms
proof (induction es arbitrary: h hIndex Q)
  case Nil
  then show ?case by simp
next
  case (Cons ei es)
  let ?Ti = "fmul c ei b"
  let ?ti = "MultTailPreSplit c ei b bSplit ?Ti"
  let ?Qi = "fadd c Q ?ti"
  let ?hh = "PlusTail c Q ?ti ?Qi"
  let ?h1 = "if \<not> is_zero ?hh then h[hIndex := ?hh] else h"
  let ?i1 = "if \<not> is_zero ?hh then hIndex + 1 else hIndex"
  let ?Q' = "fadd c ?Ti ?Qi"
  let ?hh' = "FastPlusTail c ?Ti ?Qi ?Q'"
  let ?h2 = "if \<not> is_zero ?hh' then ?h1[?i1 := ?hh'] else ?h1"
  let ?i2 = "if \<not> is_zero ?hh' then ?i1 + 1 else ?i1"
  have s1: "(if \<not> is_zero ?hh then store h hIndex ?hh else Some h) = Some ?h1"
    using Cons.prems by (simp add: store_def)
  have s2: "(if \<not> is_zero ?hh' then store ?h1 ?i1 ?hh' else Some ?h1) = Some ?h2"
    using Cons.prems by (simp add: store_def)
  have l2: "length ?h2 = length h" by simp
  have "?i2 + 2 * length es \<le> length ?h2" using Cons.prems by simp
  from Cons.IH[OF this, of ?Q']
  obtain h' hIndex' Q' where r: "ScaleExpansion_loop c b bSplit es ?h2 ?i2 ?Q' = Some (h', hIndex', Q')"
    "length h' = length ?h2" "hIndex' \<le> ?i2 + 2 * length es"
    "take hIndex' h' @ nonzero Q' = take ?i2 ?h2 @ scale_sweep c b bSplit ?Q' es"
    by blast
  have t2: "take ?i2 ?h2 = take hIndex h @ nonzero ?hh @ nonzero ?hh'"
    using Cons.prems by (auto simp: nonzero_if take_Suc_conv_app_nth)
  have eq: "ScaleExpansion_loop c b bSplit (ei # es) h hIndex Q = ScaleExpansion_loop c b bSplit es ?h2 ?i2 ?Q'"
    using s1 s2 by (simp add: Let_def)
  have i2: "?i2 \<le> hIndex + 2" by simp
  show ?case unfolding eq using r l2 t2 i2 by (auto simp: Let_def)
qed

lemma ScaleExpansion_refines:
  assumes "2 * length e \<le> length h"
  shows "\<exists>h' k. ScaleExpansion c e b h = Some (h', k) \<and> length h' = length h \<and>
           k \<le> 2 * length e \<and> take k h' = expansion_scale c e b"
proof (cases e)
  case Nil
  then show ?thesis by (simp add: ScaleExpansion_def expansion_scale_def)
next
  case (Cons e0 es)
  show ?thesis
  proof (cases "is_zero b")
    case True
    then show ?thesis using Cons by (simp add: ScaleExpansion_def expansion_scale_def)
  next
    case bnz: False
    let ?Q = "fmul c e0 b"
    let ?bs = "Split c b"
    let ?hh = "MultTailPreSplit c e0 b ?bs ?Q"
    let ?h1 = "if \<not> is_zero ?hh then h[0 := ?hh] else h"
    let ?i1 = "if \<not> is_zero ?hh then 1 else (0::nat)"
    have s1: "(if \<not> is_zero ?hh then store h 0 ?hh else Some h) = Some ?h1"
      using assms Cons by (cases h) (auto simp: store_def)
    have "?i1 + 2 * length es \<le> length ?h1" using assms Cons by simp
    from ScaleExpansion_loop_refines[OF this, of c b ?bs ?Q]
    obtain h2 i2 Q2 where r: "ScaleExpansion_loop c b ?bs es ?h1 ?i1 ?Q = Some (h2, i2, Q2)"
      "length h2 = length ?h1" "i2 \<le> ?i1 + 2 * length es"
      "take i2 h2 @ nonzero Q2 = take ?i1 ?h1 @ scale_sweep c b ?bs ?Q es"
      by blast
    obtain h0 hs where hh: "h = h0 # hs" using assms Cons by (cases h) auto
    have t1: "take ?i1 ?h1 = nonzero ?hh" by (simp add: hh nonzero_if)
    have i2: "i2 < length h2" "i2 + 1 \<le> 2 * length e" using r(2,3) assms Cons by (auto split: if_splits)
    have ep: "expansion_scale c e b = nonzero ?hh @ scale_sweep c b ?bs ?Q es"
      using Cons bnz by (simp add: expansion_scale_def Let_def)
    have es: "ScaleExpansion c e b h =
        (if \<not> is_zero Q2 then (case store h2 i2 Q2 of None \<Rightarrow> None | Some h3 \<Rightarrow> Some (h3, i2 + 1))
         else Some (h2, i2))"
      using Cons bnz s1 r(1) by (simp add: ScaleExpansion_def Let_def)
    show ?thesis
    proof (cases "is_zero Q2")
      case True
      then show ?thesis using es r t1 ep i2 by (simp add: nonzero_if)
    next
      case False
      have "store h2 i2 Q2 = Some (h2[i2 := Q2])" using i2 by (simp add: store_def)
      moreover have "take (i2 + 1) (h2[i2 := Q2]) = take i2 h2 @ [Q2]"
        using i2 by (simp add: take_Suc_conv_app_nth)
      ultimately show ?thesis using False es r t1 ep i2 by (simp add: nonzero_if)
    qed
  qed
qed

lemma push_nonzero_refines:
  "length e + length xs \<le> N \<Longrightarrow>
     push_nonzero N xs e = Some (e @ filter (\<lambda>x. \<not> is_zero x) xs)"
  by (induction xs arbitrary: e) (auto simp: push_back_def)

lemma length_TwoTwoDiff_terms: "length (TwoTwoDiff_terms c ax by ay bx) = 4"
  by (simp add: TwoTwoDiff_terms_def Let_def)

lemma TwoTwoDiff_checked_refines:
  "TwoTwoDiff_checked c ax by ay bx = Some (TwoTwoDiff c ax by ay bx)"
  unfolding TwoTwoDiff_checked_def TwoTwoDiff_def
  using push_nonzero_refines[of "[]" "TwoTwoDiff_terms c ax by ay bx" 4]
  by (simp add: length_TwoTwoDiff_terms)

lemma length_TwoTwoDiff: "length (TwoTwoDiff c ax by ay bx) \<le> 4"
  unfolding TwoTwoDiff_def
  using length_filter_le[of "\<lambda>x. \<not> is_zero x" "TwoTwoDiff_terms c ax by ay bx"]
  by (simp add: length_TwoTwoDiff_terms)

lemma MakeExpansion_checked_refines:
  "MakeExpansion_checked v t = Some (MakeExpansion v t)"
  by (simp add: MakeExpansion_checked_def MakeExpansion_def push_back_def nonzero_if)

lemma length_MakeExpansion: "length (MakeExpansion v t) \<le> 2"
  by (simp add: MakeExpansion_def nonzero_if)

text \<open>
  Claim C10.  No store goes past the end of a backing array.  \<open>ExpansionSum\<close>, called by
  \<open>operator+\<close> on operands of capacities \<open>N\<close> and \<open>M\<close> with an output array of
  \<open>N + M\<close> elements, performs every store inside that array (the result is not \<open>None\<close>)
  and returns a count of at most \<open>n + m\<close>; \<open>ScaleExpansion\<close>, called by \<open>operator*\<close> with
  an output array of \<open>2 * N\<close> elements, likewise returns at most \<open>2 * n\<close>; the four
  \<open>push_back\<close> calls of \<open>TwoTwoDiff\<close> and the two of \<open>MakeExpansion\<close> each find
  \<open>m_size\<close> below the capacity 4 and 2.  In each case the components left in the array
  are those of the list function used in the predicates.
\<close>

theorem stores_stay_within_capacity:
  "(length e \<le> N \<and> length f \<le> M \<and> length h = N + M \<longrightarrow>
      (\<exists>h' k. ExpansionSum c e f h = Some (h', k) \<and> length h' = N + M \<and>
         k \<le> length e + length f \<and> take k h' = expansion_plus c e f)) \<and>
   (length e \<le> N \<and> length h2 = 2 * N \<longrightarrow>
      (\<exists>h' k. ScaleExpansion c e b h2 = Some (h', k) \<and> length h' = 2 * N \<and>
         k \<le> 2 * length e \<and> take k h' = expansion_scale c e b)) \<and>
   TwoTwoDiff_checked c ax by' ay bx = Some (TwoTwoDiff c ax by' ay bx) \<and>
   length (TwoTwoDiff c ax by' ay bx) \<le> 4 \<and>
   MakeExpansion_checked v t = Some (MakeExpansion v t) \<and>
   length (MakeExpansion v t) \<le> 2"
proof -
  have 1: "\<exists>h' k. ExpansionSum c e f h = Some (h', k) \<and> length h' = N + M \<and>
         k \<le> length e + length f \<and> take k h' = expansion_plus c e f"
    if "length e \<le> N" "length f \<le> M" "length h = N + M"
    using ExpansionSum_refines[of e f h c] that by auto
  have 2: "\<exists>h' k. ScaleExpansion c e b h2 = Some (h', k) \<and> length h' = 2 * N \<and>
         k \<le> 2 * length e \<and> take k h' = expansion_scale c e b"
    if "length e \<le> N" "length h2 = 2 * N"
    using ScaleExpansion_refines[of e h2 c b] that by auto
  show ?thesis
    using 1 2 TwoTwoDiff_checked_refines length_TwoTwoDiff MakeExpansion_checked_refines
      length_MakeExpansion by blast
qed

theorem stores_stay_within_capacity_witness:
  "(\<exists>h' k. ExpansionSum binary64 [Fin 4503599627370496 (- 52)] [Fin 4503599627370496 (- 53)]
        [Fin 0 (- 1074), Fin 0 (- 1074)] = Some (h', k) \<and> length h' = 1 + 1 \<and>
      k \<le> length [Fin 4503599627370496 (- 52)] + length [Fin 4503599627370496 (- 53)] \<and>
      take k h' = expansion_plus binary64 [Fin 4503599627370496 (- 52)] [Fin 4503599627370496 (- 53)]) \<and>
   (\<exists>h' k. ScaleExpansion binary64 [Fin 4503599627370496 (- 52)] (Fin 4503599627370496 (- 53))
        [Fin 0 (- 1074), Fin 0 (- 1074)] = Some (h', k) \<and> length h' = 2 * 1 \<and>
      k \<le> 2 * length [Fin 4503599627370496 (- 52)] \<and>
      take k h' = expansion_scale binary64 [Fin 4503599627370496 (- 52)] (Fin 4503599627370496 (- 53)))"
  using stores_stay_within_capacity[of "[Fin 4503599627370496 (- 52)]" 1
      "[Fin 4503599627370496 (- 53)]" 1 "[Fin 0 (- 1074), Fin 0 (- 1074)]" binary64
      "[Fin 0 (- 1074), Fin 0 (- 1074)]" "Fin 4503599627370496 (- 53)"]
  by simp
section \<open>The stages of the adaptive predicates\<close>

text \<open>
  Concrete inputs are values of \<open>double\<close>, written \<open>dbl m e\<close> for \<open>m * 2^e\<close>.
\<close>

lemma final_incircle:
  "fst (adaptive_incircle_at c pa pb pc pd) = Final \<Longrightarrow>
   adaptive_incircle c pa pb pc pd = exact_incircle c pa pb pc pd"
  by (cases pa; cases pb; cases pc; cases pd)
    (auto simp: adaptive_incircle_def adaptive_incircle_at_def Let_def split: if_splits)

lemma final_insphere:
  "fst (adaptive_insphere_at c pa pb pc pd pe) = Final \<Longrightarrow>
   adaptive_insphere c pa pb pc pd pe = exact_insphere c pa pb pc pd pe"
  by (cases pa rule: prod_cases3; cases pb rule: prod_cases3; cases pc rule: prod_cases3;
      cases pd rule: prod_cases3; cases pe rule: prod_cases3)
    (auto simp: adaptive_insphere_def adaptive_insphere_at_def Let_def split: if_splits)

text \<open>
  Claim C5, as the code has it.  When the three error-bound tests fail and not all
  tails are zero, \<open>adaptive::incircle\<close> and \<open>adaptive::insphere\<close> return the value of
  \<open>exact::incircle\<close> and \<open>exact::insphere\<close> on the same points.
\<close>

theorem final_stage_delegates_to_exact:
  "(fst (adaptive_incircle_at c pa pb pc pd) = Final \<longrightarrow>
      adaptive_incircle c pa pb pc pd = exact_incircle c pa pb pc pd) \<and>
   (fst (adaptive_insphere_at c qa qb qc qd qe) = Final \<longrightarrow>
      adaptive_insphere c qa qb qc qd qe = exact_insphere c qa qb qc qd qe)"
  using final_incircle final_insphere by blast

theorem final_stage_delegates_to_exact_witness:
  "fst (adaptive_incircle_at binary64 (dbl 1 0, dbl 0 0)
      (dbl 1 (- 100), dbl 1 0)
      (dbl (- 1)
      (- 100), dbl (- 1) 0)
      (dbl (- 1) 0, dbl 0 0)) = Final \<and>
   adaptive_incircle binary64 (dbl 1 0, dbl 0 0)
      (dbl 1 (- 100), dbl 1 0)
      (dbl (- 1)
      (- 100), dbl (- 1) 0)
      (dbl (- 1) 0, dbl 0 0) =
     exact_incircle binary64 (dbl 1 0, dbl 0 0)
      (dbl 1 (- 100), dbl 1 0)
      (dbl (- 1)
      (- 100), dbl (- 1) 0)
      (dbl (- 1) 0, dbl 0 0) \<and>
   fst (adaptive_insphere_at binary64 (dbl 1 0, dbl 0 0, dbl 0 0)
      (dbl 0 0, dbl 1 (- 60), dbl 1 0)
      (dbl (- 1) 0, dbl 0 0, dbl 0 0)
      (dbl 0 0, dbl (- 1) 0, dbl 0 0)
      (dbl 0 0, dbl 1 0, dbl 0 0)) = Final \<and>
   adaptive_insphere binary64 (dbl 1 0, dbl 0 0, dbl 0 0)
      (dbl 0 0, dbl 1 (- 60), dbl 1 0)
      (dbl (- 1) 0, dbl 0 0, dbl 0 0)
      (dbl 0 0, dbl (- 1) 0, dbl 0 0)
      (dbl 0 0, dbl 1 0, dbl 0 0) =
     exact_insphere binary64 (dbl 1 0, dbl 0 0, dbl 0 0)
      (dbl 0 0, dbl 1 (- 60), dbl 1 0)
      (dbl (- 1) 0, dbl 0 0, dbl 0 0)
      (dbl 0 0, dbl (- 1) 0, dbl 0 0)
      (dbl 0 0, dbl 1 0, dbl 0 0)"
proof -
  have 1: "fst (adaptive_incircle_at binary64 (dbl 1 0, dbl 0 0)
      (dbl 1 (- 100), dbl 1 0)
      (dbl (- 1)
      (- 100), dbl (- 1) 0)
      (dbl (- 1) 0, dbl 0 0)) = Final"
    by code_simp
  have 2: "fst (adaptive_insphere_at binary64 (dbl 1 0, dbl 0 0, dbl 0 0)
      (dbl 0 0, dbl 1 (- 60), dbl 1 0)
      (dbl (- 1) 0, dbl 0 0, dbl 0 0)
      (dbl 0 0, dbl (- 1) 0, dbl 0 0)
      (dbl 0 0, dbl 1 0, dbl 0 0)) = Final"
    by code_simp
  show ?thesis
    using 1 2 final_stage_delegates_to_exact[of binary64
        "(dbl 1 0, dbl 0 0)" "(dbl 1 (- 100), dbl 1 0)" "(dbl (- 1) (- 100), dbl (- 1) 0)" "(dbl (- 1) 0, dbl 0 0)"
        "(dbl 1 0, dbl 0 0, dbl 0 0)"
        "(dbl 0 0, dbl 1 (- 60), dbl 1 0)"
        "(dbl (- 1) 0, dbl 0 0, dbl 0 0)"
        "(dbl 0 0, dbl (- 1) 0, dbl 0 0)"
        "(dbl 0 0, dbl 1 0, dbl 0 0)"]
    by blast
qed

text \<open>
  Claim C5 as stated fails for \<open>orient2d\<close> (and \<open>orient3d\<close>), whose last stage does not
  call the exact predicate but sums an expansion of its own and returns the most
  significant component.  For \<open>a = (125/64, 125/64)\<close>, \<open>b = (69/32, 69/32)\<close> and
  \<open>c = (21 * 2^-59, 21 * 2^-59 - 2^-107)\<close> the adaptive predicate leaves through its
  last statement with \<open>-13 * 2^-113\<close>; the exact predicate returns \<open>-2^-109\<close>.
\<close>

theorem orient2d_final_stage_is_not_exact_orient2d:
  "fst (adaptive_orient2d_at binary64 (dbl 125 (- 6), dbl 125 (- 6))
      (dbl 69 (- 5), dbl 69 (- 5))
      (dbl 21 (- 59), dbl 5910974510923775 (- 107))) = Final \<and>
   adaptive_orient2d binary64 (dbl 125 (- 6), dbl 125 (- 6))
      (dbl 69 (- 5), dbl 69 (- 5))
      (dbl 21 (- 59), dbl 5910974510923775 (- 107)) = dbl (- 13) (- 113) \<and>
   exact_orient2d binary64 (dbl 125 (- 6), dbl 125 (- 6))
      (dbl 69 (- 5), dbl 69 (- 5))
      (dbl 21 (- 59), dbl 5910974510923775 (- 107)) = dbl (- 1) (- 109) \<and>
   adaptive_orient2d binary64 (dbl 125 (- 6), dbl 125 (- 6))
      (dbl 69 (- 5), dbl 69 (- 5))
      (dbl 21 (- 59), dbl 5910974510923775 (- 107)) \<noteq>
     exact_orient2d binary64 (dbl 125 (- 6), dbl 125 (- 6))
      (dbl 69 (- 5), dbl 69 (- 5))
      (dbl 21 (- 59), dbl 5910974510923775 (- 107))"
  by code_simp

lemma sign_test_orient2d:
  "signbit (orient2d_detleft c pa pb pc) \<noteq> signbit (orient2d_detright c pa pb pc) \<or>
   is_zero (orient2d_detleft c pa pb pc) \<or> is_zero (orient2d_detright c pa pb pc) \<Longrightarrow>
   adaptive_orient2d_at c pa pb pc =
     (SignTest, fsub c (orient2d_detleft c pa pb pc) (orient2d_detright c pa pb pc))"
  by (cases pa; cases pb; cases pc)
    (auto simp: adaptive_orient2d_at_def orient2d_detleft_def orient2d_detright_def Let_def)

lemma sign_test_only_orient2d:
  "fst (adaptive_orient2d_at c pa pb pc) = SignTest \<Longrightarrow>
   signbit (orient2d_detleft c pa pb pc) \<noteq> signbit (orient2d_detright c pa pb pc) \<or>
   is_zero (orient2d_detleft c pa pb pc) \<or> is_zero (orient2d_detright c pa pb pc)"
  by (cases pa; cases pb; cases pc)
    (auto simp: adaptive_orient2d_at_def orient2d_detleft_def orient2d_detright_def Let_def
      split: if_splits)

text \<open>
  The other three predicates return the determinant of their first stage when the
  stage-A test succeeds, and only then leave in the first stage.
\<close>

lemma stageA_incircle:
  "fst (adaptive_incircle_at c pa pb pc pd) = StageA \<Longrightarrow>
   adaptive_incircle c pa pb pc pd = incircle_fast c pa pb pc pd"
  by (cases pa; cases pb; cases pc; cases pd)
    (auto simp: adaptive_incircle_def adaptive_incircle_at_def incircle_fast_def Let_def
      split: if_splits)

lemma stageA_orient3d:
  "fst (adaptive_orient3d_at c pa pb pc pd) = StageA \<Longrightarrow>
   adaptive_orient3d c pa pb pc pd = orient3d_fast c pa pb pc pd"
  by (cases pa rule: prod_cases3; cases pb rule: prod_cases3; cases pc rule: prod_cases3;
      cases pd rule: prod_cases3)
    (auto simp: adaptive_orient3d_def adaptive_orient3d_at_def orient3d_fast_def Let_def
      split: if_splits)

lemma stageA_insphere:
  "fst (adaptive_insphere_at c pa pb pc pd pe) = StageA \<Longrightarrow>
   adaptive_insphere c pa pb pc pd pe = insphere_fast c pa pb pc pd pe"
  by (cases pa rule: prod_cases3; cases pb rule: prod_cases3; cases pc rule: prod_cases3;
      cases pd rule: prod_cases3; cases pe rule: prod_cases3)
    (auto simp: adaptive_insphere_def adaptive_insphere_at_def insphere_fast_def Let_def
      split: if_splits)

text \<open>
  Claim C6, as the code has it.  \<open>adaptive::orient2d\<close> tests the two leading partial
  products \<open>detleft\<close> and \<open>detright\<close>: if their sign bits differ, or either product is
  zero, it returns the floating-point difference \<open>detleft - detright\<close> at once, and it
  leaves at this test in no other case.
\<close>

theorem sign_test_returns_float_difference:
  "(signbit (orient2d_detleft c pa pb pc) \<noteq> signbit (orient2d_detright c pa pb pc) \<or>
    is_zero (orient2d_detleft c pa pb pc) \<or> is_zero (orient2d_detright c pa pb pc) \<longrightarrow>
    adaptive_orient2d_at c pa pb pc =
      (SignTest, fsub c (orient2d_detleft c pa pb pc) (orient2d_detright c pa pb pc))) \<and>
   (fst (adaptive_orient2d_at c pa pb pc) = SignTest \<longrightarrow>
    signbit (orient2d_detleft c pa pb pc) \<noteq> signbit (orient2d_detright c pa pb pc) \<or>
    is_zero (orient2d_detleft c pa pb pc) \<or> is_zero (orient2d_detright c pa pb pc))"
  using sign_test_orient2d[of c pa pb pc] sign_test_only_orient2d[of c pa pb pc]
  by blast

theorem sign_test_returns_float_difference_witness:
  "signbit (orient2d_detleft binary64 (dbl 1 0, dbl (- 1)
        (- 53))
        (dbl 1 0, dbl 1 0)
        (dbl 0 0, dbl 0 0)) \<noteq>
     signbit (orient2d_detright binary64 (dbl 1 0, dbl (- 1)
        (- 53))
        (dbl 1 0, dbl 1 0)
        (dbl 0 0, dbl 0 0)) \<and>
   adaptive_orient2d_at binary64 (dbl 1 0, dbl (- 1)
        (- 53))
        (dbl 1 0, dbl 1 0)
        (dbl 0 0, dbl 0 0) =
     (SignTest, fsub binary64 (orient2d_detleft binary64 (dbl 1 0, dbl (- 1)
        (- 53))
        (dbl 1 0, dbl 1 0)
        (dbl 0 0, dbl 0 0))
        (orient2d_detright binary64 (dbl 1 0, dbl (- 1)
        (- 53))
        (dbl 1 0, dbl 1 0)
        (dbl 0 0, dbl 0 0)))"
proof -
  have 1: "signbit (orient2d_detleft binary64 (dbl 1 0, dbl (- 1)
        (- 53))
        (dbl 1 0, dbl 1 0)
        (dbl 0 0, dbl 0 0)) \<noteq>
     signbit (orient2d_detright binary64 (dbl 1 0, dbl (- 1)
        (- 53))
        (dbl 1 0, dbl 1 0)
        (dbl 0 0, dbl 0 0))"
    by code_simp
  show ?thesis
    using 1 sign_test_returns_float_difference[of binary64 "(dbl 1 0, dbl (- 1) (- 53))" "(dbl 1 0, dbl 1 0)" "(dbl 0 0, dbl 0 0)"]
    by blast
qed

text \<open>
  Claim C6 as stated fails in two ways.

  The value returned by the sign test is a rounded difference of rounded products.  For
  \<open>a = (1, -2^-53)\<close>, \<open>b = (1, 1)\<close>, \<open>c = (0, 0)\<close> the products are \<open>1\<close> and \<open>-2^-53\<close>, of
  different signs; \<open>orient2d\<close> returns \<open>1\<close>, and the determinant is \<open>1 + 2^-53\<close>.

  The other three predicates do not look at the signs of their partial products.  On each
  of the inputs below the first two products have different signs and the determinant of
  the first stage is \<open>0\<close>, but the predicate goes on and returns a nonzero value from a
  later stage: \<open>incircle\<close> and \<open>insphere\<close> from the last one, \<open>orient3d\<close> from stage C.
\<close>

theorem sign_test_is_rounded_and_in_orient2d_only:
  "signbit (orient2d_detleft binary64 (dbl 1 0, dbl (- 1)
      (- 53))
      (dbl 1 0, dbl 1 0)
      (dbl 0 0, dbl 0 0)) \<noteq>
     signbit (orient2d_detright binary64 (dbl 1 0, dbl (- 1)
      (- 53))
      (dbl 1 0, dbl 1 0)
      (dbl 0 0, dbl 0 0)) \<and>
   adaptive_orient2d_at binary64 (dbl 1 0, dbl (- 1)
      (- 53))
      (dbl 1 0, dbl 1 0)
      (dbl 0 0, dbl 0 0) = (SignTest, Fin 4503599627370496 (- 52)) \<and>
   val (Fin 4503599627370496 (- 52)) = 1 \<and>
   orient2d_det (dbl 1 0, dbl (- 1)
      (- 53))
      (dbl 1 0, dbl 1 0)
      (dbl 0 0, dbl 0 0) = 1 + 1 / 2 ^ 53 \<and>
   signbit (fst (incircle_partials binary64 (dbl 1 0, dbl 0 0)
      (dbl 1 (- 100), dbl 1 0)
      (dbl (- 1)
      (- 100), dbl (- 1) 0)
      (dbl (- 1) 0, dbl 0 0))) \<noteq>
     signbit (snd (incircle_partials binary64 (dbl 1 0, dbl 0 0)
      (dbl 1 (- 100), dbl 1 0)
      (dbl (- 1)
      (- 100), dbl (- 1) 0)
      (dbl (- 1) 0, dbl 0 0))) \<and>
   incircle_fast binary64 (dbl 1 0, dbl 0 0)
      (dbl 1 (- 100), dbl 1 0)
      (dbl (- 1)
      (- 100), dbl (- 1) 0)
      (dbl (- 1) 0, dbl 0 0) = Fin 0 (- 1074) \<and>
   adaptive_incircle_at binary64 (dbl 1 0, dbl 0 0)
      (dbl 1 (- 100), dbl 1 0)
      (dbl (- 1)
      (- 100), dbl (- 1) 0)
      (dbl (- 1) 0, dbl 0 0) = (Final, Fin 4503599627370496 (- 250)) \<and>
   signbit (fst (orient3d_partials binary64 (dbl 1 2, dbl 1 0, dbl (- 1) 1)
      (dbl 3 0, dbl 1 1, dbl 1 (- 70))
      (dbl (- 1) 0, dbl 1 0, dbl 1 2)
      (dbl 1 1, dbl 3 0, dbl 1 1))) \<noteq>
     signbit (snd (orient3d_partials binary64 (dbl 1 2, dbl 1 0, dbl (- 1) 1)
      (dbl 3 0, dbl 1 1, dbl 1 (- 70))
      (dbl (- 1) 0, dbl 1 0, dbl 1 2)
      (dbl 1 1, dbl 3 0, dbl 1 1))) \<and>
   orient3d_fast binary64 (dbl 1 2, dbl 1 0, dbl (- 1) 1)
      (dbl 3 0, dbl 1 1, dbl 1 (- 70))
      (dbl (- 1) 0, dbl 1 0, dbl 1 2)
      (dbl 1 1, dbl 3 0, dbl 1 1) = Fin 0 (- 1074) \<and>
   adaptive_orient3d_at binary64 (dbl 1 2, dbl 1 0, dbl (- 1) 1)
      (dbl 3 0, dbl 1 1, dbl 1 (- 70))
      (dbl (- 1) 0, dbl 1 0, dbl 1 2)
      (dbl 1 1, dbl 3 0, dbl 1 1) = (StageC, Fin 5629499534213120 (- 119)) \<and>
   signbit (fst (insphere_partials binary64 (dbl 0 0, dbl 0 0, dbl (- 3) 0)
      (dbl 0 0, dbl 3 0, dbl 0 0)
      (dbl 1 1, dbl (- 1) 1, dbl 1 0)
      (dbl 3 0, dbl 0 0, dbl 1 (- 60))
      (dbl 1 1, dbl 1 1, dbl 1 0))) \<noteq>
     signbit (snd (insphere_partials binary64 (dbl 0 0, dbl 0 0, dbl (- 3) 0)
      (dbl 0 0, dbl 3 0, dbl 0 0)
      (dbl 1 1, dbl (- 1) 1, dbl 1 0)
      (dbl 3 0, dbl 0 0, dbl 1 (- 60))
      (dbl 1 1, dbl 1 1, dbl 1 0))) \<and>
   insphere_fast binary64 (dbl 0 0, dbl 0 0, dbl (- 3) 0)
      (dbl 0 0, dbl 3 0, dbl 0 0)
      (dbl 1 1, dbl (- 1) 1, dbl 1 0)
      (dbl 3 0, dbl 0 0, dbl 1 (- 60))
      (dbl 1 1, dbl 1 1, dbl 1 0) = Fin 0 (- 1074) \<and>
   adaptive_insphere_at binary64 (dbl 0 0, dbl 0 0, dbl (- 3) 0)
      (dbl 0 0, dbl 3 0, dbl 0 0)
      (dbl 1 1, dbl (- 1) 1, dbl 1 0)
      (dbl 3 0, dbl 0 0, dbl 1 (- 60))
      (dbl 1 1, dbl 1 1, dbl 1 0) = (Final, Fin (- 6755399441055744) (- 168))"
proof -
  have 1: "signbit (orient2d_detleft binary64 (dbl 1 0, dbl (- 1)
      (- 53))
      (dbl 1 0, dbl 1 0)
      (dbl 0 0, dbl 0 0)) \<noteq>
     signbit (orient2d_detright binary64 (dbl 1 0, dbl (- 1)
      (- 53))
      (dbl 1 0, dbl 1 0)
      (dbl 0 0, dbl 0 0)) \<and>
   adaptive_orient2d_at binary64 (dbl 1 0, dbl (- 1)
      (- 53))
      (dbl 1 0, dbl 1 0)
      (dbl 0 0, dbl 0 0) = (SignTest, Fin 4503599627370496 (- 52))"
    by code_simp
  have 2: "dbl 1 0 = Fin 4503599627370496 (- 52)" "dbl (- 1) (- 53) = Fin (- 4503599627370496) (- 105)"
    "dbl 0 0 = Fin 0 (- 1074)"
    by code_simp+
  have 3: "orient2d_det (dbl 1 0, dbl (- 1)
      (- 53))
      (dbl 1 0, dbl 1 0)
      (dbl 0 0, dbl 0 0) = 1 + 1 / 2 ^ 53"
    unfolding 2 by (simp add: orient2d_det_def power_int_minus field_simps)
  have 4: "val (Fin 4503599627370496 (- 52)) = 1"
    by (simp add: power_int_minus)
  have 5: "signbit (fst (incircle_partials binary64 (dbl 1 0, dbl 0 0)
      (dbl 1 (- 100), dbl 1 0)
      (dbl (- 1)
      (- 100), dbl (- 1) 0)
      (dbl (- 1) 0, dbl 0 0))) \<noteq>
     signbit (snd (incircle_partials binary64 (dbl 1 0, dbl 0 0)
      (dbl 1 (- 100), dbl 1 0)
      (dbl (- 1)
      (- 100), dbl (- 1) 0)
      (dbl (- 1) 0, dbl 0 0))) \<and>
   incircle_fast binary64 (dbl 1 0, dbl 0 0)
      (dbl 1 (- 100), dbl 1 0)
      (dbl (- 1)
      (- 100), dbl (- 1) 0)
      (dbl (- 1) 0, dbl 0 0) = Fin 0 (- 1074) \<and>
   adaptive_incircle_at binary64 (dbl 1 0, dbl 0 0)
      (dbl 1 (- 100), dbl 1 0)
      (dbl (- 1)
      (- 100), dbl (- 1) 0)
      (dbl (- 1) 0, dbl 0 0) = (Final, Fin 4503599627370496 (- 250))"
    by code_simp
  have 6: "signbit (fst (orient3d_partials binary64 (dbl 1 2, dbl 1 0, dbl (- 1) 1)
      (dbl 3 0, dbl 1 1, dbl 1 (- 70))
      (dbl (- 1) 0, dbl 1 0, dbl 1 2)
      (dbl 1 1, dbl 3 0, dbl 1 1))) \<noteq>
     signbit (snd (orient3d_partials binary64 (dbl 1 2, dbl 1 0, dbl (- 1) 1)
      (dbl 3 0, dbl 1 1, dbl 1 (- 70))
      (dbl (- 1) 0, dbl 1 0, dbl 1 2)
      (dbl 1 1, dbl 3 0, dbl 1 1))) \<and>
   orient3d_fast binary64 (dbl 1 2, dbl 1 0, dbl (- 1) 1)
      (dbl 3 0, dbl 1 1, dbl 1 (- 70))
      (dbl (- 1) 0, dbl 1 0, dbl 1 2)
      (dbl 1 1, dbl 3 0, dbl 1 1) = Fin 0 (- 1074) \<and>
   adaptive_orient3d_at binary64 (dbl 1 2, dbl 1 0, dbl (- 1) 1)
      (dbl 3 0, dbl 1 1, dbl 1 (- 70))
      (dbl (- 1) 0, dbl 1 0, dbl 1 2)
      (dbl 1 1, dbl 3 0, dbl 1 1) = (StageC, Fin 5629499534213120 (- 119))"
    by code_simp
  have 7: "signbit (fst (insphere_partials binary64 (dbl 0 0, dbl 0 0, dbl (- 3) 0)
      (dbl 0 0, dbl 3 0, dbl 0 0)
      (dbl 1 1, dbl (- 1) 1, dbl 1 0)
      (dbl 3 0, dbl 0 0, dbl 1 (- 60))
      (dbl 1 1, dbl 1 1, dbl 1 0))) \<noteq>
     signbit (snd (insphere_partials binary64 (dbl 0 0, dbl 0 0, dbl (- 3) 0)
      (dbl 0 0, dbl 3 0, dbl 0 0)
      (dbl 1 1, dbl (- 1) 1, dbl 1 0)
      (dbl 3 0, dbl 0 0, dbl 1 (- 60))
      (dbl 1 1, dbl 1 1, dbl 1 0))) \<and>
   insphere_fast binary64 (dbl 0 0, dbl 0 0, dbl (- 3) 0)
      (dbl 0 0, dbl 3 0, dbl 0 0)
      (dbl 1 1, dbl (- 1) 1, dbl 1 0)
      (dbl 3 0, dbl 0 0, dbl 1 (- 60))
      (dbl 1 1, dbl 1 1, dbl 1 0) = Fin 0 (- 1074) \<and>
   adaptive_insphere_at binary64 (dbl 0 0, dbl 0 0, dbl (- 3) 0)
      (dbl 0 0, dbl 3 0, dbl 0 0)
      (dbl 1 1, dbl (- 1) 1, dbl 1 0)
      (dbl 3 0, dbl 0 0, dbl 1 (- 60))
      (dbl 1 1, dbl 1 1, dbl 1 0) = (Final, Fin (- 6755399441055744) (- 168))"
    by code_simp
  from 1 3 4 5 6 7 show ?thesis by blast
qed


lemma tails_zero_orient2d:
  "fst (adaptive_orient2d_at c pa pb pc) \<notin> {SignTest, StageA, StageB} \<Longrightarrow>
   list_all is_zero (orient2d_tails c pa pb pc) \<Longrightarrow>
   adaptive_orient2d_at c pa pb pc = (TailsZero, orient2d_stage2 c pa pb pc)"
  by (cases pa; cases pb; cases pc)
    (auto simp: adaptive_orient2d_at_def orient2d_tails_def orient2d_stage2_def Let_def
      split: if_splits)

lemma tails_zero_incircle:
  "fst (adaptive_incircle_at c pa pb pc pd) \<notin> {SignTest, StageA, StageB} \<Longrightarrow>
   list_all is_zero (incircle_tails c pa pb pc pd) \<Longrightarrow>
   adaptive_incircle_at c pa pb pc pd = (TailsZero, incircle_stage2 c pa pb pc pd)"
  by (cases pa; cases pb; cases pc; cases pd)
    (auto simp: adaptive_incircle_at_def incircle_tails_def incircle_stage2_def Let_def
      split: if_splits)

lemma tails_zero_orient3d:
  "fst (adaptive_orient3d_at c pa pb pc pd) \<notin> {SignTest, StageA, StageB} \<Longrightarrow>
   list_all is_zero (orient3d_tails c pa pb pc pd) \<Longrightarrow>
   adaptive_orient3d_at c pa pb pc pd = (TailsZero, orient3d_stage2 c pa pb pc pd)"
  by (cases pa rule: prod_cases3; cases pb rule: prod_cases3; cases pc rule: prod_cases3;
      cases pd rule: prod_cases3)
    (auto simp: adaptive_orient3d_at_def orient3d_tails_def orient3d_stage2_def Let_def
      split: if_splits)

lemma tails_zero_insphere:
  "fst (adaptive_insphere_at c pa pb pc pd pe) \<notin> {SignTest, StageA, StageB} \<Longrightarrow>
   list_all is_zero (insphere_tails c pa pb pc pd pe) \<Longrightarrow>
   adaptive_insphere_at c pa pb pc pd pe = (TailsZero, insphere_stage2 c pa pb pc pd pe)"
  by (cases pa rule: prod_cases3; cases pb rule: prod_cases3; cases pc rule: prod_cases3;
      cases pd rule: prod_cases3; cases pe rule: prod_cases3)
    (auto simp: adaptive_insphere_at_def insphere_tails_def insphere_stage2_def Let_def
      split: if_splits)

text \<open>
  Claim C7, as the code has it.  In each adaptive predicate, once the first two
  error-bound tests have failed, if every tail of the coordinate differences is zero the
  predicate returns the estimate of the second stage unchanged.
\<close>

theorem zero_tails_return_stage2_estimate:
  "(fst (adaptive_orient2d_at c pa pb pc) \<notin> {SignTest, StageA, StageB} \<and>
    list_all is_zero (orient2d_tails c pa pb pc) \<longrightarrow>
    adaptive_orient2d_at c pa pb pc = (TailsZero, orient2d_stage2 c pa pb pc)) \<and>
   (fst (adaptive_incircle_at c qa qb qc qd) \<notin> {SignTest, StageA, StageB} \<and>
    list_all is_zero (incircle_tails c qa qb qc qd) \<longrightarrow>
    adaptive_incircle_at c qa qb qc qd = (TailsZero, incircle_stage2 c qa qb qc qd)) \<and>
   (fst (adaptive_orient3d_at c ra rb rc rd) \<notin> {SignTest, StageA, StageB} \<and>
    list_all is_zero (orient3d_tails c ra rb rc rd) \<longrightarrow>
    adaptive_orient3d_at c ra rb rc rd = (TailsZero, orient3d_stage2 c ra rb rc rd)) \<and>
   (fst (adaptive_insphere_at c sa sb sc sd se) \<notin> {SignTest, StageA, StageB} \<and>
    list_all is_zero (insphere_tails c sa sb sc sd se) \<longrightarrow>
    adaptive_insphere_at c sa sb sc sd se = (TailsZero, insphere_stage2 c sa sb sc sd se))"
  using tails_zero_orient2d tails_zero_incircle tails_zero_orient3d tails_zero_insphere
  by blast

theorem zero_tails_return_stage2_estimate_witness:
  "fst (adaptive_orient2d_at binary64 (dbl 6755399441055745 (- 53), dbl 6755399441055745 (- 53))
        (dbl 1548112371908607 (- 51), dbl 6192449487634431 (- 53))
        (dbl 6755399441055747 (- 52), dbl 6755399441055747 (- 52))) \<notin> {SignTest, StageA, StageB} \<and>
   list_all is_zero (orient2d_tails binary64 (dbl 6755399441055745 (- 53), dbl 6755399441055745 (- 53))
        (dbl 1548112371908607 (- 51), dbl 6192449487634431 (- 53))
        (dbl 6755399441055747 (- 52), dbl 6755399441055747 (- 52))) \<and>
   adaptive_orient2d_at binary64 (dbl 6755399441055745 (- 53), dbl 6755399441055745 (- 53))
        (dbl 1548112371908607 (- 51), dbl 6192449487634431 (- 53))
        (dbl 6755399441055747 (- 52), dbl 6755399441055747 (- 52)) =
     (TailsZero, orient2d_stage2 binary64 (dbl 6755399441055745 (- 53), dbl 6755399441055745 (- 53))
        (dbl 1548112371908607 (- 51), dbl 6192449487634431 (- 53))
        (dbl 6755399441055747 (- 52), dbl 6755399441055747 (- 52))) \<and>
   fst (adaptive_incircle_at binary64 (dbl 5 0, dbl 0 0)
        (dbl (- 1) 2, dbl (- 3) 0)
        (dbl (- 3) 0, dbl 1 2)
        (dbl (- 5) 0, dbl 0 0)) \<notin> {SignTest, StageA, StageB} \<and>
   list_all is_zero (incircle_tails binary64 (dbl 5 0, dbl 0 0)
        (dbl (- 1) 2, dbl (- 3) 0)
        (dbl (- 3) 0, dbl 1 2)
        (dbl (- 5) 0, dbl 0 0)) \<and>
   adaptive_incircle_at binary64 (dbl 5 0, dbl 0 0)
        (dbl (- 1) 2, dbl (- 3) 0)
        (dbl (- 3) 0, dbl 1 2)
        (dbl (- 5) 0, dbl 0 0) =
     (TailsZero, incircle_stage2 binary64 (dbl 5 0, dbl 0 0)
        (dbl (- 1) 2, dbl (- 3) 0)
        (dbl (- 3) 0, dbl 1 2)
        (dbl (- 5) 0, dbl 0 0)) \<and>
   fst (adaptive_orient3d_at binary64 (dbl 1 0, dbl 0 0, dbl 1 0)
        (dbl 0 0, dbl 1 0, dbl 1 (- 60))
        (dbl 1 1, dbl 0 0, dbl 1 1)
        (dbl 0 0, dbl 0 0, dbl 0 0)) \<notin> {SignTest, StageA, StageB} \<and>
   list_all is_zero (orient3d_tails binary64 (dbl 1 0, dbl 0 0, dbl 1 0)
        (dbl 0 0, dbl 1 0, dbl 1 (- 60))
        (dbl 1 1, dbl 0 0, dbl 1 1)
        (dbl 0 0, dbl 0 0, dbl 0 0)) \<and>
   adaptive_orient3d_at binary64 (dbl 1 0, dbl 0 0, dbl 1 0)
        (dbl 0 0, dbl 1 0, dbl 1 (- 60))
        (dbl 1 1, dbl 0 0, dbl 1 1)
        (dbl 0 0, dbl 0 0, dbl 0 0) =
     (TailsZero, orient3d_stage2 binary64 (dbl 1 0, dbl 0 0, dbl 1 0)
        (dbl 0 0, dbl 1 0, dbl 1 (- 60))
        (dbl 1 1, dbl 0 0, dbl 1 1)
        (dbl 0 0, dbl 0 0, dbl 0 0)) \<and>
   fst (adaptive_insphere_at binary64 (dbl 3 0, dbl 0 0, dbl 0 0)
        (dbl 1 0, dbl 1 1, dbl 1 1)
        (dbl 0 0, dbl 0 0, dbl 3 0)
        (dbl 1 1, dbl 1 1, dbl 1 0)
        (dbl 1 1, dbl (- 1) 1, dbl 1 0)) \<notin> {SignTest, StageA, StageB} \<and>
   list_all is_zero (insphere_tails binary64 (dbl 3 0, dbl 0 0, dbl 0 0)
        (dbl 1 0, dbl 1 1, dbl 1 1)
        (dbl 0 0, dbl 0 0, dbl 3 0)
        (dbl 1 1, dbl 1 1, dbl 1 0)
        (dbl 1 1, dbl (- 1) 1, dbl 1 0)) \<and>
   adaptive_insphere_at binary64 (dbl 3 0, dbl 0 0, dbl 0 0)
        (dbl 1 0, dbl 1 1, dbl 1 1)
        (dbl 0 0, dbl 0 0, dbl 3 0)
        (dbl 1 1, dbl 1 1, dbl 1 0)
        (dbl 1 1, dbl (- 1) 1, dbl 1 0) =
     (TailsZero, insphere_stage2 binary64 (dbl 3 0, dbl 0 0, dbl 0 0)
        (dbl 1 0, dbl 1 1, dbl 1 1)
        (dbl 0 0, dbl 0 0, dbl 3 0)
        (dbl 1 1, dbl 1 1, dbl 1 0)
        (dbl 1 1, dbl (- 1) 1, dbl 1 0))"
proof -
  have 1: "fst (adaptive_orient2d_at binary64 (dbl 6755399441055745 (- 53), dbl 6755399441055745 (- 53))
        (dbl 1548112371908607 (- 51), dbl 6192449487634431 (- 53))
        (dbl 6755399441055747 (- 52), dbl 6755399441055747 (- 52))) \<notin> {SignTest, StageA, StageB} \<and>
   list_all is_zero (orient2d_tails binary64 (dbl 6755399441055745 (- 53), dbl 6755399441055745 (- 53))
        (dbl 1548112371908607 (- 51), dbl 6192449487634431 (- 53))
        (dbl 6755399441055747 (- 52), dbl 6755399441055747 (- 52)))"
    by code_simp
  have 2: "fst (adaptive_incircle_at binary64 (dbl 5 0, dbl 0 0)
        (dbl (- 1) 2, dbl (- 3) 0)
        (dbl (- 3) 0, dbl 1 2)
        (dbl (- 5) 0, dbl 0 0)) \<notin> {SignTest, StageA, StageB} \<and>
   list_all is_zero (incircle_tails binary64 (dbl 5 0, dbl 0 0)
        (dbl (- 1) 2, dbl (- 3) 0)
        (dbl (- 3) 0, dbl 1 2)
        (dbl (- 5) 0, dbl 0 0))"
    by code_simp
  have 3: "fst (adaptive_orient3d_at binary64 (dbl 1 0, dbl 0 0, dbl 1 0)
        (dbl 0 0, dbl 1 0, dbl 1 (- 60))
        (dbl 1 1, dbl 0 0, dbl 1 1)
        (dbl 0 0, dbl 0 0, dbl 0 0)) \<notin> {SignTest, StageA, StageB} \<and>
   list_all is_zero (orient3d_tails binary64 (dbl 1 0, dbl 0 0, dbl 1 0)
        (dbl 0 0, dbl 1 0, dbl 1 (- 60))
        (dbl 1 1, dbl 0 0, dbl 1 1)
        (dbl 0 0, dbl 0 0, dbl 0 0))"
    by code_simp
  have 4: "fst (adaptive_insphere_at binary64 (dbl 3 0, dbl 0 0, dbl 0 0)
        (dbl 1 0, dbl 1 1, dbl 1 1)
        (dbl 0 0, dbl 0 0, dbl 3 0)
        (dbl 1 1, dbl 1 1, dbl 1 0)
        (dbl 1 1, dbl (- 1) 1, dbl 1 0)) \<notin> {SignTest, StageA, StageB} \<and>
   list_all is_zero (insphere_tails binary64 (dbl 3 0, dbl 0 0, dbl 0 0)
        (dbl 1 0, dbl 1 1, dbl 1 1)
        (dbl 0 0, dbl 0 0, dbl 3 0)
        (dbl 1 1, dbl 1 1, dbl 1 0)
        (dbl 1 1, dbl (- 1) 1, dbl 1 0))"
    by code_simp
  show ?thesis
    using 1 2 3 4 zero_tails_return_stage2_estimate[of binary64
        "(dbl 6755399441055745 (- 53), dbl 6755399441055745 (- 53))" "(dbl 1548112371908607 (- 51), dbl 6192449487634431 (- 53))" "(dbl 6755399441055747 (- 52), dbl 6755399441055747 (- 52))"
        "(dbl 5 0, dbl 0 0)" "(dbl (- 1) 2, dbl (- 3) 0)" "(dbl (- 3) 0, dbl 1 2)" "(dbl (- 5) 0, dbl 0 0)"
        "(dbl 1 0, dbl 0 0, dbl 1 0)" "(dbl 0 0, dbl 1 0, dbl 1 (- 60))" "(dbl 1 1, dbl 0 0, dbl 1 1)" "(dbl 0 0, dbl 0 0, dbl 0 0)"
        "(dbl 3 0, dbl 0 0, dbl 0 0)" "(dbl 1 0, dbl 1 1, dbl 1 1)" "(dbl 0 0, dbl 0 0, dbl 3 0)" "(dbl 1 1, dbl 1 1, dbl 1 0)" "(dbl 1 1, dbl (- 1) 1, dbl 1 0)"]
    by blast
qed

text \<open>
  Claim C7 as stated fails in its last part: the estimate is a floating-point sum of
  the components of an expansion, and is rounded.  For the points below all four tails
  are zero and the predicate returns the estimate \<open>- 1266637395197953 / 5070602400912917605986812821504\<close>, while the
  determinant is \<open>- 20266198323167247 / 81129638414606681695789005144064\<close>; the two differ by \<open>2^-106\<close>.
\<close>

theorem orient2d_zero_tails_estimate_is_rounded:
  "list_all is_zero (orient2d_tails binary64 (dbl 6755399441055745 (- 53), dbl 6755399441055745 (- 53))
      (dbl 1548112371908607 (- 51), dbl 6192449487634431 (- 53))
      (dbl 6755399441055747 (- 52), dbl 6755399441055747 (- 52))) \<and>
   adaptive_orient2d_at binary64 (dbl 6755399441055745 (- 53), dbl 6755399441055745 (- 53))
      (dbl 1548112371908607 (- 51), dbl 6192449487634431 (- 53))
      (dbl 6755399441055747 (- 52), dbl 6755399441055747 (- 52)) = (TailsZero, Fin (- 5066549580791812) (- 104)) \<and>
   val (Fin (- 5066549580791812) (- 104)) = - 1266637395197953 / 5070602400912917605986812821504 \<and>
   orient2d_det (dbl 6755399441055745 (- 53), dbl 6755399441055745 (- 53))
      (dbl 1548112371908607 (- 51), dbl 6192449487634431 (- 53))
      (dbl 6755399441055747 (- 52), dbl 6755399441055747 (- 52)) = - 20266198323167247 / 81129638414606681695789005144064"
proof -
  have 1: "list_all is_zero (orient2d_tails binary64 (dbl 6755399441055745 (- 53), dbl 6755399441055745 (- 53))
      (dbl 1548112371908607 (- 51), dbl 6192449487634431 (- 53))
      (dbl 6755399441055747 (- 52), dbl 6755399441055747 (- 52))) \<and>
   adaptive_orient2d_at binary64 (dbl 6755399441055745 (- 53), dbl 6755399441055745 (- 53))
      (dbl 1548112371908607 (- 51), dbl 6192449487634431 (- 53))
      (dbl 6755399441055747 (- 52), dbl 6755399441055747 (- 52)) = (TailsZero, Fin (- 5066549580791812) (- 104))"
    by code_simp
  have 2: "dbl 1548112371908607 (- 51) = Fin 6192449487634428 (- 53)"
    "dbl 6192449487634431 (- 53) = Fin 6192449487634431 (- 53)"
    "dbl 6755399441055745 (- 53) = Fin 6755399441055745 (- 53)"
    "dbl 6755399441055747 (- 52) = Fin 6755399441055747 (- 52)"
    by code_simp+
  have 3: "orient2d_det (dbl 6755399441055745 (- 53), dbl 6755399441055745 (- 53))
      (dbl 1548112371908607 (- 51), dbl 6192449487634431 (- 53))
      (dbl 6755399441055747 (- 52), dbl 6755399441055747 (- 52)) = - 20266198323167247 / 81129638414606681695789005144064"
    unfolding 2 by (simp add: orient2d_det_def power_int_minus field_simps)
  show ?thesis using 1 3 by (simp add: power_int_minus)
qed

text \<open>
  The sign test reads the sign bit of a NaN.  With \<open>M\<close> the largest finite \<open>double\<close>,
  \<open>a = (M, 1)\<close>, \<open>b = (1, 0)\<close> and \<open>c = (- M, 0)\<close> give \<open>acx = inf\<close> and \<open>bcy = 0\<close>, so \<open>detleft\<close>
  is the default NaN, whose sign bit is set, and \<open>detright = M\<close> is positive: the sign bits
  differ and \<open>orient2d\<close> returns at the sign test.  With \<open>a = (M, - 1)\<close> instead, \<open>detright\<close>
  is \<open>- M\<close>, the sign bits agree, and \<open>orient2d\<close> leaves through its last statement.
\<close>

lemma orient2d_sign_test_on_NaN:
  "orient2d_detleft binary64 (Fin 9007199254740991 971, dbl 1 0) (dbl 1 0, dbl 0 0)
     (Fin (- 9007199254740991) 971, dbl 0 0) = NaN True \<and>
   orient2d_detright binary64 (Fin 9007199254740991 971, dbl 1 0) (dbl 1 0, dbl 0 0)
     (Fin (- 9007199254740991) 971, dbl 0 0) = Fin 9007199254740991 971 \<and>
   adaptive_orient2d_at binary64 (Fin 9007199254740991 971, dbl 1 0) (dbl 1 0, dbl 0 0)
     (Fin (- 9007199254740991) 971, dbl 0 0) = (SignTest, NaN True) \<and>
   orient2d_detleft binary64 (Fin 9007199254740991 971, dbl (- 1) 0) (dbl 1 0, dbl 0 0)
     (Fin (- 9007199254740991) 971, dbl 0 0) = NaN True \<and>
   orient2d_detright binary64 (Fin 9007199254740991 971, dbl (- 1) 0) (dbl 1 0, dbl 0 0)
     (Fin (- 9007199254740991) 971, dbl 0 0) = Fin (- 9007199254740991) 971 \<and>
   adaptive_orient2d_at binary64 (Fin 9007199254740991 971, dbl (- 1) 0) (dbl 1 0, dbl 0 0)
     (Fin (- 9007199254740991) 971, dbl 0 0) = (Final, NaN True)"
  by code_simp
section \<open>The sign of \<open>adaptive::orient3d\<close>\<close>

text \<open>
  Claim C1 says that the adaptive and the exact evaluator agree in sign.  The last stage
  of \<open>adaptive::orient3d\<close> builds its correction terms with \<open>TwoTwoDiffZeroCheck\<close>,
  which returns \<open>ay * bx\<close> in place of \<open>- ay * bx\<close> when \<open>ax\<close> is zero (see claim
  C4).  For the points of \<open>double\<close>
  \<open>a = (1, 0, 2^-100)\<close>, \<open>b = (0, 1, 2^-100)\<close>, \<open>c = (-1, 2^-100, 0)\<close>,
  \<open>d = (0, -1, 0)\<close> the determinant is \<open>- 2^-200\<close>; \<open>exact::orient3d\<close> returns
  \<open>- 2^-200\<close> and \<open>adaptive::orient3d\<close>, from its last stage, \<open>2^-200\<close>.
\<close>

theorem adaptive_orient3d_has_wrong_sign:
  "adaptive_orient3d_at binary64 (dbl 1 0, dbl 0 0, dbl 1 (- 100))
      (dbl 0 0, dbl 1 0, dbl 1 (- 100))
      (dbl (- 1) 0, dbl 1 (- 100), dbl 0 0)
      (dbl 0 0, dbl (- 1) 0, dbl 0 0) = (Final, Fin 4503599627370496 (- 252)) \<and>
   exact_orient3d binary64 (dbl 1 0, dbl 0 0, dbl 1 (- 100))
      (dbl 0 0, dbl 1 0, dbl 1 (- 100))
      (dbl (- 1) 0, dbl 1 (- 100), dbl 0 0)
      (dbl 0 0, dbl (- 1) 0, dbl 0 0) = Fin (- 4503599627370496) (- 252) \<and>
   val (Fin 4503599627370496 (- 252)) = 1 / 2 ^ 200 \<and> val (Fin (- 4503599627370496) (- 252)) = - 1 / 2 ^ 200 \<and>
   orient3d_det (dbl 1 0, dbl 0 0, dbl 1 (- 100))
      (dbl 0 0, dbl 1 0, dbl 1 (- 100))
      (dbl (- 1) 0, dbl 1 (- 100), dbl 0 0)
      (dbl 0 0, dbl (- 1) 0, dbl 0 0) = - 1 / 2 ^ 200"
proof -
  have 1: "adaptive_orient3d_at binary64 (dbl 1 0, dbl 0 0, dbl 1 (- 100))
      (dbl 0 0, dbl 1 0, dbl 1 (- 100))
      (dbl (- 1) 0, dbl 1 (- 100), dbl 0 0)
      (dbl 0 0, dbl (- 1) 0, dbl 0 0) = (Final, Fin 4503599627370496 (- 252))"
    by code_simp
  have 2: "exact_orient3d binary64 (dbl 1 0, dbl 0 0, dbl 1 (- 100))
      (dbl 0 0, dbl 1 0, dbl 1 (- 100))
      (dbl (- 1) 0, dbl 1 (- 100), dbl 0 0)
      (dbl 0 0, dbl (- 1) 0, dbl 0 0) = Fin (- 4503599627370496) (- 252)"
    by code_simp
  have 3: "dbl 1 0 = Fin 4503599627370496 (- 52)"
    "dbl 0 0 = Fin 0 (- 1074)"
    "dbl 1 (- 100) = Fin 4503599627370496 (- 152)"
    "dbl (- 1) 0 = Fin (- 4503599627370496) (- 52)"
    by code_simp+
  have 4: "orient3d_det (dbl 1 0, dbl 0 0, dbl 1 (- 100))
      (dbl 0 0, dbl 1 0, dbl 1 (- 100))
      (dbl (- 1) 0, dbl 1 (- 100), dbl 0 0)
      (dbl 0 0, dbl (- 1) 0, dbl 0 0) = - 1 / 2 ^ 200"
    unfolding 3 by (simp add: orient3d_det_def det3_def power_int_minus field_simps)
  show ?thesis using 1 2 4 by (simp add: power_int_minus)
qed

section \<open>Swapping two points\<close>

text \<open>
  Claim C9 says that swapping two input points flips the sign of the result.  At the
  points of claim C1, \<open>a = (1, 0, 2^-100)\<close>, \<open>b = (0, 1, 2^-100)\<close>, \<open>c = (-1, 2^-100, 0)\<close>,
  \<open>d = (0, -1, 0)\<close>, the determinant is \<open>- 2^-200\<close>, and \<open>2^-200\<close> after \<open>a\<close> and \<open>b\<close> are
  swapped; \<open>exact::orient3d\<close> returns these two values.  \<open>adaptive::orient3d\<close> returns
  \<open>2^-200\<close> for both orders: for the first one \<open>TwoTwoDiffZeroCheck\<close> drops the sign of a
  product (claim C4), for the second one it does not meet the zero.
\<close>

theorem adaptive_orient3d_swap_keeps_sign:
  "adaptive_orient3d_at binary64 (dbl 1 0, dbl 0 0, dbl 1 (- 100))
      (dbl 0 0, dbl 1 0, dbl 1 (- 100))
      (dbl (- 1) 0, dbl 1 (- 100), dbl 0 0)
      (dbl 0 0, dbl (- 1) 0, dbl 0 0) = (Final, Fin 4503599627370496 (- 252)) \<and>
   adaptive_orient3d_at binary64 (dbl 0 0, dbl 1 0, dbl 1 (- 100))
      (dbl 1 0, dbl 0 0, dbl 1 (- 100))
      (dbl (- 1) 0, dbl 1 (- 100), dbl 0 0)
      (dbl 0 0, dbl (- 1) 0, dbl 0 0) = (Final, Fin 4503599627370496 (- 252)) \<and>
   exact_orient3d binary64 (dbl 1 0, dbl 0 0, dbl 1 (- 100))
      (dbl 0 0, dbl 1 0, dbl 1 (- 100))
      (dbl (- 1) 0, dbl 1 (- 100), dbl 0 0)
      (dbl 0 0, dbl (- 1) 0, dbl 0 0) = Fin (- 4503599627370496) (- 252) \<and>
   exact_orient3d binary64 (dbl 0 0, dbl 1 0, dbl 1 (- 100))
      (dbl 1 0, dbl 0 0, dbl 1 (- 100))
      (dbl (- 1) 0, dbl 1 (- 100), dbl 0 0)
      (dbl 0 0, dbl (- 1) 0, dbl 0 0) = Fin 4503599627370496 (- 252) \<and>
   val (Fin 4503599627370496 (- 252)) = 1 / 2 ^ 200 \<and>
   orient3d_det (dbl 1 0, dbl 0 0, dbl 1 (- 100))
      (dbl 0 0, dbl 1 0, dbl 1 (- 100))
      (dbl (- 1) 0, dbl 1 (- 100), dbl 0 0)
      (dbl 0 0, dbl (- 1) 0, dbl 0 0) = - 1 / 2 ^ 200 \<and>
   orient3d_det (dbl 0 0, dbl 1 0, dbl 1 (- 100))
      (dbl 1 0, dbl 0 0, dbl 1 (- 100))
      (dbl (- 1) 0, dbl 1 (- 100), dbl 0 0)
      (dbl 0 0, dbl (- 1) 0, dbl 0 0) = 1 / 2 ^ 200"
proof -
  have 1: "adaptive_orient3d_at binary64 (dbl 1 0, dbl 0 0, dbl 1 (- 100))
      (dbl 0 0, dbl 1 0, dbl 1 (- 100))
      (dbl (- 1) 0, dbl 1 (- 100), dbl 0 0)
      (dbl 0 0, dbl (- 1) 0, dbl 0 0) = (Final, Fin 4503599627370496 (- 252))"
    by code_simp
  have 2: "adaptive_orient3d_at binary64 (dbl 0 0, dbl 1 0, dbl 1 (- 100))
      (dbl 1 0, dbl 0 0, dbl 1 (- 100))
      (dbl (- 1) 0, dbl 1 (- 100), dbl 0 0)
      (dbl 0 0, dbl (- 1) 0, dbl 0 0) = (Final, Fin 4503599627370496 (- 252))"
    by code_simp
  have 3: "exact_orient3d binary64 (dbl 1 0, dbl 0 0, dbl 1 (- 100))
      (dbl 0 0, dbl 1 0, dbl 1 (- 100))
      (dbl (- 1) 0, dbl 1 (- 100), dbl 0 0)
      (dbl 0 0, dbl (- 1) 0, dbl 0 0) = Fin (- 4503599627370496) (- 252)"
    by code_simp
  have 4: "exact_orient3d binary64 (dbl 0 0, dbl 1 0, dbl 1 (- 100))
      (dbl 1 0, dbl 0 0, dbl 1 (- 100))
      (dbl (- 1) 0, dbl 1 (- 100), dbl 0 0)
      (dbl 0 0, dbl (- 1) 0, dbl 0 0) = Fin 4503599627370496 (- 252)"
    by code_simp
  have 5: "dbl 1 0 = Fin 4503599627370496 (- 52)"
    "dbl 0 0 = Fin 0 (- 1074)"
    "dbl 1 (- 100) = Fin 4503599627370496 (- 152)"
    "dbl (- 1) 0 = Fin (- 4503599627370496) (- 52)"
    by code_simp+
  have 6: "orient3d_det (dbl 1 0, dbl 0 0, dbl 1 (- 100))
      (dbl 0 0, dbl 1 0, dbl 1 (- 100))
      (dbl (- 1) 0, dbl 1 (- 100), dbl 0 0)
      (dbl 0 0, dbl (- 1) 0, dbl 0 0) = - 1 / 2 ^ 200"
    unfolding 5 by (simp add: orient3d_det_def det3_def power_int_minus field_simps)
  have 7: "orient3d_det (dbl 0 0, dbl 1 0, dbl 1 (- 100))
      (dbl 1 0, dbl 0 0, dbl 1 (- 100))
      (dbl (- 1) 0, dbl 1 (- 100), dbl 0 0)
      (dbl 0 0, dbl (- 1) 0, dbl 0 0) = 1 / 2 ^ 200"
    unfolding 5 by (simp add: orient3d_det_def det3_def power_int_minus field_simps)
  have 8: "val (Fin 4503599627370496 (- 252)) = 1 / 2 ^ 200"
    by (simp add: power_int_minus)
  from 1 2 3 4 6 7 8 show ?thesis by blast
qed

text \<open>
  The equality \<open>orient2d(a, b, c) == - orient2d(b, a, c)\<close> that the claim gives as an instance
  holds for the signs only.  The two calls sum different expansions in their last stage,
  and the most significant components need not be negatives of each other: for the points
  below the first call returns \<open>- 17 * 2^-112\<close> and the second \<open>(17 * 2^48 - 2) * 2^-160\<close>.
\<close>

lemma orient2d_swap_is_not_the_exact_negation:
  "adaptive_orient2d_at binary64 (dbl 7036874417766403 (- 52), dbl 7036874417766403 (- 52))
      (dbl 4714705859903489 (- 51), dbl 4714705859903489 (- 51))
      (dbl 25 (- 59), dbl 7036874417766399 (- 107)) = (Final, Fin (- 4785074604081152) (- 160)) \<and>
   adaptive_orient2d_at binary64 (dbl 4714705859903489 (- 51), dbl 4714705859903489 (- 51))
      (dbl 7036874417766403 (- 52), dbl 7036874417766403 (- 52))
      (dbl 25 (- 59), dbl 7036874417766399 (- 107)) = (Final, Fin 4785074604081150 (- 160)) \<and>
   Fin 4785074604081150 (- 160) \<noteq> fneg (Fin (- 4785074604081152) (- 160))"
proof -
  have 1: "adaptive_orient2d_at binary64 (dbl 7036874417766403 (- 52), dbl 7036874417766403 (- 52))
      (dbl 4714705859903489 (- 51), dbl 4714705859903489 (- 51))
      (dbl 25 (- 59), dbl 7036874417766399 (- 107)) = (Final, Fin (- 4785074604081152) (- 160))"
    by code_simp
  have 2: "adaptive_orient2d_at binary64 (dbl 4714705859903489 (- 51), dbl 4714705859903489 (- 51))
      (dbl 7036874417766403 (- 52), dbl 7036874417766403 (- 52))
      (dbl 25 (- 59), dbl 7036874417766399 (- 107)) = (Final, Fin 4785074604081150 (- 160))"
    by code_simp
  from 1 2 show ?thesis by simp
qed

section \<open>The exact predicates and the exponent range\<close>

text \<open>
  The exact predicates work on expansions of products of the coordinates, and a product
  can leave the exponent range.  In \<open>double\<close>, for \<open>a = (2^-600, 0)\<close>, \<open>b = (0, 2^-600)\<close>,
  \<open>c = (0, 0)\<close> the determinant is \<open>2^-1200\<close>; both the product and its tail underflow to
  zero, and \<open>exact::orient2d\<close> returns \<open>0\<close>.  For \<open>a = (2^600, 0)\<close>, \<open>b = (0, 2^600)\<close> the
  product overflows and the result is a NaN.
\<close>

lemma exact_orient2d_leaves_the_exponent_range:
  "list_all (finite_fl binary64) [dbl 1 (- 600), dbl 1 600, dbl 0 0] \<and>
   exact_orient2d binary64 (dbl 1 (- 600), dbl 0 0) (dbl 0 0, dbl 1 (- 600)) (dbl 0 0, dbl 0 0) =
     Fin 0 (- 1074) \<and>
   exact_orient2d binary64 (dbl 1 600, dbl 0 0) (dbl 0 0, dbl 1 600) (dbl 0 0, dbl 0 0) = NaN True"
  by code_simp

section \<open>\<open>PlusTail\<close> and \<open>Plus\<close>\<close>

lemma val_nonzero: "sum_list (map val (nonzero x)) = val x"
  by (cases x) simp_all

lemma length_nonzero: "length (nonzero x) \<le> 1"
  by (cases x) simp_all

lemma finite_fl_representable: "finite_fl c x \<Longrightarrow> representable c (val x)"
  using finite_representable by (cases x) auto

text \<open>
  When \<open>PlusTail\<close> returns a finite value, none of its four differences overflowed, each of
  them is the exact difference rounded to nearest, and the six roundings are those of
  \<open>two_sum_exact\<close>.
\<close>

lemma PlusTail_exact:
  assumes p: "3 \<le> digits c" and ra: "representable c (val a)" and rb: "representable c (val b)"
    and t: "PlusTail c a b (fadd c a b) = Fin m e"
  shows "val (fadd c a b) + val (PlusTail c a b (fadd c a b)) = val a + val b"
proof -
  have p1: "1 \<le> digits c" using p by simp
  define x where "x = fadd c a b"
  define bv where "bv = fsub c x a"
  define av where "av = fsub c x bv"
  define br where "br = fsub c b bv"
  define ar where "ar = fsub c a av"
  have y: "fadd c ar br = Fin m e"
    using t unfolding PlusTail_def Let_def x_def bv_def av_def br_def ar_def .
  from fadd_Fin[OF y] obtain m1 e1 m2 e2 where ar': "ar = Fin m1 e1" and br': "br = Fin m2 e2" by blast
  from fsub_Fin[OF ar'[unfolded ar_def]] obtain m3 e3 where av': "av = Fin m3 e3" by blast
  from fsub_Fin[OF av'[unfolded av_def]] obtain m4 e4 m5 e5 where x': "x = Fin m4 e4" and bv': "bv = Fin m5 e5"
    by blast
  have 1: "nearest c (val a + val b) (val x)"
    using fadd_nearest[OF x'[unfolded x_def] p1] x' x_def by simp
  have 2: "nearest c (val x - val a) (val bv)"
    using fsub_nearest[OF bv'[unfolded bv_def] p1] bv' bv_def by simp
  have 3: "nearest c (val x - val bv) (val av)"
    using fsub_nearest[OF av'[unfolded av_def] p1] av' av_def by simp
  have 4: "nearest c (val b - val bv) (val br)"
    using fsub_nearest[OF br'[unfolded br_def] p1] br' br_def by simp
  have 5: "nearest c (val a - val av) (val ar)"
    using fsub_nearest[OF ar'[unfolded ar_def] p1] ar' ar_def by simp
  have 6: "nearest c (val ar + val br) (val (fadd c ar br))"
    using fadd_nearest[OF y p1] y by simp
  from two_sum_exact[OF ra rb 1 2 3 4 5 6 p]
  have "val x + val (fadd c ar br) = val a + val b" .
  thus ?thesis
    unfolding PlusTail_def Let_def x_def bv_def av_def br_def ar_def .
qed

text \<open>
  C8, as the code has it.  For finite \<open>a\<close> and \<open>b\<close> whose rounded sum \<open>x = a + b\<close> is finite,
  and for which the value that \<open>PlusTail(a, b, x)\<close> returns is finite as well, the identity
  \<open>a + b = x + tail\<close> holds in the real numbers, and the expansion \<open>Plus(a, b)\<close> has at most
  two components, whose sum is \<open>a + b\<close>.  Nothing is asked of the order of the operands.
\<close>

theorem PlusTail_is_the_rounding_error:
  assumes "valid_fmt c" "finite_fl c a" "finite_fl c b"
    and "finite_fl c (fadd c a b)" "finite_fl c (PlusTail c a b (fadd c a b))"
  shows "val a + val b = val (fadd c a b) + val (PlusTail c a b (fadd c a b)) \<and>
         length (Plus c a b) \<le> 2 \<and> sum_list (map val (Plus c a b)) = val a + val b"
proof -
  from assms(5) obtain m e where t: "PlusTail c a b (fadd c a b) = Fin m e"
    by (cases "PlusTail c a b (fadd c a b)") simp_all
  have p: "3 \<le> digits c" using assms(1) unfolding valid_fmt_def by simp
  have "representable c (val a)" "representable c (val b)"
    using assms(2,3) by (simp_all add: finite_fl_representable)
  with p have 1: "val (fadd c a b) + val (PlusTail c a b (fadd c a b)) = val a + val b"
    using t by (rule PlusTail_exact)
  have 2: "length (Plus c a b) \<le> 2"
    unfolding Plus_def Let_def MakeExpansion_def
    using length_nonzero[of "fadd c a b"] length_nonzero[of "PlusTail c a b (fadd c a b)"] by simp
  have 3: "sum_list (map val (Plus c a b)) = val a + val b"
    unfolding Plus_def Let_def MakeExpansion_def using 1 by (simp add: val_nonzero)
  from 1 2 3 show ?thesis by simp
qed

text \<open>In \<open>double\<close>: \<open>1 + 3 * 2^-54\<close> rounds to \<open>1 + 2^-52\<close>, and the tail is \<open>- 2^-54\<close>.\<close>

theorem PlusTail_is_the_rounding_error_witness:
  "valid_fmt binary64 \<and> finite_fl binary64 (dbl 1 0) \<and> finite_fl binary64 (dbl 3 (- 54)) \<and>
   fadd binary64 (dbl 1 0) (dbl 3 (- 54)) = dbl 4503599627370497 (- 52) \<and>
   PlusTail binary64 (dbl 1 0) (dbl 3 (- 54)) (fadd binary64 (dbl 1 0) (dbl 3 (- 54))) = dbl (- 1) (- 54) \<and>
   val (dbl 1 0) + val (dbl 3 (- 54)) =
     val (fadd binary64 (dbl 1 0) (dbl 3 (- 54))) +
     val (PlusTail binary64 (dbl 1 0) (dbl 3 (- 54)) (fadd binary64 (dbl 1 0) (dbl 3 (- 54)))) \<and>
   length (Plus binary64 (dbl 1 0) (dbl 3 (- 54))) \<le> 2 \<and>
   sum_list (map val (Plus binary64 (dbl 1 0) (dbl 3 (- 54)))) = val (dbl 1 0) + val (dbl 3 (- 54))"
proof -
  have 1: "valid_fmt binary64"
    by code_simp
  have 2: "finite_fl binary64 (dbl 1 0)" "finite_fl binary64 (dbl 3 (- 54))"
    by code_simp+
  have 3: "fadd binary64 (dbl 1 0) (dbl 3 (- 54)) = dbl 4503599627370497 (- 52)"
    by code_simp
  have 4: "PlusTail binary64 (dbl 1 0) (dbl 3 (- 54)) (fadd binary64 (dbl 1 0) (dbl 3 (- 54))) =
      dbl (- 1) (- 54)"
    by code_simp
  have 5: "finite_fl binary64 (fadd binary64 (dbl 1 0) (dbl 3 (- 54)))"
    "finite_fl binary64
       (PlusTail binary64 (dbl 1 0) (dbl 3 (- 54)) (fadd binary64 (dbl 1 0) (dbl 3 (- 54))))"
    by code_simp+
  from 1 2 3 4 PlusTail_is_the_rounding_error[OF 1 2 5]
  show ?thesis by blast
qed

text \<open>
  The claim as the spec states it asks only for a finite \<open>x\<close>.  In \<open>double\<close>, with
  \<open>a = - 3 * 2^970\<close> and \<open>b = (2^53 - 1) * 2^971\<close>, the largest finite value, the sum
  \<open>x = (2^53 - 2) * 2^971\<close> is finite, but \<open>bVirtual = x - a\<close> rounds to \<open>2^1024\<close> and
  overflows; \<open>aRoundoff\<close> and \<open>bRoundoff\<close> are then infinities of opposite sign, and the
  tail returned is a NaN.
\<close>

theorem PlusTail_overflows_for_finite_sum:
  "finite_fl binary64 (dbl (- 3) 970) \<and> finite_fl binary64 (Fin 9007199254740991 971) \<and>
   fadd binary64 (dbl (- 3) 970) (Fin 9007199254740991 971) = Fin 9007199254740990 971 \<and>
   finite_fl binary64 (Fin 9007199254740990 971) \<and>
   fsub binary64 (Fin 9007199254740990 971) (dbl (- 3) 970) = PInf \<and>
   PlusTail binary64 (dbl (- 3) 970) (Fin 9007199254740991 971) (Fin 9007199254740990 971) = NaN True \<and>
   Plus binary64 (dbl (- 3) 970) (Fin 9007199254740991 971) = [NaN True, Fin 9007199254740990 971]"
proof -
  have 1: "finite_fl binary64 (dbl (- 3) 970)" "finite_fl binary64 (Fin 9007199254740991 971)"
    "finite_fl binary64 (Fin 9007199254740990 971)"
    by code_simp+
  have 2: "fadd binary64 (dbl (- 3) 970) (Fin 9007199254740991 971) = Fin 9007199254740990 971"
    by code_simp
  have 3: "fsub binary64 (Fin 9007199254740990 971) (dbl (- 3) 970) = PInf"
    by code_simp
  have 4: "PlusTail binary64 (dbl (- 3) 970) (Fin 9007199254740991 971) (Fin 9007199254740990 971) = NaN True"
    by code_simp
  have 5: "Plus binary64 (dbl (- 3) 970) (Fin 9007199254740991 971) = [NaN True, Fin 9007199254740990 971]"
    by code_simp
  from 1 2 3 4 5 show ?thesis by simp
qed

section \<open>The sum of two expansions\<close>


subsection \<open>Comparisons of finite values\<close>


lemma val_fabs: "val (fabs x) = \<bar>val x\<bar>"
  by (cases x) (simp_all add: abs_mult)





subsection \<open>The two tails\<close>




subsection \<open>The sweep\<close>


subsection \<open>The merge\<close>





subsection \<open>\<open>operator+\<close>\<close>

lemma length_sum_sweep: "length (sum_sweep c Q gs) \<le> Suc (length gs)"
proof (induction gs arbitrary: Q)
  case Nil
  show ?case using length_nonzero[of Q] by simp
next
  case (Cons g gs)
  show ?case
    using Cons.IH[of "fadd c Q g"] length_nonzero[of "PlusTail c Q g (fadd c Q g)"]
    by (simp add: Let_def)
qed

lemma length_expansion_plus: "length (expansion_plus c e f) \<le> length e + length f"
proof (induction c e f rule: expansion_plus.induct)
  case (3 c x xs y ys)
  obtain h0 h1 gs where m: "merge_abs (x # xs) (y # ys) = h0 # h1 # gs"
    using length_merge_abs[of "x # xs" "y # ys"]
    by (cases "merge_abs (x # xs) (y # ys)"; cases "tl (merge_abs (x # xs) (y # ys))") auto
  have "length (h0 # h1 # gs) = length (x # xs) + length (y # ys)"
    unfolding m[symmetric] by (rule length_merge_abs)
  moreover have "expansion_plus c (x # xs) (y # ys) =
      nonzero (FastPlusTail c h1 h0 (fadd c h1 h0)) @ sum_sweep c (fadd c h1 h0) gs"
    by (simp only: expansion_plus.simps m sum_first.simps Let_def)
  ultimately show ?case
    using length_sum_sweep[of c "fadd c h1 h0" gs]
      length_nonzero[of "FastPlusTail c h1 h0 (fadd c h1 h0)"]
    by simp
qed simp_all




section \<open>\<open>TwoTwoDiffZeroCheck\<close> against \<open>TwoTwoDiff\<close>\<close>

text \<open>
  Claim C4.  \<open>TwoTwoDiffZeroCheck(ax, by, ay, bx)\<close> is meant to return an expansion of
  the same value \<open>ax * by - ay * bx\<close> as \<open>TwoTwoDiff(ax, by, ay, bx)\<close>.  For
  \<open>ax = 0\<close>, \<open>by = ay = bx = 1\<close> in \<open>double\<close> the value is \<open>-1\<close>, and
  \<open>TwoTwoDiff\<close> returns the expansion \<open>[-1]\<close>; the zero-checking variant takes the
  branch \<open>e = Mult(ay, bx)\<close> and returns \<open>[1]\<close>, the product without the minus sign.
\<close>

theorem TwoTwoDiffZeroCheck_drops_sign:
  "map val (TwoTwoDiff binary64 (Fin 0 (- 1074)) (Fin 4503599627370496 (- 52))
       (Fin 4503599627370496 (- 52)) (Fin 4503599627370496 (- 52))) = [- 1] \<and>
   map val (TwoTwoDiffZeroCheck binary64 (Fin 0 (- 1074)) (Fin 4503599627370496 (- 52))
       (Fin 4503599627370496 (- 52)) (Fin 4503599627370496 (- 52))) = [1]"
proof -
  have a: "TwoTwoDiff binary64 (Fin 0 (- 1074)) (Fin 4503599627370496 (- 52))
       (Fin 4503599627370496 (- 52)) (Fin 4503599627370496 (- 52)) = [Fin (- 4503599627370496) (- 52)]"
    by code_simp
  have b: "TwoTwoDiffZeroCheck binary64 (Fin 0 (- 1074)) (Fin 4503599627370496 (- 52))
       (Fin 4503599627370496 (- 52)) (Fin 4503599627370496 (- 52)) = [Fin 4503599627370496 (- 52)]"
    by code_simp
  show ?thesis unfolding a b by simp
qed

end
